theory Spec2Isabelle
  imports Complex_Main "HOL-Library.Log_Nat"
begin

section \<open>JavaScript values\<close>

text \<open>
  Everything the program keeps goes through \<^verbatim>\<open>JSON.stringify\<close> and
  \<^verbatim>\<open>JSON.parse\<close>, so a value is what a JSON text decodes to, or a number that
  only memory holds. A number is \<open>JNum n\<close> when it is the integer \<open>n\<close> (the
  identifiers, counters and millisecond instants of the program) and \<open>JReal x\<close> otherwise:
  a finite number that is no integer, the negative zero, an infinity (what the text
  \<^verbatim>\<open>1e999\<close> decodes to) or \<^verbatim>\<open>NaN\<close>. A string is a list of code units
  below 256. An object is the list of its own properties in insertion order; \<open>None\<close>
  stands for \<^verbatim>\<open>undefined\<close> where a property is read.
\<close>

datatype number =
    Finite rat
  | NegativeZero
  | PositiveInfinity
  | NegativeInfinity
  | NotANumber

datatype jsval =
    JNull
  | JBool bool
  | JNum int
  | JReal number
  | JStr string
  | JArr "jsval list"
  | JObj "(string \<times> jsval) list"

type_synonym object = "(string \<times> jsval) list"

text \<open>
  What a call throws. \<open>OutsideModel\<close> is no exception of the program: it marks the
  places where the model does not follow the language (a text coerced to a number, a
  property that comes from a built-in prototype, a path identifier of more than 20
  digits), so that no result is given there.
\<close>

datatype error =
    TypeError
  | APIError string nat
  | OutsideModel

section \<open>Double-precision arithmetic\<close>

text \<open>
  The numbers of the language are the binary64 numbers, and an arithmetic operation gives
  the exact result rounded to the nearest of them, a tie going to the one whose last bit
  is zero. \<open>round_double\<close> is that rounding, on the rationals: the last place of \<open>x\<close>
  is \<open>2\<close> to the power \<open>ulp_exponent x\<close>, which is 52 places below the leading bit
  of \<open>x\<close> and never below \<open>-1074\<close>. (An overflow to an infinity is not modelled: the
  operands of the program's arithmetic are counters and differences of instants.)
\<close>

definition round_half_even :: "rat \<Rightarrow> int" where
  "round_half_even q =
     (let f = \<lfloor>q\<rfloor>; r = q - of_int f
      in if r < 1 / 2 then f else if 1 / 2 < r then f + 1 else if even f then f else f + 1)"

definition floor_log2 :: "rat \<Rightarrow> int" where
  "floor_log2 x =
     (case quotient_of x of (a, b) \<Rightarrow>
        let k = bitlen a - bitlen b in if 2 powi k \<le> x then k else k - 1)"

definition ulp_exponent :: "rat \<Rightarrow> int" where
  "ulp_exponent x = max (floor_log2 x - 52) (- 1074)"

definition round_positive :: "rat \<Rightarrow> rat" where
  "round_positive x = of_int (round_half_even (x / 2 powi ulp_exponent x)) * 2 powi ulp_exponent x"

definition round_double :: "rat \<Rightarrow> rat" where
  "round_double x =
     (if x = 0 then 0 else if 0 < x then round_positive x else - round_positive (- x))"

text \<open>
  \<^verbatim>\<open>n + 1\<close> on a number that is an integer (\<^verbatim>\<open>this.nextId++\<close>,
  \<^verbatim>\<open>Math.max(...) + 1\<close>): an integer again, which is \<open>n\<close> itself at \<open>2^53\<close>, where
  the successor is no binary64 number.
\<close>

definition plus_one :: "int \<Rightarrow> int" where
  "plus_one n = \<lfloor>round_double (of_int n + 1)\<rfloor>"

section \<open>Texts and objects\<close>

text \<open>Decimal digits of a number that is not negative, as \<^verbatim>\<open>String(n)\<close> prints them.\<close>

definition digit_char :: "int \<Rightarrow> char" where
  "digit_char n = ''0123456789'' ! nat n"

function digits :: "int \<Rightarrow> string" where
  "digits n = (if n < 10 then [digit_char n] else digits (n div 10) @ [digit_char (n mod 10)])"
  by pat_completeness auto
termination
  by (relation "measure nat") auto

declare digits.simps [simp del]

definition is_digit :: "char \<Rightarrow> bool" where
  "is_digit c = (48 \<le> (of_char c :: nat) \<and> (of_char c :: nat) \<le> 57)"

definition digit_val :: "char \<Rightarrow> int" where
  "digit_val c = (of_char c :: int) - 48"

definition number_of_digits :: "string \<Rightarrow> int" where
  "number_of_digits s = foldl (\<lambda>n c. 10 * n + digit_val c) 0 s"

text \<open>
  A property name is an array index when it is the canonical decimal form of a number
  below \<open>2^32 - 1\<close>. The language enumerates such names first, in ascending order,
  and the others after them in insertion order.
\<close>

definition is_index :: "string \<Rightarrow> bool" where
  "is_index k = (k \<noteq> [] \<and> list_all is_digit k \<and> (hd k \<noteq> CHR ''0'' \<or> length k = 1)
     \<and> number_of_digits k < 4294967295)"

definition own_entries :: "(string \<times> 'a) list \<Rightarrow> (string \<times> 'a) list" where
  "own_entries ob =
     sort_key (\<lambda>kv. number_of_digits (fst kv)) (filter (\<lambda>kv. is_index (fst kv)) ob)
     @ filter (\<lambda>kv. \<not> is_index (fst kv)) ob"

text \<open>Assignment to a property: an existing property keeps its place.\<close>

fun obj_set :: "object \<Rightarrow> string \<Rightarrow> jsval \<Rightarrow> object" where
  "obj_set [] k v = [(k, v)]"
| "obj_set ((k', v') # ob) k v = (if k' = k then (k, v) # ob else (k', v') # obj_set ob k v)"

definition obj_get :: "object \<Rightarrow> string \<Rightarrow> jsval option" where
  "obj_get ob k = map_of ob k"

text \<open>The spread \<^verbatim>\<open>{...a, ...b}\<close>: the own properties of \<open>b\<close> assigned over \<open>a\<close>.\<close>

fun assign_all :: "object \<Rightarrow> object \<Rightarrow> object" where
  "assign_all a [] = a"
| "assign_all a ((k, v) # b) = assign_all (obj_set a k v) b"

text \<open>
  The own enumerable properties of a value: those of an object, the elements of an array
  or the characters of a string under their indices, none for the other primitives.
\<close>

fun entries_of :: "jsval \<Rightarrow> object" where
  "entries_of (JObj b) = own_entries b"
| "entries_of (JArr xs) = zip (map (\<lambda>i. digits (int i)) [0..<length xs]) xs"
| "entries_of (JStr s) = zip (map (\<lambda>i. digits (int i)) [0..<length s]) (map (\<lambda>c. JStr [c]) s)"
| "entries_of v = []"

definition spread :: "object \<Rightarrow> jsval \<Rightarrow> object" where
  "spread a b = assign_all a (entries_of b)"

text \<open>
  The names that a value inherits from the built-in prototypes (ECMAScript 2023). Their
  values are functions, which are no values of the model: reading one of them, when the
  value has no property of its own under the name, is outside of the model.
\<close>

definition Object_prototype :: "string list" where
  "Object_prototype =
     [''constructor'', ''__defineGetter__'', ''__defineSetter__'', ''hasOwnProperty'',
      ''__lookupGetter__'', ''__lookupSetter__'', ''isPrototypeOf'', ''propertyIsEnumerable'',
      ''toString'', ''valueOf'', ''__proto__'', ''toLocaleString'']"

definition Array_prototype :: "string list" where
  "Array_prototype =
     [''at'', ''concat'', ''copyWithin'', ''entries'', ''every'', ''fill'', ''filter'', ''find'',
      ''findIndex'', ''findLast'', ''findLastIndex'', ''flat'', ''flatMap'', ''forEach'',
      ''includes'', ''indexOf'', ''join'', ''keys'', ''lastIndexOf'', ''map'', ''pop'', ''push'',
      ''reduce'', ''reduceRight'', ''reverse'', ''shift'', ''slice'', ''some'', ''sort'',
      ''splice'', ''toReversed'', ''toSorted'', ''toSpliced'', ''unshift'', ''values'', ''with'']"

definition String_prototype :: "string list" where
  "String_prototype =
     [''anchor'', ''at'', ''big'', ''blink'', ''bold'', ''charAt'', ''charCodeAt'', ''codePointAt'',
      ''concat'', ''endsWith'', ''fixed'', ''fontcolor'', ''fontsize'', ''includes'', ''indexOf'',
      ''isWellFormed'', ''italics'', ''lastIndexOf'', ''link'', ''localeCompare'', ''match'',
      ''matchAll'', ''normalize'', ''padEnd'', ''padStart'', ''repeat'', ''replace'',
      ''replaceAll'', ''search'', ''slice'', ''small'', ''split'', ''startsWith'', ''strike'',
      ''sub'', ''substr'', ''substring'', ''sup'', ''toLocaleLowerCase'', ''toLocaleUpperCase'',
      ''toLowerCase'', ''toUpperCase'', ''toWellFormed'', ''trim'', ''trimEnd'', ''trimLeft'',
      ''trimRight'', ''trimStart'']"

definition Number_prototype :: "string list" where
  "Number_prototype = [''toExponential'', ''toFixed'', ''toPrecision'']"

definition inherited :: "string list \<Rightarrow> string \<Rightarrow> error + jsval option" where
  "inherited names p =
     (if p \<in> set names \<or> p \<in> set Object_prototype then Inl OutsideModel else Inr None)"

text \<open>
  Reading a property of a value: \<^verbatim>\<open>null.p\<close> throws; an object has its own
  properties, an array or a string its elements under their indices and its
  \<^verbatim>\<open>length\<close>; any other name is looked up in the prototypes.
\<close>

definition index_prop :: "jsval list \<Rightarrow> string \<Rightarrow> jsval option" where
  "index_prop xs p =
     (if is_index p \<and> number_of_digits p < int (length xs) then Some (xs ! nat (number_of_digits p))
      else if p = ''length'' then Some (JNum (int (length xs)))
      else None)"

fun get_prop :: "jsval \<Rightarrow> string \<Rightarrow> error + jsval option" where
  "get_prop JNull p = Inl TypeError"
| "get_prop (JObj ob) p =
     (case obj_get ob p of Some v \<Rightarrow> Inr (Some v) | None \<Rightarrow> inherited [] p)"
| "get_prop (JArr xs) p =
     (case index_prop xs p of Some v \<Rightarrow> Inr (Some v) | None \<Rightarrow> inherited Array_prototype p)"
| "get_prop (JStr s) p =
     (case index_prop (map (\<lambda>c. JStr [c]) s) p of
        Some v \<Rightarrow> Inr (Some v)
      | None \<Rightarrow> inherited String_prototype p)"
| "get_prop (JBool b) p = inherited [] p"
| "get_prop (JNum n) p = inherited Number_prototype p"
| "get_prop (JReal x) p = inherited Number_prototype p"

fun truthy :: "jsval \<Rightarrow> bool" where
  "truthy JNull = False"
| "truthy (JBool b) = b"
| "truthy (JNum n) = (n \<noteq> 0)"
| "truthy (JReal x) = (x \<noteq> NegativeZero \<and> x \<noteq> NotANumber \<and> x \<noteq> Finite 0)"
| "truthy (JStr s) = (s \<noteq> [])"
| "truthy (JArr xs) = True"
| "truthy (JObj ob) = True"

text \<open>
  An argument of a call is a value, \<^verbatim>\<open>undefined\<close> or \<^verbatim>\<open>NaN\<close> (what
  \<^verbatim>\<open>parseInt\<close> gives without digits). Strict equality between a property read from
  decoded storage and an argument: primitives compare by value, \<^verbatim>\<open>NaN\<close> equals
  nothing, arrays and objects are distinct references.
\<close>

datatype arg = ArgNaN | ArgUndefined | ArgVal jsval

definition same_number :: "number \<Rightarrow> number \<Rightarrow> bool" where
  "same_number a b =
     (a \<noteq> NotANumber \<and> b \<noteq> NotANumber
      \<and> (a = b \<or> (a = NegativeZero \<or> a = Finite 0) \<and> (b = NegativeZero \<or> b = Finite 0)))"

fun strict_eq :: "jsval option \<Rightarrow> arg \<Rightarrow> bool" where
  "strict_eq None ArgUndefined = True"
| "strict_eq (Some JNull) (ArgVal JNull) = True"
| "strict_eq (Some (JBool a)) (ArgVal (JBool b)) = (a = b)"
| "strict_eq (Some (JNum a)) (ArgVal (JNum b)) = (a = b)"
| "strict_eq (Some (JStr a)) (ArgVal (JStr b)) = (a = b)"
| "strict_eq (Some (JReal a)) (ArgVal (JReal b)) = same_number a b"
| "strict_eq (Some (JNum a)) (ArgVal (JReal b)) = same_number (Finite (of_int a)) b"
| "strict_eq (Some (JReal a)) (ArgVal (JNum b)) = same_number a (Finite (of_int b))"
| "strict_eq x y = False"

text \<open>
  \<^verbatim>\<open>String.prototype.toLowerCase\<close> on code units below 256: the letters A to Z and the
  capital letters of Latin-1 (\<open>0xC0\<close> to \<open>0xDE\<close>, the multiplication sign apart) have a
  small letter, 32 places further.
\<close>

definition capital_letters :: string where
  "capital_letters =
     ''ABCDEFGHIJKLMNOPQRSTUVWXYZ''
     @ [CHR 0xC0, CHR 0xC1, CHR 0xC2, CHR 0xC3, CHR 0xC4, CHR 0xC5, CHR 0xC6, CHR 0xC7,
        CHR 0xC8, CHR 0xC9, CHR 0xCA, CHR 0xCB, CHR 0xCC, CHR 0xCD, CHR 0xCE, CHR 0xCF,
        CHR 0xD0, CHR 0xD1, CHR 0xD2, CHR 0xD3, CHR 0xD4, CHR 0xD5, CHR 0xD6,
        CHR 0xD8, CHR 0xD9, CHR 0xDA, CHR 0xDB, CHR 0xDC, CHR 0xDD, CHR 0xDE]"

definition small_letters :: string where
  "small_letters =
     ''abcdefghijklmnopqrstuvwxyz''
     @ [CHR 0xE0, CHR 0xE1, CHR 0xE2, CHR 0xE3, CHR 0xE4, CHR 0xE5, CHR 0xE6, CHR 0xE7,
        CHR 0xE8, CHR 0xE9, CHR 0xEA, CHR 0xEB, CHR 0xEC, CHR 0xED, CHR 0xEE, CHR 0xEF,
        CHR 0xF0, CHR 0xF1, CHR 0xF2, CHR 0xF3, CHR 0xF4, CHR 0xF5, CHR 0xF6,
        CHR 0xF8, CHR 0xF9, CHR 0xFA, CHR 0xFB, CHR 0xFC, CHR 0xFD, CHR 0xFE]"

definition lower_char :: "char \<Rightarrow> char" where
  "lower_char c =
     (case map_of (zip capital_letters small_letters) c of
        Some l \<Rightarrow> l
      | None \<Rightarrow> c)"

definition toLowerCase :: "string \<Rightarrow> string" where
  "toLowerCase s = map lower_char s"

section \<open>Dates\<close>

text \<open>
  An instant is a number of milliseconds since 1970-01-01T00:00:00Z. The civil date of a
  day number follows the proleptic Gregorian calendar of the language's \<^verbatim>\<open>Date\<close>.
\<close>

definition msPerDay :: int where
  "msPerDay = 86400000"

definition Day :: "int \<Rightarrow> int" where
  "Day t = t div msPerDay"

definition TimeWithinDay :: "int \<Rightarrow> int" where
  "TimeWithinDay t = t mod msPerDay"

definition civil_from_days :: "int \<Rightarrow> int \<times> int \<times> int" where
  "civil_from_days z =
     (let z1 = z + 719468;
          era = z1 div 146097;
          doe = z1 mod 146097;
          yoe = (doe - doe div 1460 + doe div 36524 - doe div 146096) div 365;
          doy = doe - (365 * yoe + yoe div 4 - yoe div 100);
          mp = (5 * doy + 2) div 153;
          d = doy - (153 * mp + 2) div 5 + 1;
          m = (if mp < 10 then mp + 3 else mp - 9);
          y = yoe + era * 400 + (if m \<le> 2 then 1 else 0)
      in (y, m, d))"

definition days_from_civil :: "int \<Rightarrow> int \<Rightarrow> int \<Rightarrow> int" where
  "days_from_civil y m d =
     (let y1 = (if m \<le> 2 then y - 1 else y);
          era = y1 div 400;
          yoe = y1 mod 400;
          mp = (if m > 2 then m - 3 else m + 9);
          doy = (153 * mp + 2) div 5 + d - 1;
          doe = yoe * 365 + yoe div 4 - yoe div 100 + doy
      in era * 146097 + doe - 719468)"

definition pad :: "nat \<Rightarrow> int \<Rightarrow> string" where
  "pad w n = (let s = digits n in replicate (w - length s) CHR ''0'' @ s)"

definition iso_year :: "int \<Rightarrow> string" where
  "iso_year y =
     (if 0 \<le> y \<and> y \<le> 9999 then pad 4 y
      else if y < 0 then CHR ''-'' # pad 6 (- y) else CHR ''+'' # pad 6 y)"

definition toISOString :: "int \<Rightarrow> string" where
  "toISOString t =
     (case civil_from_days (Day t) of (y, m, d) \<Rightarrow>
        let r = TimeWithinDay t in
        iso_year y @ ''-'' @ pad 2 m @ ''-'' @ pad 2 d @ ''T''
        @ pad 2 (r div 3600000) @ '':'' @ pad 2 (r div 60000 mod 60) @ '':''
        @ pad 2 (r div 1000 mod 60) @ ''.'' @ pad 3 (r mod 1000) @ ''Z'')"

text \<open>\<^verbatim>\<open>s.split('T')[0]\<close>: the text before the first T.\<close>

definition before_T :: "string \<Rightarrow> string" where
  "before_T s = takeWhile (\<lambda>c. c \<noteq> CHR ''T'') s"

section \<open>Storage\<close>

text \<open>
  The world is the browser's storage together with the counter of the repository
  singleton. \<open>items\<close> gives the decoded value of each stored item (\<open>None\<close> for an item
  that is missing, empty or not decodable: \<^verbatim>\<open>get\<close> answers its default for all three).
  \<open>accepts\<close> tells whether the medium takes a write (it can refuse one when its quota is
  exceeded, and \<^verbatim>\<open>set\<close> then catches the exception). \<open>ticks\<close> counts the readings of
  the wall clock taken so far; the environment gives the value of each reading. The
  counter is an integer: a collection with an identifier that is no integer gives none.
\<close>

record world =
  items :: "string \<Rightarrow> jsval option"
  accepts :: "(string \<Rightarrow> jsval option) \<Rightarrow> string \<Rightarrow> jsval \<Rightarrow> bool"
  nextId :: int
  ticks :: nat

text \<open>
  The environment of the page: the wall clock (one value for each reading, in order); the
  values drawn from \<^verbatim>\<open>Math.random()\<close> at a reading, which are not integers and so
  are given as values (the number \<^verbatim>\<open>Date.now() + Math.random()\<close> of an audit entry,
  the session identifier, the synthetic figures of the reports and metrics); the browser's
  user agent; the host's \<^verbatim>\<open>Date.parse\<close> (\<open>None\<close> for \<^verbatim>\<open>NaN\<close>); the offset
  of its local time from UTC in milliseconds, \<open>localTZA t True\<close> at the instant \<open>t\<close>
  and \<open>localTZA t False\<close> at the local time \<open>t\<close> (the offset changes with daylight saving
  time); and the text that the host's \<^verbatim>\<open>Number.prototype.toString\<close> gives for a
  number that is not an integer of magnitude below \<open>10^21\<close> (its shortest decimal form,
  with an exponent where the language wants one).
\<close>

record env =
  clock :: "nat \<Rightarrow> int"
  entryId :: "nat \<Rightarrow> jsval"
  sessionIdAt :: "nat \<Rightarrow> string"
  synthetic :: "nat \<Rightarrow> string \<Rightarrow> jsval"
  userAgent :: string
  dateParse :: "string \<Rightarrow> int option"
  localTZA :: "int \<Rightarrow> bool \<Rightarrow> int"
  numberToString :: "rat \<Rightarrow> string"

definition storage_prefix :: string where
  "storage_prefix = ''studyquality_''"

definition CURRENT_USER :: string where
  "CURRENT_USER = ''studyquality_current_user''"

definition USER_DATA :: string where
  "USER_DATA = ''studyquality_users''"

definition SYSTEM_SETTINGS :: string where
  "SYSTEM_SETTINGS = ''studyquality_settings''"

definition BACKUP_DATA :: string where
  "BACKUP_DATA = ''studyquality_backup''"

definition SESSION_DATA :: string where
  "SESSION_DATA = ''studyquality_session''"

definition METRICS_DATA :: string where
  "METRICS_DATA = ''studyquality_metrics''"

definition LOGS_DATA :: string where
  "LOGS_DATA = ''studyquality_logs''"

definition STORAGE_KEYS :: "string list" where
  "STORAGE_KEYS =
     [CURRENT_USER, USER_DATA, SYSTEM_SETTINGS, BACKUP_DATA, SESSION_DATA, METRICS_DATA, LOGS_DATA]"

definition storage_get :: "world \<Rightarrow> string \<Rightarrow> jsval \<Rightarrow> jsval" where
  "storage_get w key defaultValue =
     (case items w (storage_prefix @ key) of Some v \<Rightarrow> v | None \<Rightarrow> defaultValue)"

text \<open>
  What \<^verbatim>\<open>JSON.parse\<close> reads back from the text that \<^verbatim>\<open>JSON.stringify\<close> writes
  for a value: the value itself, but for the numbers that JSON cannot write; an infinity
  or \<^verbatim>\<open>NaN\<close> is written as \<^verbatim>\<open>null\<close>, the negative zero as \<^verbatim>\<open>0\<close>.
\<close>

fun json_image :: "jsval \<Rightarrow> jsval" where
  "json_image (JReal x) =
     (case x of Finite q \<Rightarrow> JReal (Finite q) | NegativeZero \<Rightarrow> JNum 0 | _ \<Rightarrow> JNull)"
| "json_image (JArr xs) = JArr (map json_image xs)"
| "json_image (JObj ob) = JObj (map (\<lambda>kv. (fst kv, json_image (snd kv))) ob)"
| "json_image v = v"

definition storage_set :: "world \<Rightarrow> string \<Rightarrow> jsval \<Rightarrow> bool \<times> world" where
  "storage_set w key v =
     (if accepts w (items w) (storage_prefix @ key) (json_image v)
      then (True, w\<lparr>items := (items w)(storage_prefix @ key \<mapsto> json_image v)\<rparr>)
      else (False, w))"

definition storage_remove :: "world \<Rightarrow> string \<Rightarrow> world" where
  "storage_remove w key = w\<lparr>items := (items w)(storage_prefix @ key := None)\<rparr>"

definition SAMPLE_USERS :: jsval where
  "SAMPLE_USERS = JArr
     [JObj [(''id'', JNum 1), (''name'', JStr (''Juan P'' @ [char_of (233::nat)] @ ''rez'')),
            (''email'', JStr ''juan@demo.com''), (''role'', JStr ''admin''),
            (''status'', JStr ''active''), (''registeredDate'', JStr ''2024-01-15''),
            (''notes'', JStr ''Usuario administrador principal''),
            (''lastLogin'', JStr ''2024-03-15T10:30:00Z'')],
      JObj [(''id'', JNum 2),
            (''name'', JStr (''Mar'' @ [char_of (237::nat)] @ ''a Garc'' @ [char_of (237::nat)] @ ''a'')),
            (''email'', JStr ''maria@demo.com''), (''role'', JStr ''user''),
            (''status'', JStr ''active''), (''registeredDate'', JStr ''2024-02-20''),
            (''notes'', JStr ''Usuario regular del sistema''),
            (''lastLogin'', JStr ''2024-03-14T15:45:00Z'')],
      JObj [(''id'', JNum 3), (''name'', JStr (''Carlos L'' @ [char_of (243::nat)] @ ''pez'')),
            (''email'', JStr ''carlos@demo.com''), (''role'', JStr ''user''),
            (''status'', JStr ''inactive''), (''registeredDate'', JStr ''2024-01-30''),
            (''notes'', JStr ''Usuario temporal''),
            (''lastLogin'', JStr ''2024-02-28T09:15:00Z'')],
      JObj [(''id'', JNum 4), (''name'', JStr (''Ana Mart'' @ [char_of (237::nat)] @ ''nez'')),
            (''email'', JStr ''ana@demo.com''), (''role'', JStr ''user''),
            (''status'', JStr ''active''), (''registeredDate'', JStr ''2024-03-01''),
            (''notes'', JStr ''Usuario departamento de ventas''),
            (''lastLogin'', JStr ''2024-03-15T14:20:00Z'')],
      JObj [(''id'', JNum 5), (''name'', JStr ''Roberto Silva''),
            (''email'', JStr ''roberto@demo.com''), (''role'', JStr ''admin''),
            (''status'', JStr ''active''), (''registeredDate'', JStr ''2024-02-10''),
            (''notes'', JStr (''Administrador t'' @ [char_of (233::nat)] @ ''cnico'')),
            (''lastLogin'', JStr ''2024-03-15T08:00:00Z'')]]"

definition initializeStorage :: "world \<Rightarrow> world" where
  "initializeStorage w =
     (if \<not> truthy (storage_get w USER_DATA JNull) then
        (let w1 = snd (storage_set w USER_DATA SAMPLE_USERS) in
         snd (storage_set w1 SYSTEM_SETTINGS
           (JObj [(''theme'', JStr ''auto''), (''language'', JStr ''es''),
                  (''notifications'', JBool True), (''autoSave'', JBool True),
                  (''debugMode'', JBool False)])))
      else w)"

section \<open>The user repository\<close>

text \<open>Array callbacks that may throw: the first exception ends the walk.\<close>

fun map_err :: "('a \<Rightarrow> error + 'b) \<Rightarrow> 'a list \<Rightarrow> error + 'b list" where
  "map_err f [] = Inr []"
| "map_err f (x # xs) =
     (case f x of
        Inl e \<Rightarrow> Inl e
      | Inr y \<Rightarrow> (case map_err f xs of Inl e \<Rightarrow> Inl e | Inr ys \<Rightarrow> Inr (y # ys)))"

fun findIndex :: "('a \<Rightarrow> error + bool) \<Rightarrow> 'a list \<Rightarrow> error + nat option" where
  "findIndex p [] = Inr None"
| "findIndex p (x # xs) =
     (case p x of
        Inl e \<Rightarrow> Inl e
      | Inr True \<Rightarrow> Inr (Some 0)
      | Inr False \<Rightarrow> (case findIndex p xs of
                        Inl e \<Rightarrow> Inl e
                      | Inr None \<Rightarrow> Inr None
                      | Inr (Some i) \<Rightarrow> Inr (Some (Suc i))))"

definition getUsers :: "world \<Rightarrow> jsval" where
  "getUsers w = storage_get w USER_DATA (JArr [])"

definition id_matches :: "arg \<Rightarrow> jsval \<Rightarrow> error + bool" where
  "id_matches i user =
     (case get_prop user ''id'' of Inl e \<Rightarrow> Inl e | Inr v \<Rightarrow> Inr (strict_eq v i))"


definition email_matches :: "jsval option \<Rightarrow> jsval \<Rightarrow> error + bool" where
  "email_matches email user =
     (case get_prop user ''email'' of
        Inr (Some (JStr a)) \<Rightarrow>
          (case email of
             Some (JStr b) \<Rightarrow> Inr (toLowerCase a = toLowerCase b)
           | _ \<Rightarrow> Inl TypeError)
      | _ \<Rightarrow> Inl TypeError)"

definition getUserByEmail :: "world \<Rightarrow> jsval option \<Rightarrow> error + jsval" where
  "getUserByEmail w email =
     (case getUsers w of
        JArr users \<Rightarrow>
          (case findIndex (email_matches email) users of
             Inl e \<Rightarrow> Inl e
           | Inr None \<Rightarrow> Inr JNull
           | Inr (Some k) \<Rightarrow> Inr (users ! k))
      | _ \<Rightarrow> Inl TypeError)"

text \<open>
  \<^verbatim>\<open>Data.deepClone\<close>: arrays and objects are rebuilt, primitives returned. The loop
  over an object calls \<^verbatim>\<open>obj.hasOwnProperty(key)\<close>: when the object has a property of
  that name, its value is no function and the call throws, so a value can be cloned when
  no object in it has one. The clone of an object gets its own properties in enumeration
  order by assignment; assigning to \<^verbatim>\<open>__proto__\<close> sets the prototype of the clone and
  gives it no property.
\<close>

fun clonable :: "jsval \<Rightarrow> bool" where
  "clonable (JArr xs) = (\<forall>x\<in>set xs. clonable x)"
| "clonable (JObj ob) = (''hasOwnProperty'' \<notin> fst ` set ob \<and> (\<forall>kv\<in>set ob. clonable (snd kv)))"
| "clonable v = True"

fun cloned :: "jsval \<Rightarrow> jsval" where
  "cloned (JArr xs) = JArr (map cloned xs)"
| "cloned (JObj ob) =
     JObj (filter (\<lambda>kv. fst kv \<noteq> ''__proto__'')
             (own_entries (map (\<lambda>kv. (fst kv, cloned (snd kv))) ob)))"
| "cloned v = v"

definition deepClone :: "jsval \<Rightarrow> error + jsval" where
  "deepClone obj = (if clonable obj then Inr (cloned obj) else Inl TypeError)"

text \<open>
  The audit entry around the clone of the data. A \<^verbatim>\<open>userId\<close> that is
  \<^verbatim>\<open>undefined\<close> is left out by the encoding.
\<close>

definition logEntry :: "env \<Rightarrow> nat \<Rightarrow> string \<Rightarrow> arg \<Rightarrow> jsval \<Rightarrow> jsval" where
  "logEntry e k action userId clone =
     JObj ([(''id'', entryId e k),
            (''timestamp'', JStr (toISOString (clock e (k + 1)))),
            (''action'', JStr action)]
           @ (case userId of
                ArgVal u \<Rightarrow> [(''userId'', u)]
              | ArgNaN \<Rightarrow> [(''userId'', JReal NotANumber)]
              | ArgUndefined \<Rightarrow> [])
           @ [(''data'', clone), (''userAgent'', JStr (userAgent e))])"

text \<open>
  \<^verbatim>\<open>logUserAction\<close>: the entry is built (two readings of the clock, then the clone,
  which may throw), pushed on the stored log (which throws when that is no array), the
  log is cut to its last 1000 entries and written.
\<close>

definition logUserAction :: "env \<Rightarrow> string \<Rightarrow> arg \<Rightarrow> jsval \<Rightarrow> world \<Rightarrow> (error + unit) \<times> world" where
  "logUserAction e action userId data w =
     (let logs = storage_get w LOGS_DATA (JArr []);
          w1 = w\<lparr>ticks := ticks w + 2\<rparr>
      in case deepClone data of
           Inl err \<Rightarrow> (Inl err, w1)
         | Inr clone \<Rightarrow>
             (let entry = logEntry e (ticks w) action userId clone in
              case logs of
                JArr ls \<Rightarrow>
                  (let ls1 = ls @ [entry];
                       ls2 = (if length ls1 > 1000 then drop (length ls1 - 1000) ls1 else ls1)
                   in (Inr (), snd (storage_set w1 LOGS_DATA (JArr ls2))))
              | _ \<Rightarrow> (Inl TypeError, w1)))"

definition arg_of :: "jsval option \<Rightarrow> arg" where
  "arg_of v = (case v of Some x \<Rightarrow> ArgVal x | None \<Rightarrow> ArgUndefined)"

definition newUser :: "env \<Rightarrow> world \<Rightarrow> jsval \<Rightarrow> object" where
  "newUser e w userData =
     obj_set (obj_set (obj_set (obj_set
       (spread [(''id'', JNum (nextId w))] userData)
       ''registeredDate'' (JStr (before_T (toISOString (clock e (ticks w))))))
       ''lastLogin'' JNull)
       ''createdAt'' (JStr (toISOString (clock e (ticks w + 1)))))
       ''updatedAt'' (JStr (toISOString (clock e (ticks w + 2))))"

definition createUser :: "env \<Rightarrow> jsval \<Rightarrow> world \<Rightarrow> (error + jsval) \<times> world" where
  "createUser e userData w =
     (let users = getUsers w;
          u = newUser e w userData;
          w1 = w\<lparr>nextId := plus_one (nextId w), ticks := ticks w + 3\<rparr>
      in case users of
           JArr us \<Rightarrow>
             (let w2 = snd (storage_set w1 USER_DATA (JArr (us @ [JObj u]))) in
              case logUserAction e ''USER_CREATED'' (arg_of (obj_get u ''id'')) (JObj u) w2 of
                (Inl err, w3) \<Rightarrow> (Inl err, w3)
              | (Inr _, w3) \<Rightarrow> (Inr (JObj u), w3))
         | _ \<Rightarrow> (Inl TypeError, w1))"

definition updatedUser :: "env \<Rightarrow> world \<Rightarrow> jsval \<Rightarrow> jsval \<Rightarrow> object" where
  "updatedUser e w old updates =
     obj_set (spread (spread [] old) updates) ''updatedAt'' (JStr (toISOString (clock e (ticks w))))"

definition updateUser :: "env \<Rightarrow> arg \<Rightarrow> jsval \<Rightarrow> world \<Rightarrow> (error + jsval) \<times> world" where
  "updateUser e i updates w =
     (case getUsers w of
        JArr us \<Rightarrow>
          (case findIndex (id_matches i) us of
             Inl err \<Rightarrow> (Inl err, w)
           | Inr None \<Rightarrow> (Inr JNull, w)
           | Inr (Some k) \<Rightarrow>
               (let u = updatedUser e w (us ! k) updates;
                    w1 = w\<lparr>ticks := ticks w + 1\<rparr>;
                    w2 = snd (storage_set w1 USER_DATA (JArr (us[k := JObj u])))
                in case logUserAction e ''USER_UPDATED'' i (JObj u) w2 of
                     (Inl err, w3) \<Rightarrow> (Inl err, w3)
                   | (Inr _, w3) \<Rightarrow> (Inr (JObj u), w3)))
      | _ \<Rightarrow> (Inl TypeError, w))"

definition deleteUser :: "env \<Rightarrow> arg \<Rightarrow> world \<Rightarrow> (error + bool) \<times> world" where
  "deleteUser e i w =
     (case getUsers w of
        JArr us \<Rightarrow>
          (case findIndex (id_matches i) us of
             Inl err \<Rightarrow> (Inl err, w)
           | Inr None \<Rightarrow> (Inr False, w)
           | Inr (Some k) \<Rightarrow>
               (let deletedUser = us ! k;
                    w1 = snd (storage_set w USER_DATA (JArr (take k us @ drop (Suc k) us)))
                in case logUserAction e ''USER_DELETED'' i deletedUser w1 of
                     (Inl err, w2) \<Rightarrow> (Inl err, w2)
                   | (Inr _, w2) \<Rightarrow> (Inr True, w2)))
      | _ \<Rightarrow> (Inl TypeError, w))"

text \<open>
  \<^verbatim>\<open>getNextUserId\<close>. \<^verbatim>\<open>Math.max\<close> is followed on collections whose identifiers are
  all integers; on any other identifier it coerces or gives a counter that is no integer,
  which the model does not follow (\<open>OutsideModel\<close>), and so for a stored object whose
  \<^verbatim>\<open>length\<close> is no integer. A stored value that is not an array has no
  \<^verbatim>\<open>map\<close>: the call throws when the \<^verbatim>\<open>length\<close> is positive.
\<close>

definition number_of :: "jsval option \<Rightarrow> error + int" where
  "number_of v = (case v of Some (JNum n) \<Rightarrow> Inr n | _ \<Rightarrow> Inl OutsideModel)"

definition getNextUserId :: "world \<Rightarrow> error + int" where
  "getNextUserId w =
     (case getUsers w of
        JArr us \<Rightarrow>
          (if length us > 0 then
             (case map_err (\<lambda>u. get_prop u ''id'') us of
                Inl e \<Rightarrow> Inl e
              | Inr vs \<Rightarrow>
                  (case map_err number_of vs of
                     Inl e \<Rightarrow> Inl e
                   | Inr ns \<Rightarrow> Inr (plus_one (Max (set ns)))))
           else Inr 1)
      | JNull \<Rightarrow> Inl TypeError
      | JStr s \<Rightarrow> (if s = [] then Inr 1 else Inl TypeError)
      | JObj ob \<Rightarrow>
          (case obj_get ob ''length'' of
             None \<Rightarrow> Inr 1
           | Some (JNum n) \<Rightarrow> (if n > 0 then Inl TypeError else Inr 1)
           | Some v \<Rightarrow> Inl OutsideModel)
      | _ \<Rightarrow> Inr 1)"

text \<open>
  The constructor of the repository: the storage is initialised, then the counter is
  computed once from the stored collection.
\<close>

definition UserStorage :: "world \<Rightarrow> error + world" where
  "UserStorage w =
     (let w1 = initializeStorage w in
      case getNextUserId w1 of Inl e \<Rightarrow> Inl e | Inr n \<Rightarrow> Inr (w1\<lparr>nextId := n\<rparr>))"

section \<open>Text of a value and dates read from values\<close>

fun join_with :: "string \<Rightarrow> string list \<Rightarrow> string" where
  "join_with sep [] = []"
| "join_with sep [x] = x"
| "join_with sep (x # y # ys) = x @ sep @ join_with sep (y # ys)"

text \<open>
  The text of a number: the decimal digits of an integer of magnitude below \<open>10^21\<close>,
  and what the host prints for the others.
\<close>

definition int_text :: "env \<Rightarrow> int \<Rightarrow> string" where
  "int_text e n =
     (if \<bar>n\<bar> < 10 ^ 21 then (if n < 0 then CHR ''-'' # digits (- n) else digits n)
      else numberToString e (of_int n))"

definition number_text :: "env \<Rightarrow> number \<Rightarrow> string" where
  "number_text e x =
     (case x of
        Finite q \<Rightarrow> numberToString e q
      | NegativeZero \<Rightarrow> ''0''
      | PositiveInfinity \<Rightarrow> ''Infinity''
      | NegativeInfinity \<Rightarrow> ''-Infinity''
      | NotANumber \<Rightarrow> ''NaN'')"

text \<open>
  \<^verbatim>\<open>String(v)\<close>. An array is the texts of its elements joined by commas, with the
  empty text for \<^verbatim>\<open>null\<close>; an object is \<^verbatim>\<open>[object Object]\<close>. The conversion of
  an object calls its \<^verbatim>\<open>toString\<close>: when the object has a property of that name, its
  value is no function, \<^verbatim>\<open>valueOf\<close> gives no primitive either, and the conversion
  throws. So a value has a text when no object reached through its arrays has such a
  property.
\<close>

fun printable :: "jsval \<Rightarrow> bool" where
  "printable (JArr xs) = (\<forall>x\<in>set xs. printable x)"
| "printable (JObj ob) = (''toString'' \<notin> fst ` set ob)"
| "printable v = True"

fun text_of :: "env \<Rightarrow> jsval \<Rightarrow> string" where
  "text_of e JNull = ''null''"
| "text_of e (JBool b) = (if b then ''true'' else ''false'')"
| "text_of e (JNum n) = int_text e n"
| "text_of e (JReal x) = number_text e x"
| "text_of e (JStr s) = s"
| "text_of e (JArr xs) = join_with '','' (map (\<lambda>x. if x = JNull then [] else text_of e x) xs)"
| "text_of e (JObj ob) = ''[object Object]''"

definition js_string :: "env \<Rightarrow> jsval \<Rightarrow> error + string" where
  "js_string e v = (if printable v then Inr (text_of e v) else Inl TypeError)"

text \<open>
  \<^verbatim>\<open>JSON.stringify(v, null, 2)\<close>: a string between double quotes with the quote, the
  backslash and the control characters escaped; an array or object with one member per
  line, indented by two more spaces than its bracket.
\<close>

definition hex_char :: "nat \<Rightarrow> char" where
  "hex_char n = ''0123456789abcdef'' ! n"

definition json_escape :: "char \<Rightarrow> string" where
  "json_escape c =
     (if c = CHR 0x22 then [CHR 0x5C, CHR 0x22]
      else if c = CHR 0x5C then [CHR 0x5C, CHR 0x5C]
      else if c = CHR 0x08 then [CHR 0x5C, CHR ''b'']
      else if c = CHR 0x09 then [CHR 0x5C, CHR ''t'']
      else if c = CHR 0x0A then [CHR 0x5C, CHR ''n'']
      else if c = CHR 0x0C then [CHR 0x5C, CHR ''f'']
      else if c = CHR 0x0D then [CHR 0x5C, CHR ''r'']
      else if (of_char c :: nat) < 32 then
        [CHR 0x5C, CHR ''u'', CHR ''0'', CHR ''0'',
         hex_char ((of_char c :: nat) div 16), hex_char ((of_char c :: nat) mod 16)]
      else [c])"

definition json_quote :: "string \<Rightarrow> string" where
  "json_quote s = CHR 0x22 # concat (map json_escape s) @ [CHR 0x22]"

definition json_block :: "char \<Rightarrow> char \<Rightarrow> string \<Rightarrow> string list \<Rightarrow> string" where
  "json_block opening closing indent members =
     (if members = [] then [opening, closing]
      else [opening, CHR 0x0A] @ indent @ ''  ''
           @ join_with ('','' @ [CHR 0x0A] @ indent @ ''  '') members
           @ [CHR 0x0A] @ indent @ [closing])"

fun json_stringify :: "env \<Rightarrow> string \<Rightarrow> jsval \<Rightarrow> string" where
  "json_stringify e indent JNull = ''null''"
| "json_stringify e indent (JBool b) = (if b then ''true'' else ''false'')"
| "json_stringify e indent (JNum n) = int_text e n"
| "json_stringify e indent (JReal x) =
     (case x of Finite q \<Rightarrow> numberToString e q | NegativeZero \<Rightarrow> ''0'' | _ \<Rightarrow> ''null'')"
| "json_stringify e indent (JStr s) = json_quote s"
| "json_stringify e indent (JArr xs) =
     json_block CHR ''['' CHR '']'' indent (map (json_stringify e (indent @ ''  '')) xs)"
| "json_stringify e indent (JObj ob) =
     json_block CHR ''{'' CHR ''}'' indent
       (map (\<lambda>kv. json_quote (fst kv) @ '': '' @ snd kv)
          (own_entries (map (\<lambda>kv. (fst kv, json_stringify e (indent @ ''  '') (snd kv))) ob)))"

text \<open>The text of what a property read gives, \<^verbatim>\<open>undefined\<close> included.\<close>

definition string_of :: "env \<Rightarrow> jsval option \<Rightarrow> error + string" where
  "string_of e v = (case v of None \<Rightarrow> Inr ''undefined'' | Some x \<Rightarrow> js_string e x)"

text \<open>
  \<^verbatim>\<open>new Date(v).getTime()\<close>, \<open>None\<close> for an invalid date. A number is cut to an
  integer, a text is parsed by the host, an array or an object is turned into its text first
  (which may throw).
\<close>

definition time_clip :: "int \<Rightarrow> int option" where
  "time_clip t = (if \<bar>t\<bar> \<le> 8640000000000000 then Some t else None)"

definition truncated :: "rat \<Rightarrow> int" where
  "truncated q = (if q < 0 then - \<lfloor>- q\<rfloor> else \<lfloor>q\<rfloor>)"

fun to_time :: "env \<Rightarrow> jsval option \<Rightarrow> error + int option" where
  "to_time e None = Inr None"
| "to_time e (Some JNull) = Inr (Some 0)"
| "to_time e (Some (JBool b)) = Inr (Some (if b then 1 else 0))"
| "to_time e (Some (JNum n)) = Inr (time_clip n)"
| "to_time e (Some (JReal x)) =
     Inr (case x of Finite q \<Rightarrow> time_clip (truncated q) | NegativeZero \<Rightarrow> Some 0 | _ \<Rightarrow> None)"
| "to_time e (Some (JStr s)) = Inr (dateParse e s)"
| "to_time e (Some v) =
     (case js_string e v of Inl err \<Rightarrow> Inl err | Inr s \<Rightarrow> Inr (dateParse e s))"

text \<open>
  \<^verbatim>\<open>d.setMonth(d.getMonth() - 1)\<close> on the instant \<open>t\<close>: the same day of the month and
  time of day, in local time, one month earlier (a day that the earlier month does not have
  runs over into the next month). The instant is taken to local time with the offset in
  force at \<open>t\<close>, and the new local time back with the offset in force at it. \<open>None\<close> is
  the invalid date, beyond the range of instants.
\<close>

definition MakeDay :: "int \<Rightarrow> int \<Rightarrow> int \<Rightarrow> int" where
  "MakeDay year month date =
     days_from_civil (year + month div 12) (month mod 12 + 1) 1 + date - 1"

definition LocalTime :: "env \<Rightarrow> int \<Rightarrow> int" where
  "LocalTime e t = t + localTZA e t True"

definition UTC :: "env \<Rightarrow> int \<Rightarrow> int" where
  "UTC e t = t - localTZA e t False"

definition setMonth_back :: "env \<Rightarrow> int \<Rightarrow> int option" where
  "setMonth_back e t =
     (let lt = LocalTime e t in
      case civil_from_days (Day lt) of (y, m, d) \<Rightarrow>
        time_clip (UTC e (MakeDay y (m - 1 - 1) d * msPerDay + TimeWithinDay lt)))"

section \<open>Statistics of the repository\<close>

definition prop_is :: "string \<Rightarrow> string \<Rightarrow> jsval \<Rightarrow> error + bool" where
  "prop_is p lit u =
     (case get_prop u p of Inl err \<Rightarrow> Inl err | Inr v \<Rightarrow> Inr (strict_eq v (ArgVal (JStr lit))))"

definition count_where :: "('a \<Rightarrow> error + bool) \<Rightarrow> 'a list \<Rightarrow> error + int" where
  "count_where p xs =
     (case map_err p xs of Inl err \<Rightarrow> Inl err | Inr bs \<Rightarrow> Inr (int (length (filter id bs))))"

text \<open>
  The callback of \<^verbatim>\<open>recentRegistrations\<close> for a user: it makes a date of the
  \<^verbatim>\<open>registeredDate\<close> (which may throw), then reads the clock for itself. A comparison
  with an invalid date is false.
\<close>

definition registered_after_monthAgo :: "env \<Rightarrow> int \<Rightarrow> jsval \<Rightarrow> error + bool" where
  "registered_after_monthAgo e now u =
     (case get_prop u ''registeredDate'' of
        Inl err \<Rightarrow> Inl err
      | Inr v \<Rightarrow>
          (case to_time e v of
             Inl err \<Rightarrow> Inl err
           | Inr regDate \<Rightarrow>
               Inr (case (regDate, setMonth_back e now) of
                      (Some r, Some monthAgo) \<Rightarrow> r > monthAgo
                    | _ \<Rightarrow> False)))"

text \<open>
  The filter over the users, from the reading \<open>k\<close> of the clock on: the count, and the
  number of the next reading.
\<close>

fun recentRegistrations :: "env \<Rightarrow> nat \<Rightarrow> jsval list \<Rightarrow> (error + int) \<times> nat" where
  "recentRegistrations e k [] = (Inr 0, k)"
| "recentRegistrations e k (u # us) =
     (case registered_after_monthAgo e (clock e k) u of
        Inl err \<Rightarrow> (Inl err, k)
      | Inr b \<Rightarrow>
          (case recentRegistrations e (Suc k) us of
             (Inl err, k') \<Rightarrow> (Inl err, k')
           | (Inr n, k') \<Rightarrow> (Inr ((if b then 1 else 0) + n), k')))"

definition getUserStats :: "env \<Rightarrow> world \<Rightarrow> (error + jsval) \<times> world" where
  "getUserStats e w =
     (case getUsers w of
        JArr us \<Rightarrow>
          (case count_where (prop_is ''status'' ''active'') us of
             Inl err \<Rightarrow> (Inl err, w)
           | Inr active \<Rightarrow>
          (case count_where (prop_is ''status'' ''inactive'') us of
             Inl err \<Rightarrow> (Inl err, w)
           | Inr inactive \<Rightarrow>
          (case count_where (prop_is ''role'' ''admin'') us of
             Inl err \<Rightarrow> (Inl err, w)
           | Inr admins \<Rightarrow>
          (case count_where (prop_is ''role'' ''user'') us of
             Inl err \<Rightarrow> (Inl err, w)
           | Inr regularUsers \<Rightarrow>
          (case recentRegistrations e (ticks w) us of
             (Inl err, k) \<Rightarrow> (Inl err, w\<lparr>ticks := k\<rparr>)
           | (Inr recent, k) \<Rightarrow>
               (Inr (JObj [(''total'', JNum (int (length us))), (''active'', JNum active),
                           (''inactive'', JNum inactive), (''admins'', JNum admins),
                           (''regularUsers'', JNum regularUsers),
                           (''recentRegistrations'', JNum recent)]),
                w\<lparr>ticks := k\<rparr>))))))
      | _ \<Rightarrow> (Inl TypeError, w))"

section \<open>The session store\<close>

fun truthy_opt :: "jsval option \<Rightarrow> bool" where
  "truthy_opt None = False"
| "truthy_opt (Some v) = truthy v"

definition prop_of :: "jsval \<Rightarrow> string \<Rightarrow> jsval option" where
  "prop_of v p = (case get_prop v p of Inr x \<Rightarrow> x | Inl err \<Rightarrow> None)"

text \<open>
  \<^verbatim>\<open>setCurrentUser\<close> writes the session record and the flag record, then constructs a
  repository of its own (which initialises the storage and computes a counter that is
  dropped with it) to write \<^verbatim>\<open>lastLogin\<close> on the stored user.
\<close>

definition setCurrentUser :: "env \<Rightarrow> jsval \<Rightarrow> world \<Rightarrow> (error + unit) \<times> world" where
  "setCurrentUser e user w =
     (let loginTime = JStr (toISOString (clock e (ticks w)));
          sessionId = JStr (sessionIdAt e (ticks w + 2));
          sessionData = JObj [(''user'', user), (''loginTime'', loginTime),
                              (''lastActivity'', JStr (toISOString (clock e (ticks w + 1)))),
                              (''sessionId'', sessionId)];
          w1 = snd (storage_set (w\<lparr>ticks := ticks w + 3\<rparr>) CURRENT_USER sessionData);
          w2 = snd (storage_set w1 SESSION_DATA
                  (JObj [(''isLoggedIn'', JBool True), (''sessionStart'', loginTime),
                         (''sessionId'', sessionId)]));
          w3 = initializeStorage w2
      in case getNextUserId w3 of
           Inl err \<Rightarrow> (Inl err, w3)
         | Inr n \<Rightarrow>
             (case get_prop user ''id'' of
                Inl err \<Rightarrow> (Inl err, w3)
              | Inr i \<Rightarrow>
                  (case updateUser e (arg_of i)
                          (JObj [(''lastLogin'', JStr (toISOString (clock e (ticks w3))))])
                          (w3\<lparr>ticks := ticks w3 + 1\<rparr>) of
                     (Inl err, w4) \<Rightarrow> (Inl err, w4)
                   | (Inr r, w4) \<Rightarrow> (Inr (), w4))))"

definition getCurrentUser :: "world \<Rightarrow> jsval option" where
  "getCurrentUser w =
     (let sessionData = storage_get w CURRENT_USER JNull in
      if truthy sessionData then prop_of sessionData ''user'' else Some JNull)"

definition isLoggedIn :: "world \<Rightarrow> jsval option" where
  "isLoggedIn w =
     (let sessionData = storage_get w SESSION_DATA JNull in
      if truthy sessionData then prop_of sessionData ''isLoggedIn'' else Some sessionData)"

definition logout :: "world \<Rightarrow> world" where
  "logout w = storage_remove (storage_remove w CURRENT_USER) SESSION_DATA"

text \<open>
  The number that the comparison \<^verbatim>\<open>diffMinutes > timeoutMinutes\<close> takes for the
  argument: 30 for \<^verbatim>\<open>undefined\<close> (the default of the parameter), 0 for
  \<^verbatim>\<open>null\<close>, 0 or 1 for a boolean. A text, an array or an object is coerced, which
  the model does not follow.
\<close>

fun timeout_number :: "arg \<Rightarrow> error + number" where
  "timeout_number ArgUndefined = Inr (Finite 30)"
| "timeout_number ArgNaN = Inr NotANumber"
| "timeout_number (ArgVal JNull) = Inr (Finite 0)"
| "timeout_number (ArgVal (JBool b)) = Inr (Finite (if b then 1 else 0))"
| "timeout_number (ArgVal (JNum n)) = Inr (Finite (of_int n))"
| "timeout_number (ArgVal (JReal x)) = Inr x"
| "timeout_number (ArgVal v) = Inl OutsideModel"

text \<open>\<^verbatim>\<open>q > x\<close> for a finite number \<open>q\<close>.\<close>

fun exceeds :: "rat \<Rightarrow> number \<Rightarrow> bool" where
  "exceeds q (Finite t) = (t < q)"
| "exceeds q NegativeZero = (0 < q)"
| "exceeds q PositiveInfinity = False"
| "exceeds q NegativeInfinity = True"
| "exceeds q NotANumber = False"

text \<open>
  \<^verbatim>\<open>(now - lastActivity) / (1000 * 60)\<close>: the difference of the two instants and its
  quotient by 60000, each rounded to a binary64 number.
\<close>

definition diffMinutes :: "int \<Rightarrow> int \<Rightarrow> rat" where
  "diffMinutes now lastActivity = round_double (round_double (of_int (now - lastActivity)) / 60000)"

text \<open>
  \<^verbatim>\<open>isSessionExpired(timeoutMinutes = 30)\<close>. The date of \<^verbatim>\<open>lastActivity\<close> is
  made first (which may throw), then the clock is read. A comparison with \<^verbatim>\<open>NaN\<close>
  (an invalid date) is false.
\<close>

definition isSessionExpired :: "env \<Rightarrow> arg \<Rightarrow> world \<Rightarrow> (error + bool) \<times> world" where
  "isSessionExpired e timeoutMinutes w =
     (let currentSession = storage_get w CURRENT_USER JNull
      in if \<not> truthy currentSession then (Inr True, w)
         else
           (case to_time e (prop_of currentSession ''lastActivity'') of
              Inl err \<Rightarrow> (Inl err, w)
            | Inr lastActivity \<Rightarrow>
                (let now = clock e (ticks w);
                     w1 = w\<lparr>ticks := ticks w + 1\<rparr>
                 in case timeout_number timeoutMinutes of
                      Inl err \<Rightarrow> (Inl err, w1)
                    | Inr timeout \<Rightarrow>
                        (case lastActivity of
                           None \<Rightarrow> (Inr False, w1)
                         | Some t \<Rightarrow> (Inr (exceeds (diffMinutes now t) timeout), w1)))))"

section \<open>The backup store\<close>

fun backup_entries :: "world \<Rightarrow> string list \<Rightarrow> object \<Rightarrow> object" where
  "backup_entries w [] data = data"
| "backup_entries w (key # keys) data =
     (let d = storage_get w key JNull in
      backup_entries w keys (if d \<noteq> JNull then obj_set data key d else data))"

definition createBackup :: "env \<Rightarrow> world \<Rightarrow> jsval \<times> world" where
  "createBackup e w =
     (let backupData = JObj [(''version'', JStr ''1.0.0''),
                             (''timestamp'', JStr (toISOString (clock e (ticks w)))),
                             (''data'', JObj (backup_entries w STORAGE_KEYS []))]
      in (backupData, snd (storage_set (w\<lparr>ticks := ticks w + 1\<rparr>) BACKUP_DATA backupData)))"

fun restore_entries :: "object \<Rightarrow> world \<Rightarrow> world" where
  "restore_entries [] w = w"
| "restore_entries ((key, v) # kvs) w =
     restore_entries kvs (if key \<noteq> BACKUP_DATA then snd (storage_set w key v) else w)"

text \<open>
  \<^verbatim>\<open>restoreBackup(backupData = null)\<close>: the exception for a missing backup is caught
  inside and turned into \<^verbatim>\<open>false\<close>.
\<close>

definition restoreBackup :: "jsval \<Rightarrow> world \<Rightarrow> bool \<times> world" where
  "restoreBackup backupData w =
     (let backup = (if truthy backupData then backupData else storage_get w BACKUP_DATA JNull) in
      if truthy backup then
        (case prop_of backup ''data'' of
           None \<Rightarrow> (False, w)
         | Some data \<Rightarrow>
             (if truthy data then (True, restore_entries (entries_of data) w) else (False, w)))
      else (False, w))"

text \<open>
  A cell of the CSV, \<^verbatim>\<open>`"${String(value).replace(/"/g, '""')}"`\<close>: every double
  quote of the text is replaced by two, and the result is put between double quotes.
\<close>

fun replace_quotes :: "string \<Rightarrow> string" where
  "replace_quotes [] = []"
| "replace_quotes (c # s) =
     (if c = CHR 0x22 then CHR 0x22 # CHR 0x22 # replace_quotes s else c # replace_quotes s)"

definition quote_cell :: "string \<Rightarrow> string" where
  "quote_cell s = CHR 0x22 # replace_quotes s @ [CHR 0x22]"

text \<open>
  \<^verbatim>\<open>user[header]\<close> where the user is not an object: a name that is no index and not
  \<^verbatim>\<open>length\<close> is looked up in the prototype of a primitive, where the host may have
  more names than the language defines.
\<close>

definition get_member :: "jsval \<Rightarrow> string \<Rightarrow> error + jsval option" where
  "get_member v p =
     (case v of
        JNull \<Rightarrow> Inl TypeError
      | JObj ob \<Rightarrow> get_prop v p
      | _ \<Rightarrow> (case get_prop v p of Inr (Some x) \<Rightarrow> Inr (Some x) | _ \<Rightarrow> Inl OutsideModel))"

definition csv_row :: "env \<Rightarrow> string list \<Rightarrow> jsval \<Rightarrow> error + string" where
  "csv_row e headers user =
     (case map_err (\<lambda>header. case get_member user header of
                                Inl err \<Rightarrow> Inl err
                              | Inr v \<Rightarrow>
                                  (case string_of e v of
                                     Inl err \<Rightarrow> Inl err
                                   | Inr s \<Rightarrow> Inr (quote_cell s))) headers of
        Inl err \<Rightarrow> Inl err
      | Inr cells \<Rightarrow> Inr (join_with '','' cells))"

definition convertToCSV :: "env \<Rightarrow> jsval \<Rightarrow> error + string" where
  "convertToCSV e users =
     (case users of
        JArr [] \<Rightarrow> Inr []
      | JArr (first # others) \<Rightarrow>
          (if first = JNull then Inl TypeError
           else
             (let headers = map fst (entries_of first) in
              case map_err (csv_row e headers) (first # others) of
                Inl err \<Rightarrow> Inl err
              | Inr csvRows \<Rightarrow> Inr (join_with [CHR 0x0A] (join_with '','' headers # csvRows))))
      | JStr s \<Rightarrow> (if s = [] then Inr [] else Inl TypeError)
      | JObj ob \<Rightarrow>
          (if strict_eq (obj_get ob ''length'') (ArgVal (JNum 0)) then Inr [] else Inl TypeError)
      | _ \<Rightarrow> Inl TypeError)"

text \<open>\<^verbatim>\<open>exportData(format = 'json')\<close>; \<open>None\<close> when the call gives no format.\<close>

definition exportData :: "env \<Rightarrow> jsval option \<Rightarrow> world \<Rightarrow> (error + string) \<times> world" where
  "exportData e format w =
     (let fmt = (case format of None \<Rightarrow> JStr ''json'' | Some f \<Rightarrow> f);
          (backup, w1) = createBackup e w
      in if fmt = JStr ''json'' then (Inr (json_stringify e [] backup), w1)
         else if fmt = JStr ''csv'' then
           (case prop_of backup ''data'' of
              None \<Rightarrow> (Inl TypeError, w1)
            | Some data \<Rightarrow>
                (case prop_of data USER_DATA of
                   None \<Rightarrow> (convertToCSV e (JArr []), w1)
                 | Some users \<Rightarrow> (convertToCSV e (if truthy users then users else JArr []), w1)))
         else (Inr [], w1))"

section \<open>The mock API\<close>

text \<open>
  A response is the envelope object; a property whose value is \<^verbatim>\<open>undefined\<close> is
  left out of it. The artificial delays are not part of the model.
\<close>

fun str_includes :: "string \<Rightarrow> string \<Rightarrow> bool" where
  "str_includes [] sub = (sub = [])"
| "str_includes (c # s) sub = (take (length sub) (c # s) = sub \<or> str_includes s sub)"

definition USERS_LIST :: string where
  "USERS_LIST = ''/api/users''"

definition USERS_CREATE :: string where
  "USERS_CREATE = ''/api/users''"

definition USERS_BULK :: string where
  "USERS_BULK = ''/api/users/bulk''"

definition REPORTS_GENERATE :: string where
  "REPORTS_GENERATE = ''/api/reports/generate''"

definition REPORTS_EXPORT :: string where
  "REPORTS_EXPORT = ''/api/reports/export''"

definition REPORTS_LIST :: string where
  "REPORTS_LIST = ''/api/reports''"

definition METRICS_SYSTEM :: string where
  "METRICS_SYSTEM = ''/api/metrics/system''"

definition METRICS_USERS :: string where
  "METRICS_USERS = ''/api/metrics/users''"

definition METRICS_PERFORMANCE :: string where
  "METRICS_PERFORMANCE = ''/api/metrics/performance''"

definition SUCCESS_LOGIN :: string where
  "SUCCESS_LOGIN = ''Inicio de sesi'' @ [char_of (243::nat)] @ ''n exitoso''"

definition SUCCESS_LOGOUT :: string where
  "SUCCESS_LOGOUT = ''Sesi'' @ [char_of (243::nat)] @ ''n cerrada correctamente''"

definition SUCCESS_USER_CREATED :: string where
  "SUCCESS_USER_CREATED = ''Usuario creado exitosamente''"

definition SUCCESS_USER_UPDATED :: string where
  "SUCCESS_USER_UPDATED = ''Usuario actualizado exitosamente''"

definition SUCCESS_USER_DELETED :: string where
  "SUCCESS_USER_DELETED = ''Usuario eliminado exitosamente''"

definition SUCCESS_DATA_EXPORTED :: string where
  "SUCCESS_DATA_EXPORTED = ''Datos exportados correctamente''"

definition ERROR_LOGIN_FAILED :: string where
  "ERROR_LOGIN_FAILED = ''Credenciales incorrectas''"

definition ERROR_USER_EXISTS :: string where
  "ERROR_USER_EXISTS = ''El usuario ya existe''"

definition ERROR_USER_NOT_FOUND :: string where
  "ERROR_USER_NOT_FOUND = ''Usuario no encontrado''"

definition field :: "string \<Rightarrow> jsval option \<Rightarrow> object" where
  "field k v = (case v of None \<Rightarrow> [] | Some x \<Rightarrow> [(k, x)])"

definition envelope :: "string option \<Rightarrow> jsval option \<Rightarrow> jsval" where
  "envelope message data =
     JObj ([(''success'', JBool True)] @ field ''message'' (map_option JStr message) @ field ''data'' data)"

text \<open>
  \<^verbatim>\<open>parseInt\<close> of a text of decimal digits: the number they write, rounded to a
  binary64 number. (Beyond 20 digits the language lets the host approximate, which the
  model does not follow.)
\<close>

definition parseInt_digits :: "string \<Rightarrow> error + int" where
  "parseInt_digits s =
     (if length s \<le> 20 then Inr \<lfloor>round_double (of_int (number_of_digits s))\<rfloor>
      else Inl OutsideModel)"

text \<open>
  \<^verbatim>\<open>extractIdFromEndpoint\<close>: the first slash followed by digits up to a slash or the
  end of the path; \<open>None\<close> is \<^verbatim>\<open>null\<close>.
\<close>

fun extractIdFromEndpoint :: "string \<Rightarrow> error + int option" where
  "extractIdFromEndpoint [] = Inr None"
| "extractIdFromEndpoint (c # s) =
     (if c = CHR ''/'' \<and> takeWhile is_digit s \<noteq> []
         \<and> (dropWhile is_digit s = [] \<or> hd (dropWhile is_digit s) = CHR ''/'')
      then (case parseInt_digits (takeWhile is_digit s) of
              Inl err \<Rightarrow> Inl err
            | Inr n \<Rightarrow> Inr (Some n))
      else extractIdFromEndpoint s)"

text \<open>
  \<^verbatim>\<open>parseInt(id)\<close> on what \<^verbatim>\<open>extractIdFromEndpoint\<close> gave: the number is turned
  into text and read again, which gives it back while it is below \<open>10^21\<close> (from there
  on its text has an exponent, and only the digits before it are read). \<^verbatim>\<open>null\<close>
  gives \<^verbatim>\<open>NaN\<close>.
\<close>

definition parseInt :: "int option \<Rightarrow> error + arg" where
  "parseInt i =
     (case i of
        None \<Rightarrow> Inr ArgNaN
      | Some n \<Rightarrow> (if n < 10 ^ 21 then Inr (ArgVal (JNum n)) else Inl OutsideModel))"

definition API_login :: "env \<Rightarrow> jsval \<Rightarrow> world \<Rightarrow> (error + jsval) \<times> world" where
  "API_login e credentials w =
     (case get_prop credentials ''email'' of
        Inl err \<Rightarrow> (Inl err, w)
      | Inr email \<Rightarrow>
          (let password = prop_of credentials ''password'' in
           if strict_eq email (ArgVal (JStr ''admin@demo.com''))
              \<and> strict_eq password (ArgVal (JStr ''demo123'')) then
             (let user = JObj [(''id'', JNum 0), (''name'', JStr ''Administrador Demo''),
                               (''email'', JStr ''admin@demo.com''), (''role'', JStr ''admin''),
                               (''status'', JStr ''active'')]
              in case setCurrentUser e user w of
                   (Inl err, w1) \<Rightarrow> (Inl err, w1)
                 | (Inr _, w1) \<Rightarrow>
                     (Inr (envelope (Some SUCCESS_LOGIN)
                        (Some (JObj [(''user'', user),
                                     (''token'', JStr (''demo_token_'' @ int_text e (clock e (ticks w1)))),
                                     (''expiresIn'', JNum (30 * 60))]))),
                      w1\<lparr>ticks := ticks w1 + 1\<rparr>))
           else
             (case getUserByEmail w email of
                Inl err \<Rightarrow> (Inl err, w)
              | Inr user \<Rightarrow>
                  (if truthy user \<and> strict_eq (prop_of user ''status'') (ArgVal (JStr ''active'')) then
                     (case setCurrentUser e user w of
                        (Inl err, w1) \<Rightarrow> (Inl err, w1)
                      | (Inr _, w1) \<Rightarrow>
                          (Inr (envelope (Some SUCCESS_LOGIN)
                             (Some (JObj [(''user'', user),
                                          (''token'', JStr (''user_token_'' @ int_text e (clock e (ticks w1)))),
                                          (''expiresIn'', JNum (30 * 60))]))),
                           w1\<lparr>ticks := ticks w1 + 1\<rparr>))
                   else (Inl (APIError ERROR_LOGIN_FAILED 401), w)))))"

definition API_logout :: "world \<Rightarrow> (error + jsval) \<times> world" where
  "API_logout w = (Inr (envelope (Some SUCCESS_LOGOUT) None), logout w)"

definition API_register :: "env \<Rightarrow> jsval \<Rightarrow> world \<Rightarrow> (error + jsval) \<times> world" where
  "API_register e userData w =
     (case get_prop userData ''email'' of
        Inl err \<Rightarrow> (Inl err, w)
      | Inr email \<Rightarrow>
          (case getUserByEmail w email of
             Inl err \<Rightarrow> (Inl err, w)
           | Inr existing \<Rightarrow>
               (if truthy existing then (Inl (APIError ERROR_USER_EXISTS 409), w)
                else
                  (case createUser e (JObj (obj_set (spread [] userData) ''status'' (JStr ''active''))) w of
                     (Inl err, w1) \<Rightarrow> (Inl err, w1)
                   | (Inr created, w1) \<Rightarrow>
                       (Inr (envelope (Some SUCCESS_USER_CREATED) (Some (JObj [(''user'', created)]))),
                        w1)))))"

definition API_getUsers :: "world \<Rightarrow> (error + jsval) \<times> world" where
  "API_getUsers w =
     (let users = getUsers w in
      case get_prop users ''length'' of
        Inl err \<Rightarrow> (Inl err, w)
      | Inr n \<Rightarrow>
          (Inr (envelope None
             (Some (JObj ([(''users'', users)] @ field ''total'' n @ [(''page'', JNum 1)]
                          @ field ''pageSize'' n)))), w))"

definition API_createUser :: "env \<Rightarrow> jsval \<Rightarrow> world \<Rightarrow> (error + jsval) \<times> world" where
  "API_createUser e userData w =
     (case get_prop userData ''email'' of
        Inl err \<Rightarrow> (Inl err, w)
      | Inr email \<Rightarrow>
          (case getUserByEmail w email of
             Inl err \<Rightarrow> (Inl err, w)
           | Inr existing \<Rightarrow>
               (if truthy existing then (Inl (APIError ERROR_USER_EXISTS 409), w)
                else
                  (case createUser e userData w of
                     (Inl err, w1) \<Rightarrow> (Inl err, w1)
                   | (Inr created, w1) \<Rightarrow>
                       (Inr (envelope (Some SUCCESS_USER_CREATED) (Some (JObj [(''user'', created)]))),
                        w1)))))"

definition API_updateUser :: "env \<Rightarrow> int option \<Rightarrow> jsval \<Rightarrow> world \<Rightarrow> (error + jsval) \<times> world" where
  "API_updateUser e i updates w =
     (case parseInt i of
        Inl err \<Rightarrow> (Inl err, w)
      | Inr n \<Rightarrow>
          (case updateUser e n updates w of
             (Inl err, w1) \<Rightarrow> (Inl err, w1)
           | (Inr updated, w1) \<Rightarrow>
               (if \<not> truthy updated then (Inl (APIError ERROR_USER_NOT_FOUND 404), w1)
                else (Inr (envelope (Some SUCCESS_USER_UPDATED) (Some (JObj [(''user'', updated)]))),
                      w1))))"

definition API_deleteUser :: "env \<Rightarrow> int option \<Rightarrow> world \<Rightarrow> (error + jsval) \<times> world" where
  "API_deleteUser e i w =
     (case parseInt i of
        Inl err \<Rightarrow> (Inl err, w)
      | Inr n \<Rightarrow>
          (case deleteUser e n w of
             (Inl err, w1) \<Rightarrow> (Inl err, w1)
           | (Inr success, w1) \<Rightarrow>
               (if \<not> success then (Inl (APIError ERROR_USER_NOT_FOUND 404), w1)
                else (Inr (envelope (Some SUCCESS_USER_DELETED) None), w1))))"

text \<open>\<^verbatim>\<open>ids.forEach\<close> over the identifiers of a bulk operation, counting the successes.\<close>

fun deleteUsers :: "env \<Rightarrow> jsval list \<Rightarrow> world \<Rightarrow> (error + int) \<times> world" where
  "deleteUsers e [] w = (Inr 0, w)"
| "deleteUsers e (i # ids) w =
     (case deleteUser e (ArgVal i) w of
        (Inl err, w1) \<Rightarrow> (Inl err, w1)
      | (Inr deleted, w1) \<Rightarrow>
          (case deleteUsers e ids w1 of
             (Inl err, w2) \<Rightarrow> (Inl err, w2)
           | (Inr n, w2) \<Rightarrow> (Inr ((if deleted then 1 else 0) + n), w2)))"

fun updateUsers :: "env \<Rightarrow> jsval \<Rightarrow> jsval list \<Rightarrow> world \<Rightarrow> (error + int) \<times> world" where
  "updateUsers e updates [] w = (Inr 0, w)"
| "updateUsers e updates (i # ids) w =
     (case updateUser e (ArgVal i) updates w of
        (Inl err, w1) \<Rightarrow> (Inl err, w1)
      | (Inr updated, w1) \<Rightarrow>
          (case updateUsers e updates ids w1 of
             (Inl err, w2) \<Rightarrow> (Inl err, w2)
           | (Inr n, w2) \<Rightarrow> (Inr ((if truthy updated then 1 else 0) + n), w2)))"

definition counted :: "env \<Rightarrow> int \<Rightarrow> string \<Rightarrow> string \<Rightarrow> jsval" where
  "counted e n what key =
     envelope (Some (int_text e n @ '' usuarios '' @ what)) (Some (JObj [(key, JNum n)]))"

definition API_bulkUserOperation :: "env \<Rightarrow> jsval \<Rightarrow> world \<Rightarrow> (error + jsval) \<times> world" where
  "API_bulkUserOperation e data w =
     (case get_prop data ''operation'' of
        Inl err \<Rightarrow> (Inl err, w)
      | Inr operation \<Rightarrow>
          (let userIds = prop_of data ''userIds'' in
           if strict_eq operation (ArgVal (JStr ''delete'')) then
             (case userIds of
                Some (JArr ids) \<Rightarrow>
                  (case deleteUsers e ids w of
                     (Inl err, w1) \<Rightarrow> (Inl err, w1)
                   | (Inr n, w1) \<Rightarrow> (Inr (counted e n ''eliminados'' ''deletedCount''), w1))
              | _ \<Rightarrow> (Inl TypeError, w))
           else if strict_eq operation (ArgVal (JStr ''activate'')) then
             (case userIds of
                Some (JArr ids) \<Rightarrow>
                  (case updateUsers e (JObj [(''status'', JStr ''active'')]) ids w of
                     (Inl err, w1) \<Rightarrow> (Inl err, w1)
                   | (Inr n, w1) \<Rightarrow> (Inr (counted e n ''activados'' ''activatedCount''), w1))
              | _ \<Rightarrow> (Inl TypeError, w))
           else if strict_eq operation (ArgVal (JStr ''deactivate'')) then
             (case userIds of
                Some (JArr ids) \<Rightarrow>
                  (case updateUsers e (JObj [(''status'', JStr ''inactive'')]) ids w of
                     (Inl err, w1) \<Rightarrow> (Inl err, w1)
                   | (Inr n, w1) \<Rightarrow> (Inr (counted e n ''desactivados'' ''deactivatedCount''), w1))
              | _ \<Rightarrow> (Inl TypeError, w))
           else (Inl (APIError (''Operaci'' @ [char_of (243::nat)] @ ''n no v'' @ [char_of (225::nat)] @ ''lida'') 400), w)))"

definition API_generateReport :: "env \<Rightarrow> jsval \<Rightarrow> world \<Rightarrow> (error + jsval) \<times> world" where
  "API_generateReport e data w =
     (case get_prop data ''type'' of
        Inl err \<Rightarrow> (Inl err, w)
      | Inr reportType \<Rightarrow>
          (let reportData =
                 JObj ([(''id'', JNum (clock e (ticks w)))] @ field ''type'' reportType
                       @ field ''format'' (prop_of data ''format'')
                       @ field ''filters'' (prop_of data ''filters'')
                       @ [(''generatedAt'', JStr (toISOString (clock e (ticks w + 1)))),
                          (''size'', synthetic e (ticks w) ''size'')])
           in (Inr (envelope (Some SUCCESS_DATA_EXPORTED) (Some (JObj [(''report'', reportData)]))),
               w\<lparr>ticks := ticks w + 2\<rparr>)))"

text \<open>
  \<^verbatim>\<open>searchUsers('', filters)\<close>: each filter with a truthy value keeps the users whose
  property is strictly equal to it.
\<close>

fun filter_err :: "('a \<Rightarrow> error + bool) \<Rightarrow> 'a list \<Rightarrow> error + 'a list" where
  "filter_err p [] = Inr []"
| "filter_err p (x # xs) =
     (case p x of
        Inl err \<Rightarrow> Inl err
      | Inr b \<Rightarrow> (case filter_err p xs of
                    Inl err \<Rightarrow> Inl err
                  | Inr ys \<Rightarrow> Inr (if b then x # ys else ys)))"

fun apply_filters :: "object \<Rightarrow> jsval \<Rightarrow> error + jsval" where
  "apply_filters [] users = Inr users"
| "apply_filters ((key, v) # filters) users =
     (if truthy v then
        (case users of
           JArr us \<Rightarrow>
             (case filter_err (\<lambda>user. case get_prop user key of
                                         Inl err \<Rightarrow> Inl err
                                       | Inr x \<Rightarrow> Inr (strict_eq x (ArgVal v))) us of
                Inl err \<Rightarrow> Inl err
              | Inr kept \<Rightarrow> apply_filters filters (JArr kept))
         | _ \<Rightarrow> Inl TypeError)
      else apply_filters filters users)"

definition searchUsers_all :: "world \<Rightarrow> jsval \<Rightarrow> error + jsval" where
  "searchUsers_all w filters = apply_filters (entries_of filters) (getUsers w)"

definition API_exportData :: "env \<Rightarrow> jsval \<Rightarrow> world \<Rightarrow> (error + jsval) \<times> world" where
  "API_exportData e data w =
     (case get_prop data ''format'' of
        Inl err \<Rightarrow> (Inl err, w)
      | Inr format \<Rightarrow>
          (let filters = prop_of data ''filters'' in
           case (case filters of
                   None \<Rightarrow> Inr (getUsers w)
                 | Some f \<Rightarrow> (if truthy f then searchUsers_all w f else Inr (getUsers w))) of
             Inl err \<Rightarrow> (Inl err, w)
           | Inr users \<Rightarrow>
               (case get_prop users ''length'' of
                  Inl err \<Rightarrow> (Inl err, w)
                | Inr n \<Rightarrow>
                    (Inr (envelope (Some SUCCESS_DATA_EXPORTED)
                       (Some (JObj (field ''format'' format @ field ''recordCount'' n
                                    @ [(''generatedAt'', JStr (toISOString (clock e (ticks w)))),
                                       (''data'', users)])))),
                     w\<lparr>ticks := ticks w + 1\<rparr>))))"

definition API_getReports :: "world \<Rightarrow> (error + jsval) \<times> world" where
  "API_getReports w =
     (Inr (envelope None (Some (JObj [(''reports'', JArr
        [JObj [(''id'', JNum 1), (''name'', JStr ''Reporte de Usuarios''), (''type'', JStr ''users''),
               (''format'', JStr ''pdf''), (''generatedAt'', JStr ''2024-03-15T10:30:00Z''),
               (''size'', JStr ''245 KB'')],
         JObj [(''id'', JNum 2), (''name'', JStr ''Reporte de Actividad''), (''type'', JStr ''activity''),
               (''format'', JStr ''csv''), (''generatedAt'', JStr ''2024-03-14T15:45:00Z''),
               (''size'', JStr ''156 KB'')]])]))), w)"

definition API_getSystemMetrics :: "env \<Rightarrow> world \<Rightarrow> (error + jsval) \<times> world" where
  "API_getSystemMetrics e w =
     (case getUserStats e w of
        (Inl err, w1) \<Rightarrow> (Inl err, w1)
      | (Inr stats, w1) \<Rightarrow>
          (Inr (envelope None (Some (JObj
             ([(''uptime'', synthetic e (ticks w1) ''uptime''),
               (''responseTime'', synthetic e (ticks w1) ''responseTime'')]
              @ field ''activeUsers'' (prop_of stats ''active'')
              @ field ''totalUsers'' (prop_of stats ''total'')
              @ [(''memoryUsage'', synthetic e (ticks w1) ''memoryUsage''),
                 (''cpuUsage'', synthetic e (ticks w1) ''cpuUsage'')])))), w1))"

definition API_getUserMetrics :: "env \<Rightarrow> world \<Rightarrow> (error + jsval) \<times> world" where
  "API_getUserMetrics e w =
     (case getUserStats e w of
        (Inl err, w1) \<Rightarrow> (Inl err, w1)
      | (Inr stats, w1) \<Rightarrow>
          (Inr (envelope None (Some (JObj
             (obj_set (obj_set (obj_set (spread [] stats)
                ''growthRate'' (synthetic e (ticks w1) ''growthRate''))
                ''retention'' (synthetic e (ticks w1) ''retention''))
                ''satisfaction'' (synthetic e (ticks w1) ''satisfaction''))))), w1))"

definition API_getPerformanceMetrics :: "env \<Rightarrow> world \<Rightarrow> (error + jsval) \<times> world" where
  "API_getPerformanceMetrics e w =
     (Inr (envelope None (Some (JObj
        [(''loadTime'', synthetic e (ticks w) ''loadTime''),
         (''renderTime'', synthetic e (ticks w) ''renderTime''),
         (''networkTime'', synthetic e (ticks w) ''networkTime''),
         (''cacheHitRate'', synthetic e (ticks w) ''cacheHitRate''),
         (''errorRate'', synthetic e (ticks w) ''errorRate'')]))), w)"

definition handleAuthRequest :: "env \<Rightarrow> string \<Rightarrow> string \<Rightarrow> jsval \<Rightarrow> world \<Rightarrow> (error + jsval) \<times> world" where
  "handleAuthRequest e method endpoint data w =
     (if str_includes endpoint ''/login'' then API_login e data w
      else if str_includes endpoint ''/logout'' then API_logout w
      else if str_includes endpoint ''/register'' then API_register e data w
      else (Inl (APIError ''Auth endpoint not found'' 404), w))"

definition handleUsersRequest :: "env \<Rightarrow> string \<Rightarrow> string \<Rightarrow> jsval \<Rightarrow> world \<Rightarrow> (error + jsval) \<times> world" where
  "handleUsersRequest e method endpoint data w =
     (if \<not> truthy_opt (isLoggedIn w) then (Inl (APIError ''Unauthorized'' 401), w)
      else if method = ''GET'' \<and> endpoint = USERS_LIST then API_getUsers w
      else if method = ''POST'' \<and> endpoint = USERS_CREATE then API_createUser e data w
      else if method = ''PUT'' \<and> str_includes endpoint ''/users/'' then
        (case extractIdFromEndpoint endpoint of
           Inl err \<Rightarrow> (Inl err, w)
         | Inr i \<Rightarrow> API_updateUser e i data w)
      else if method = ''DELETE'' \<and> str_includes endpoint ''/users/'' then
        (case extractIdFromEndpoint endpoint of
           Inl err \<Rightarrow> (Inl err, w)
         | Inr i \<Rightarrow> API_deleteUser e i w)
      else if method = ''POST'' \<and> endpoint = USERS_BULK then API_bulkUserOperation e data w
      else (Inl (APIError ''Users endpoint not found'' 404), w))"

definition handleReportsRequest :: "env \<Rightarrow> string \<Rightarrow> string \<Rightarrow> jsval \<Rightarrow> world \<Rightarrow> (error + jsval) \<times> world" where
  "handleReportsRequest e method endpoint data w =
     (if \<not> truthy_opt (isLoggedIn w) then (Inl (APIError ''Unauthorized'' 401), w)
      else if method = ''POST'' \<and> endpoint = REPORTS_GENERATE then API_generateReport e data w
      else if method = ''POST'' \<and> endpoint = REPORTS_EXPORT then API_exportData e data w
      else if method = ''GET'' \<and> endpoint = REPORTS_LIST then API_getReports w
      else (Inl (APIError ''Reports endpoint not found'' 404), w))"

definition handleMetricsRequest :: "env \<Rightarrow> string \<Rightarrow> string \<Rightarrow> jsval \<Rightarrow> world \<Rightarrow> (error + jsval) \<times> world" where
  "handleMetricsRequest e method endpoint data w =
     (if \<not> truthy_opt (isLoggedIn w) then (Inl (APIError ''Unauthorized'' 401), w)
      else if endpoint = METRICS_SYSTEM then API_getSystemMetrics e w
      else if endpoint = METRICS_USERS then API_getUserMetrics e w
      else if endpoint = METRICS_PERFORMANCE then API_getPerformanceMetrics e w
      else (Inl (APIError ''Metrics endpoint not found'' 404), w))"

definition processRequest :: "env \<Rightarrow> string \<Rightarrow> string \<Rightarrow> jsval \<Rightarrow> world \<Rightarrow> (error + jsval) \<times> world" where
  "processRequest e method endpoint data w =
     (if str_includes endpoint ''/auth/'' then handleAuthRequest e method endpoint data w
      else if str_includes endpoint ''/users'' then handleUsersRequest e method endpoint data w
      else if str_includes endpoint ''/reports'' then handleReportsRequest e method endpoint data w
      else if str_includes endpoint ''/metrics'' then handleMetricsRequest e method endpoint data w
      else (Inl (APIError ''Endpoint not found'' 404), w))"

section \<open>Notions used by the properties\<close>

text \<open>
  The notions below are not code of the program: they state what the properties are
  about. The log after an entry is added: the log with the entry at its end, less the
  oldest entries beyond 1000.
\<close>

definition with_entry :: "jsval list \<Rightarrow> jsval \<Rightarrow> jsval list" where
  "with_entry ls x = drop (Suc (length ls) - 1000) (ls @ [x])"

text \<open>The medium takes every write under a key of the program.\<close>

definition accepts_key :: "world \<Rightarrow> string \<Rightarrow> bool" where
  "accepts_key w key = (\<forall>s v. accepts w s (storage_prefix @ key) v)"

text \<open>
  The identifier of a user record, and "one more than the maximum id present in the
  collection, or 1 if the collection is empty".
\<close>

definition has_numeric_id :: "jsval \<Rightarrow> bool" where
  "has_numeric_id u =
     (case u of
        JObj ob \<Rightarrow> (case obj_get ob ''id'' of Some (JNum n) \<Rightarrow> True | _ \<Rightarrow> False)
      | _ \<Rightarrow> False)"

definition id_of :: "jsval \<Rightarrow> int" where
  "id_of u =
     (case u of
        JObj ob \<Rightarrow> (case obj_get ob ''id'' of Some (JNum n) \<Rightarrow> n | _ \<Rightarrow> 0)
      | _ \<Rightarrow> 0)"

definition one_more_than_max_id :: "jsval list \<Rightarrow> int" where
  "one_more_than_max_id us = (if us = [] then 1 else Max (set (map id_of us)) + 1)"

text \<open>
  A sequence of \<^verbatim>\<open>createUser\<close> calls, one for each data of the list: for each call the
  collection it found and what it returned. A call is as the properties want it when the
  identifier it returns is one more than the maximum of the collection it found.
\<close>

definition returned_id :: "error + jsval \<Rightarrow> int option" where
  "returned_id r =
     (case r of
        Inr (JObj ob) \<Rightarrow> (case obj_get ob ''id'' of Some (JNum n) \<Rightarrow> Some n | _ \<Rightarrow> None)
      | _ \<Rightarrow> None)"

fun createUser_calls :: "env \<Rightarrow> jsval list \<Rightarrow> world \<Rightarrow> (jsval \<times> (error + jsval)) list" where
  "createUser_calls e [] w = []"
| "createUser_calls e (d # ds) w =
     (getUsers w, fst (createUser e d w)) # createUser_calls e ds (snd (createUser e d w))"

definition call_ok :: "jsval \<times> (error + jsval) \<Rightarrow> bool" where
  "call_ok c =
     (case fst c of
        JArr us \<Rightarrow> returned_id (snd c) = Some (one_more_than_max_id us)
      | _ \<Rightarrow> False)"






text \<open>The lines of a text: one more than its newline characters.\<close>

definition newlines :: "string \<Rightarrow> nat" where
  "newlines s = length (filter (\<lambda>c. c = CHR 0x0A) s)"


text \<open>
  "The users whose registeredDate falls within the trailing 30 days of wall-clock time",
  in the words of the specification: the date is not later than now and not earlier than
  30 days before now.
\<close>

definition within_trailing_30_days :: "int \<Rightarrow> int \<Rightarrow> bool" where
  "within_trailing_30_days now t = (now - 30 * msPerDay \<le> t \<and> t \<le> now)"

definition registered_within_trailing_30_days :: "env \<Rightarrow> int \<Rightarrow> jsval list \<Rightarrow> int" where
  "registered_within_trailing_30_days e now us =
     int (length (filter (\<lambda>u. case to_time e (prop_of u ''registeredDate'') of
                                 Inr (Some t) \<Rightarrow> within_trailing_30_days now t
                               | _ \<Rightarrow> False) us))"

text \<open>
  The count that \<^verbatim>\<open>recentRegistrations\<close> makes: the user at place \<open>j\<close> is counted when
  its \<^verbatim>\<open>registeredDate\<close> is a date later than the date one month before the reading
  \<open>k + j\<close> of the clock.
\<close>

definition later_than_a_month_ago :: "env \<Rightarrow> nat \<Rightarrow> jsval list \<Rightarrow> nat \<Rightarrow> bool" where
  "later_than_a_month_ago e k us j =
     (case (to_time e (prop_of (us ! j) ''registeredDate''), setMonth_back e (clock e (k + j))) of
        (Inr (Some regDate), Some monthAgo) \<Rightarrow> regDate > monthAgo
      | _ \<Rightarrow> False)"

text \<open>
  A user record whose \<^verbatim>\<open>registeredDate\<close>, when it has one, has a text (so that a date
  can be made of it without a throw).
\<close>

definition record_with_readable_date :: "jsval \<Rightarrow> bool" where
  "record_with_readable_date u =
     (case u of
        JObj ob \<Rightarrow> (case obj_get ob ''registeredDate'' of Some v \<Rightarrow> printable v | None \<Rightarrow> True)
      | _ \<Rightarrow> False)"

section \<open>Sample environment\<close>

text \<open>
  The environments and the worlds at which the theorems are instantiated. The medium
  takes every write but where a world says otherwise.
\<close>

text \<open>
  A host whose \<^verbatim>\<open>Date.parse\<close> reads the two forms this program writes, a date
  \<^verbatim>\<open>YYYY-MM-DD\<close> and an instant \<^verbatim>\<open>YYYY-MM-DDTHH:mm:ss[.sss]Z\<close>, both in UTC.
\<close>

definition two_digits :: "string \<Rightarrow> nat \<Rightarrow> int option" where
  "two_digits s k =
     (if k + 2 \<le> length s \<and> is_digit (s ! k) \<and> is_digit (s ! (k + 1))
      then Some (10 * digit_val (s ! k) + digit_val (s ! (k + 1))) else None)"

definition iso_date :: "string \<Rightarrow> int option" where
  "iso_date s =
     (if length s = 10 \<and> list_all is_digit (take 4 s) \<and> s ! 4 = CHR ''-'' \<and> s ! 7 = CHR ''-'' then
        (case (two_digits s 5, two_digits s 8) of
           (Some m, Some d) \<Rightarrow>
             (if 1 \<le> m \<and> m \<le> 12 \<and> 1 \<le> d \<and> d \<le> 31
              then Some (days_from_civil (number_of_digits (take 4 s)) m d * msPerDay) else None)
         | _ \<Rightarrow> None)
      else None)"

definition iso_time :: "string \<Rightarrow> int option" where
  "iso_time s =
     (if (length s = 10 \<or> length s = 14) \<and> s ! 0 = CHR ''T'' \<and> s ! 3 = CHR '':'' \<and> s ! 6 = CHR '':''
         \<and> last s = CHR ''Z''
         \<and> (length s = 14 \<longrightarrow> s ! 9 = CHR ''.'' \<and> list_all is_digit (take 3 (drop 10 s))) then
        (case (two_digits s 1, two_digits s 4, two_digits s 7) of
           (Some h, Some m, Some sec) \<Rightarrow>
             (if h \<le> 23 \<and> m \<le> 59 \<and> sec \<le> 59
              then Some (h * 3600000 + m * 60000 + sec * 1000
                         + (if length s = 14 then number_of_digits (take 3 (drop 10 s)) else 0))
              else None)
         | _ \<Rightarrow> None)
      else None)"

definition iso_parse :: "string \<Rightarrow> int option" where
  "iso_parse s =
     (case iso_date (take 10 s) of
        None \<Rightarrow> None
      | Some day \<Rightarrow>
          (if length s = 10 then Some day
           else (case iso_time (drop 10 s) of None \<Rightarrow> None | Some ms \<Rightarrow> Some (day + ms))))"

text \<open>
  A host that prints a number with the digits of its whole part and, after a point, those
  of its fraction (at most twenty): the shortest decimal form of the fractions that occur
  in the samples.
\<close>

fun fraction_digits :: "nat \<Rightarrow> rat \<Rightarrow> string" where
  "fraction_digits 0 q = []"
| "fraction_digits (Suc n) q =
     (if q = 0 then [] else digit_char \<lfloor>10 * q\<rfloor> # fraction_digits n (10 * q - of_int \<lfloor>10 * q\<rfloor>))"

definition plain_decimal :: "rat \<Rightarrow> string" where
  "plain_decimal q =
     (let a = \<bar>q\<bar>; whole = \<lfloor>a\<rfloor>; rest = fraction_digits 20 (a - of_int whole)
      in (if q < 0 then ''-'' else []) @ digits whole @ (if rest = [] then [] else ''.'' @ rest))"

text \<open>A host in UTC, and one in New York under the rules of the year 2023.\<close>

definition new_york_2023 :: "int \<Rightarrow> bool \<Rightarrow> int" where
  "new_york_2023 t isUTC =
     (if isUTC then (if 1678604400000 \<le> t \<and> t < 1699164000000 then - 14400000 else - 18000000)
      else (if 1678590000000 \<le> t \<and> t < 1699149600000 then - 14400000 else - 18000000))"

definition sample_env :: env where
  "sample_env =
     \<lparr>clock = (\<lambda>n. 1700000000000 + int n),
      entryId = (\<lambda>n. JReal (Finite (3400000000001 / 2))),
      sessionIdAt = (\<lambda>n. ''lozgfoxsk3j9x2''), synthetic = (\<lambda>n f. JNum 42),
      userAgent = ''Mozilla/5.0'', dateParse = iso_parse, localTZA = (\<lambda>t isUTC. 0),
      numberToString = plain_decimal\<rparr>"

definition empty_world :: world where
  "empty_world =
     \<lparr>items = [storage_prefix @ USER_DATA \<mapsto> JArr []], accepts = (\<lambda>s k v. True),
      nextId = 1, ticks = 0\<rparr>"

definition stored_world :: world where
  "stored_world =
     \<lparr>items = [storage_prefix @ USER_DATA \<mapsto>
                 JArr [JObj [(''id'', JNum 3), (''name'', JStr ''Ana''), (''email'', JStr ''ana@demo.com''),
                             (''status'', JStr ''active''),
                             (''createdAt'', JStr ''2023-01-01T00:00:00.000Z''),
                             (''updatedAt'', JStr ''2023-01-01T00:00:00.000Z'')],
                       JObj [(''id'', JNum 7), (''name'', JStr ''Luis''), (''email'', JStr ''luis@demo.com''),
                             (''status'', JStr ''inactive'')]]],
      accepts = (\<lambda>s k v. True), nextId = 8, ticks = 0\<rparr>"

definition full_log_world :: world where
  "full_log_world =
     \<lparr>items = [storage_prefix @ USER_DATA \<mapsto>
                 JArr [JObj [(''id'', JNum 3), (''name'', JStr ''Ana'')],
                       JObj [(''id'', JNum 7), (''name'', JStr ''Luis'')]],
               storage_prefix @ LOGS_DATA \<mapsto> JArr (replicate 1000 JNull)],
      accepts = (\<lambda>s k v. True), nextId = 8, ticks = 0\<rparr>"

definition session_world :: world where
  "session_world =
     \<lparr>items = [storage_prefix @ CURRENT_USER \<mapsto>
                 JObj [(''user'', JObj [(''id'', JNum 3), (''name'', JStr ''Ana'')]),
                       (''loginTime'', JStr ''2023-11-14T22:13:20.000Z''),
                       (''lastActivity'', JStr ''2023-11-14T22:13:20.000Z''),
                       (''sessionId'', JStr ''lozgfoxsk3j9x2'')]],
      accepts = (\<lambda>s k v. True), nextId = 8, ticks = 0\<rparr>"

definition later_env :: env where
  "later_env = sample_env\<lparr>clock := (\<lambda>n. 1700001800000 + int n)\<rparr>"


definition march_env :: env where
  "march_env = sample_env\<lparr>clock := (\<lambda>n. 1680264000000)\<rparr>"

definition march_world :: world where
  "march_world =
     \<lparr>items = [storage_prefix @ USER_DATA \<mapsto>
                 JArr [JObj [(''id'', JNum 1), (''name'', JStr ''Ana''), (''status'', JStr ''active''),
                             (''role'', JStr ''user''), (''registeredDate'', JStr ''2023-03-03'')]]],
      accepts = (\<lambda>s k v. True), nextId = 2, ticks = 0\<rparr>"

definition future_world :: world where
  "future_world =
     \<lparr>items = [storage_prefix @ USER_DATA \<mapsto>
                 JArr [JObj [(''id'', JNum 1), (''name'', JStr ''Ana''), (''status'', JStr ''active''),
                             (''role'', JStr ''user''), (''registeredDate'', JStr ''2023-12-24'')]]],
      accepts = (\<lambda>s k v. True), nextId = 2, ticks = 0\<rparr>"

definition new_york_env :: env where
  "new_york_env = march_env\<lparr>localTZA := new_york_2023\<rparr>"

text \<open>A log of 1500 entries on a medium that refuses to write the log.\<close>

definition refusing_world :: world where
  "refusing_world =
     \<lparr>items = [storage_prefix @ USER_DATA \<mapsto>
                 JArr [JObj [(''id'', JNum 3), (''name'', JStr ''Ana'')],
                       JObj [(''id'', JNum 7), (''name'', JStr ''Luis'')]],
               storage_prefix @ LOGS_DATA \<mapsto> JArr (replicate 1500 JNull)],
      accepts = (\<lambda>s k v. k \<noteq> storage_prefix @ LOGS_DATA), nextId = 8, ticks = 0\<rparr>"

text \<open>A stored user with a number that the text \<^verbatim>\<open>1e999\<close> decodes to.\<close>

definition infinity_world :: world where
  "infinity_world =
     \<lparr>items = [storage_prefix @ USER_DATA \<mapsto>
                 JArr [JObj [(''id'', JNum 1), (''name'', JStr ''Ana''),
                             (''score'', JReal PositiveInfinity)]]],
      accepts = (\<lambda>s k v. True), nextId = 2, ticks = 0\<rparr>"

text \<open>
  A session whose last activity is the instant \<open>-8292674416640001\<close>, read at the instant
  \<open>8200000000000000\<close>: \<open>2^38 * 60000 + 1\<close> milliseconds later.
\<close>

definition old_session_world :: world where
  "old_session_world =
     \<lparr>items = [storage_prefix @ CURRENT_USER \<mapsto>
                 JObj [(''user'', JObj [(''id'', JNum 3), (''name'', JStr ''Ana'')]),
                       (''loginTime'', JNum (- 8292674416640001)),
                       (''lastActivity'', JNum (- 8292674416640001)),
                       (''sessionId'', JStr ''lozgfoxsk3j9x2'')]],
      accepts = (\<lambda>s k v. True), nextId = 8, ticks = 0\<rparr>"

definition far_env :: env where
  "far_env = sample_env\<lparr>clock := (\<lambda>n. 8200000000000000)\<rparr>"

definition seconds_later_env :: env where
  "seconds_later_env = sample_env\<lparr>clock := (\<lambda>n. 1700000018000)\<rparr>"

text \<open>A stored user whose \<^verbatim>\<open>updatedAt\<close> lies in the future of the clock.\<close>

definition stamped_world :: world where
  "stamped_world =
     \<lparr>items = [storage_prefix @ USER_DATA \<mapsto>
                 JArr [JObj [(''id'', JNum 3), (''name'', JStr ''Ana''),
                             (''createdAt'', JStr ''2023-01-01T00:00:00.000Z''),
                             (''updatedAt'', JStr ''2030-01-01T00:00:00.000Z'')]]],
      accepts = (\<lambda>s k v. True), nextId = 4, ticks = 0\<rparr>"


text \<open>A stored user whose identifier is \<open>2^53\<close>.\<close>

definition big_id_world :: world where
  "big_id_world =
     \<lparr>items = [storage_prefix @ USER_DATA \<mapsto>
                 JArr [JObj [(''id'', JNum 9007199254740992), (''name'', JStr ''Ana'')]]],
      accepts = (\<lambda>s k v. True), nextId = 9007199254740992, ticks = 0\<rparr>"

text \<open>
  User collections whose export is outside of the conditions of the property: a field
  named as a property that objects inherit, which the second record has not; and a value
  that is an object with a property named \<^verbatim>\<open>toString\<close>.
\<close>

definition inherited_name_world :: world where
  "inherited_name_world =
     \<lparr>items = [storage_prefix @ USER_DATA \<mapsto>
                 JArr [JObj [(''id'', JNum 1), (''constructor'', JStr ''x'')],
                       JObj [(''id'', JNum 2)]]],
      accepts = (\<lambda>s k v. True), nextId = 3, ticks = 0\<rparr>"

definition unprintable_world :: world where
  "unprintable_world =
     \<lparr>items = [storage_prefix @ USER_DATA \<mapsto>
                 JArr [JObj [(''id'', JNum 1), (''meta'', JObj [(''toString'', JNum 1)])]]],
      accepts = (\<lambda>s k v. True), nextId = 2, ticks = 0\<rparr>"

section \<open>Rounding\<close>

lemma round_half_even_mono: "q \<le> q' \<Longrightarrow> round_half_even q \<le> round_half_even q'"
proof -
  assume le: "q \<le> q'"
  have f: "\<lfloor>q\<rfloor> \<le> \<lfloor>q'\<rfloor>" using le by (rule floor_mono)
  have b: "\<lfloor>q\<rfloor> \<le> round_half_even q" "round_half_even q \<le> \<lfloor>q\<rfloor> + 1"
          "\<lfloor>q'\<rfloor> \<le> round_half_even q'" "round_half_even q' \<le> \<lfloor>q'\<rfloor> + 1"
    by (simp_all add: round_half_even_def Let_def)
  show ?thesis
  proof (cases "\<lfloor>q\<rfloor> = \<lfloor>q'\<rfloor>")
    case False
    with f b show ?thesis by linarith
  next
    case True
    with le show ?thesis
      by (auto simp: round_half_even_def Let_def)
  qed
qed

lemma round_half_even_of_int [simp]: "round_half_even (of_int m) = m"
  by (simp add: round_half_even_def)

lemma round_half_even_numeral [simp]: "round_half_even (numeral n) = numeral n"
  using round_half_even_of_int [of "numeral n"] by simp

lemma pow2_pos [simp]: "0 < (2::rat) powi k"
  by (simp add: zero_less_power_int)

lemma pow2_mono: "a \<le> b \<Longrightarrow> (2::rat) powi a \<le> 2 powi b"
  by (rule power_int_increasing) simp_all

lemma pow2_strict_mono: "a < b \<Longrightarrow> (2::rat) powi a < 2 powi b"
  by (rule power_int_strict_increasing) simp_all

lemma pow2_add: "(2::rat) powi (a + b) = 2 powi a * 2 powi b"
  by (simp add: power_int_add)

lemma pow2_bitlen:
  assumes "0 < a"
  shows "(2::rat) powi (bitlen a - 1) \<le> of_int a" and "of_int a < (2::rat) powi bitlen a"
proof -
  from bitlen_bounds [OF assms] have l: "2 ^ nat (bitlen a - 1) \<le> a" and u: "a < 2 ^ nat (bitlen a)"
    by simp_all
  have pos: "1 \<le> bitlen a"
  proof (rule ccontr)
    assume "\<not> 1 \<le> bitlen a"
    then have "nat (bitlen a) = 0" by simp
    with u assms show False by simp
  qed
  have "(2::rat) powi (bitlen a - 1) = of_int (2 ^ nat (bitlen a - 1))"
    using pos by (simp add: power_int_def)
  also have "\<dots> \<le> of_int a"
    using l by (simp only: of_int_le_iff)
  finally show "(2::rat) powi (bitlen a - 1) \<le> of_int a" .
  have "(of_int a :: rat) < of_int (2 ^ nat (bitlen a))"
    using u by (simp only: of_int_less_iff)
  also have "\<dots> = (2::rat) powi bitlen a"
    using pos by (simp add: power_int_def)
  finally show "of_int a < (2::rat) powi bitlen a" .
qed

lemma floor_log2_bounds:
  assumes "0 < x"
  shows "2 powi floor_log2 x \<le> x" and "x < 2 powi (floor_log2 x + 1)"
proof -
  obtain a b where q: "quotient_of x = (a, b)" by (cases "quotient_of x")
  then have b: "0 < b" and x: "x = of_int a / of_int b"
    using quotient_of_denom_pos quotient_of_div by blast+
  with assms have a: "0 < a"
    by (simp add: zero_less_divide_iff)
  define k where "k = bitlen a - bitlen b"
  have rb: "0 < (of_int b :: rat)" using b by simp
  have "of_int a < (2::rat) powi ((k + 1) + (bitlen b - 1))"
    using pow2_bitlen(2) [OF a] by (simp add: k_def)
  also have "\<dots> = 2 powi (k + 1) * 2 powi (bitlen b - 1)"
    by (rule pow2_add)
  also have "\<dots> \<le> 2 powi (k + 1) * of_int b"
    using pow2_bitlen(1) [OF b] by (simp add: mult_left_mono)
  finally have up: "x < 2 powi (k + 1)"
    using rb by (simp add: x pos_divide_less_eq)
  have "(2::rat) powi (k - 1) * of_int b < 2 powi (k - 1) * 2 powi bitlen b"
    using pow2_bitlen(2) [OF b] by (simp add: mult_strict_left_mono)
  also have "\<dots> = 2 powi ((k - 1) + bitlen b)"
    by (rule pow2_add [symmetric])
  also have "\<dots> \<le> of_int a"
    using pow2_bitlen(1) [OF a] by (simp add: k_def)
  finally have lo: "2 powi (k - 1) < x"
    using rb by (simp add: x pos_less_divide_eq)
  have fl: "floor_log2 x = (if 2 powi k \<le> x then k else k - 1)"
    by (simp add: floor_log2_def q k_def Let_def)
  show "2 powi floor_log2 x \<le> x"
    using lo by (simp add: fl)
  show "x < 2 powi (floor_log2 x + 1)"
    using up by (simp add: fl)
qed

lemma floor_log2_unique:
  assumes "0 < x" and "2 powi n \<le> x" and "x < 2 powi (n + 1)"
  shows "floor_log2 x = n"
proof (rule antisym)
  show "floor_log2 x \<le> n"
  proof (rule ccontr)
    assume "\<not> floor_log2 x \<le> n"
    then have "n + 1 \<le> floor_log2 x" by simp
    then have "(2::rat) powi (n + 1) \<le> 2 powi floor_log2 x" by (rule pow2_mono)
    with floor_log2_bounds(1) [OF assms(1)] assms(3) show False by simp
  qed
  show "n \<le> floor_log2 x"
  proof (rule ccontr)
    assume "\<not> n \<le> floor_log2 x"
    then have "floor_log2 x + 1 \<le> n" by simp
    then have "(2::rat) powi (floor_log2 x + 1) \<le> 2 powi n" by (rule pow2_mono)
    with floor_log2_bounds(2) [OF assms(1)] assms(2) show False by simp
  qed
qed

lemma floor_log2_mono:
  assumes "0 < x" and "x \<le> y"
  shows "floor_log2 x \<le> floor_log2 y"
proof (rule ccontr)
  assume "\<not> floor_log2 x \<le> floor_log2 y"
  then have "floor_log2 y + 1 \<le> floor_log2 x" by simp
  then have "(2::rat) powi (floor_log2 y + 1) \<le> 2 powi floor_log2 x" by (rule pow2_mono)
  moreover have "0 < y" using assms by simp
  ultimately show False
    using floor_log2_bounds(1) [OF assms(1)] floor_log2_bounds(2) [of y] assms(2) by simp
qed

lemma round_double_cases:
  "round_double x = (if x = 0 then 0 else if 0 < x then round_positive x else - round_positive (- x))"
  by (rule round_double_def)

lemma ulp_exponent_mono: "0 < x \<Longrightarrow> x \<le> y \<Longrightarrow> ulp_exponent x \<le> ulp_exponent y"
  using floor_log2_mono [of x y] by (simp add: ulp_exponent_def)

lemma round_positive_upper:
  assumes "0 < x"
  shows "round_positive x \<le> 2 powi (ulp_exponent x + 53)"
proof -
  let ?e = "ulp_exponent x"
  have "floor_log2 x + 1 \<le> ?e + 53"
    by (simp add: ulp_exponent_def)
  then have "(2::rat) powi (floor_log2 x + 1) \<le> 2 powi (?e + 53)" by (rule pow2_mono)
  with floor_log2_bounds(2) [OF assms] have "x \<le> 2 powi (?e + 53)" by simp
  also have "\<dots> = 2 powi 53 * 2 powi ?e" by (simp add: pow2_add mult.commute)
  finally have "x / 2 powi ?e \<le> 2 powi 53"
    by (simp add: pos_divide_le_eq)
  then have "round_half_even (x / 2 powi ?e) \<le> round_half_even (of_int (2 ^ 53))"
    by (intro round_half_even_mono) simp
  then have "round_half_even (x / 2 powi ?e) \<le> 2 ^ 53" by simp
  then have "(of_int (round_half_even (x / 2 powi ?e)) :: rat) \<le> of_int (2 ^ 53)"
    by (simp only: of_int_le_iff)
  then have "round_positive x \<le> 2 powi 53 * 2 powi ?e"
    by (simp add: round_positive_def mult_right_mono)
  then show ?thesis by (simp add: pow2_add mult.commute)
qed

lemma round_positive_lower:
  assumes "0 < x" and "- 1074 < ulp_exponent x"
  shows "2 powi (ulp_exponent x + 52) \<le> round_positive x"
proof -
  let ?e = "ulp_exponent x"
  have "?e + 52 = floor_log2 x"
    using assms(2) by (simp add: ulp_exponent_def max_def split: if_splits)
  with floor_log2_bounds(1) [OF assms(1)] have "2 powi (?e + 52) \<le> x" by simp
  then have "2 powi 52 * 2 powi ?e \<le> x" by (simp add: pow2_add mult.commute)
  then have "2 powi 52 \<le> x / 2 powi ?e"
    by (simp add: pos_le_divide_eq)
  then have "round_half_even (of_int (2 ^ 52)) \<le> round_half_even (x / 2 powi ?e)"
    by (intro round_half_even_mono) simp
  then have "2 ^ 52 \<le> round_half_even (x / 2 powi ?e)" by simp
  then have "(of_int (2 ^ 52) :: rat) \<le> of_int (round_half_even (x / 2 powi ?e))"
    by (simp only: of_int_le_iff)
  then have "2 powi 52 * 2 powi ?e \<le> round_positive x"
    by (simp add: round_positive_def mult_right_mono)
  then show ?thesis by (simp add: pow2_add mult.commute)
qed

lemma round_positive_nonneg: "0 < x \<Longrightarrow> 0 \<le> round_positive x"
proof -
  assume "0 < x"
  then have "0 \<le> x / 2 powi ulp_exponent x" by simp
  then have "round_half_even 0 \<le> round_half_even (x / 2 powi ulp_exponent x)"
    by (rule round_half_even_mono)
  then show ?thesis
    by (simp add: round_positive_def round_half_even_def)
qed

lemma round_positive_mono:
  assumes "0 < x" and "x \<le> y"
  shows "round_positive x \<le> round_positive y"
proof (cases "ulp_exponent x = ulp_exponent y")
  case True
  have "x / 2 powi ulp_exponent y \<le> y / 2 powi ulp_exponent y"
    using assms(2) by (simp add: divide_right_mono)
  then have "round_half_even (x / 2 powi ulp_exponent y) \<le> round_half_even (y / 2 powi ulp_exponent y)"
    by (rule round_half_even_mono)
  then show ?thesis
    by (simp add: round_positive_def True mult_right_mono)
next
  case False
  with ulp_exponent_mono [OF assms] have lt: "ulp_exponent x < ulp_exponent y" by simp
  have y: "0 < y" using assms by simp
  have "- 1074 \<le> ulp_exponent x" by (simp add: ulp_exponent_def)
  with lt have n: "- 1074 < ulp_exponent y" by simp
  have "round_positive x \<le> 2 powi (ulp_exponent x + 53)" using assms(1) by (rule round_positive_upper)
  also have "\<dots> \<le> 2 powi (ulp_exponent y + 52)" using lt by (intro pow2_mono) simp
  also have "\<dots> \<le> round_positive y" using y n by (rule round_positive_lower)
  finally show ?thesis .
qed

lemma round_double_mono:
  assumes "x \<le> y"
  shows "round_double x \<le> round_double y"
proof -
  consider "0 < x" | "x = 0" | "x < 0" "0 < y" | "x < 0" "y = 0" | "x < 0" "y < 0"
    using assms by linarith
  then show ?thesis
  proof cases
    case 1
    with assms round_positive_mono [of x y] show ?thesis by (simp add: round_double_cases)
  next
    case 2
    with assms round_positive_nonneg [of y] show ?thesis by (auto simp: round_double_cases)
  next
    case 3
    with round_positive_nonneg [of y] round_positive_nonneg [of "- x"] show ?thesis by (simp add: round_double_cases)
  next
    case 4
    with round_positive_nonneg [of "- x"] show ?thesis by (simp add: round_double_cases)
  next
    case 5
    with assms round_positive_mono [of "- y" "- x"] show ?thesis by (simp add: round_double_cases)
  qed
qed

lemma round_positive_fixed:
  assumes "0 < m" and "m < 2 ^ 53" and "- 1074 \<le> k"
  shows "round_positive (of_int m * 2 powi k) = of_int m * 2 powi k"
proof -
  let ?x = "of_int m * (2::rat) powi k"
  define e where "e = ulp_exponent ?x"
  have x: "0 < ?x" using assms(1) by simp
  have "(of_int m :: rat) < of_int (2 ^ 53)" using assms(2) by (simp only: of_int_less_iff)
  then have "?x < 2 powi 53 * 2 powi k" by (simp add: mult_strict_right_mono)
  then have u: "?x < 2 powi (53 + k)" by (simp add: pow2_add)
  have "floor_log2 ?x < 53 + k"
  proof (rule ccontr)
    assume "\<not> floor_log2 ?x < 53 + k"
    then have "(2::rat) powi (53 + k) \<le> 2 powi floor_log2 ?x" by (intro pow2_mono) simp
    with floor_log2_bounds(1) [OF x] u show False by simp
  qed
  then have e: "e \<le> k"
    using assms(3) by (simp add: ulp_exponent_def e_def)
  define j where "j = nat (k - e)"
  have k: "k = int j + e" using e by (simp add: j_def)
  have pk: "(2::rat) powi k = 2 ^ j * 2 powi e"
    by (subst k) (simp add: pow2_add)
  have "?x / 2 powi e = of_int m * 2 ^ j * 2 powi e / 2 powi e"
    by (simp add: pk)
  also have "\<dots> = of_int (m * 2 ^ j)"
    by simp
  finally have "round_half_even (?x / 2 powi e) = m * 2 ^ j"
    by (simp only: round_half_even_of_int)
  then have "round_positive ?x = of_int (m * 2 ^ j) * 2 powi e"
    by (simp only: round_positive_def e_def)
  also have "\<dots> = of_int m * (2 ^ j * 2 powi e)"
    by simp
  also have "\<dots> = ?x"
    by (simp only: pk)
  finally show ?thesis .
qed

lemma round_double_fixed:
  assumes "\<bar>m\<bar> < 2 ^ 53" and "- 1074 \<le> k"
  shows "round_double (of_int m * 2 powi k) = of_int m * 2 powi k"
proof -
  consider "m = 0" | "0 < m" | "m < 0" by linarith
  then show ?thesis
  proof cases
    case 1
    then show ?thesis by (simp add: round_double_def)
  next
    case 2
    with assms round_positive_fixed [of m k] show ?thesis
      by (simp add: round_double_cases zero_less_mult_iff)
  next
    case 3
    then have neg: "of_int m * (2::rat) powi k < 0"
      by (simp add: mult_neg_pos)
    have "round_positive (of_int (- m) * 2 powi k) = of_int (- m) * 2 powi k"
      using 3 assms by (intro round_positive_fixed) simp_all
    then have "round_positive (- (of_int m * 2 powi k)) = - (of_int m * 2 powi k)"
      by simp
    with neg show ?thesis
      by (simp add: round_double_cases)
  qed
qed

lemma round_double_int:
  assumes "\<bar>n\<bar> \<le> 2 ^ 53"
  shows "round_double (of_int n) = of_int n"
proof (cases "\<bar>n\<bar> = 2 ^ 53")
  case False
  with assms round_double_fixed [of n 0] show ?thesis by simp
next
  case True
  then consider "n = 2 ^ 53" | "n = - (2 ^ 53)" by linarith
  then show ?thesis
  proof cases
    case 1
    with round_double_fixed [of 1 53] show ?thesis by simp
  next
    case 2
    with round_double_fixed [of "- 1" 53] show ?thesis by simp
  qed
qed

lemma plus_one_exact: "- (2 ^ 53) \<le> n + 1 \<Longrightarrow> n + 1 \<le> 2 ^ 53 \<Longrightarrow> plus_one n = n + 1"
  using round_double_int [of "n + 1"] by (simp add: plus_one_def)

text \<open>
  For a timeout that is a whole number of minutes below \<open>2^37\<close>, the rounded minutes
  exceed it exactly when the milliseconds exceed 60000 times it: \<open>60000 * T\<close>,
  \<open>60000 * T + 1\<close> and \<open>T + 2^-16\<close> are binary64 numbers, and rounding keeps the order.
\<close>

lemma diffMinutes_whole_timeout:
  assumes "\<bar>T\<bar> < 2 ^ 37"
  shows "of_int T < diffMinutes now t \<longleftrightarrow> 60000 * T < now - t"
proof -
  define d where "d = now - t"
  have T: "round_double (of_int T) = of_int T"
    using assms by (intro round_double_int) simp
  show ?thesis
  proof (cases "d \<le> 60000 * T")
    case True
    have "\<bar>60000 * T\<bar> \<le> 2 ^ 53" using assms by simp
    then have "round_double (of_int (60000 * T)) = of_int (60000 * T)"
      by (rule round_double_int)
    moreover have "round_double (of_int d) \<le> round_double (of_int (60000 * T))"
      using True by (intro round_double_mono) (simp only: of_int_le_iff)
    ultimately have "round_double (of_int d) / 60000 \<le> of_int T"
      by simp
    then have "round_double (round_double (of_int d) / 60000) \<le> round_double (of_int T)"
      by (rule round_double_mono)
    with T True show ?thesis
      by (simp add: diffMinutes_def d_def)
  next
    case False
    then have lt: "60000 * T + 1 \<le> d" by simp
    have "\<bar>60000 * T + 1\<bar> \<le> 2 ^ 53" using assms by simp
    then have "round_double (of_int (60000 * T + 1)) = of_int (60000 * T + 1)"
      by (rule round_double_int)
    moreover have "round_double (of_int (60000 * T + 1)) \<le> round_double (of_int d)"
      using lt by (intro round_double_mono) (simp only: of_int_le_iff)
    ultimately have "of_int T + 1 / 60000 \<le> round_double (of_int d) / 60000"
      by (simp add: field_simps)
    moreover have "of_int (T * 2 ^ 16 + 1) * (2::rat) powi (- 16) \<le> of_int T + 1 / 60000"
      by (simp add: field_simps power_int_minus)
    ultimately have "of_int (T * 2 ^ 16 + 1) * (2::rat) powi (- 16) \<le> round_double (of_int d) / 60000"
      by simp
    then have "round_double (of_int (T * 2 ^ 16 + 1) * 2 powi (- 16))
                 \<le> round_double (round_double (of_int d) / 60000)"
      by (rule round_double_mono)
    moreover have "round_double (of_int (T * 2 ^ 16 + 1) * 2 powi (- 16))
                 = of_int (T * 2 ^ 16 + 1) * 2 powi (- 16)"
      using assms by (intro round_double_fixed) simp_all
    moreover have "of_int T < of_int (T * 2 ^ 16 + 1) * (2::rat) powi (- 16)"
      by (simp add: field_simps power_int_minus)
    ultimately have "of_int T < round_double (round_double (of_int d) / 60000)"
      by simp
    with False show ?thesis
      by (simp add: diffMinutes_def d_def)
  qed
qed

section \<open>Objects\<close>


lemma obj_get_Cons: "obj_get ((k', v) # ob) k = (if k' = k then Some v else obj_get ob k)"
  by (simp add: obj_get_def)

lemma obj_get_obj_set: "obj_get (obj_set ob k v) k' = (if k' = k then Some v else obj_get ob k')"
  by (induction ob) (auto simp: obj_get_def)

lemma obj_get_assign_all_other:
  "k \<notin> fst ` set b \<Longrightarrow> obj_get (assign_all a b) k = obj_get a k"
  by (induction a b rule: assign_all.induct) (auto simp: obj_get_obj_set)

lemma obj_get_assign_all_in:
  "distinct (map fst b) \<Longrightarrow> map_of b k = Some v \<Longrightarrow> obj_get (assign_all a b) k = Some v"
proof (induction a b rule: assign_all.induct)
  case (1 a)
  then show ?case by simp
next
  case (2 a k' v' b)
  show ?case
  proof (cases "k' = k")
    case True
    with 2 have "k \<notin> fst ` set b" and "v' = v" by auto
    then show ?thesis
      using True by (simp add: obj_get_assign_all_other obj_get_obj_set)
  next
    case False
    with 2 show ?thesis by simp
  qed
qed

lemma set_own_entries: "set (own_entries ob) = set ob"
  by (auto simp: own_entries_def)

lemma distinct_own_entries:
  "distinct (map fst ob) \<Longrightarrow> distinct (map fst (own_entries ob))"
  unfolding own_entries_def
  by (auto simp: distinct_map inj_on_def distinct_map_filter)

lemma map_of_own_entries:
  "distinct (map fst ob) \<Longrightarrow> map_of (own_entries ob) k = map_of ob k"
  by (metis distinct_own_entries map_of_eq_Some_iff set_own_entries not_Some_eq)

lemma obj_get_spread_obj:
  assumes "distinct (map fst b)"
  shows "obj_get (spread a (JObj b)) k = (case obj_get b k of Some v \<Rightarrow> Some v | None \<Rightarrow> obj_get a k)"
proof (cases "obj_get b k")
  case None
  then have "k \<notin> fst ` set (own_entries b)"
    by (simp add: obj_get_def set_own_entries map_of_eq_None_iff)
  then show ?thesis
    using None by (simp add: spread_def obj_get_assign_all_other)
next
  case (Some v)
  then have "map_of (own_entries b) k = Some v"
    using assms by (simp add: obj_get_def map_of_own_entries)
  then show ?thesis
    using Some assms by (simp add: spread_def obj_get_assign_all_in distinct_own_entries)
qed

lemma obj_get_spread_other:
  "k \<notin> fst ` set (entries_of b) \<Longrightarrow> obj_get (spread a b) k = obj_get a k"
  by (simp add: spread_def obj_get_assign_all_other)

lemma set_obj_set: "set (obj_set ob k v) \<subseteq> insert (k, v) (set ob)"
  by (induction ob) (auto split: if_splits)

lemma map_err_Inr:
  "\<forall>x\<in>set xs. f x = Inr (g x) \<Longrightarrow> map_err f xs = Inr (map g xs)"
  by (induction xs) auto

section \<open>Creating a user\<close>

lemma createUser_result:
  "fst (createUser e d w) = Inr u \<Longrightarrow> u = JObj (newUser e w d)"
  by (auto simp: createUser_def Let_def split: jsval.splits prod.splits sum.splits)

text \<open>
  Claim C10. In the record that \<^verbatim>\<open>createUser(data)\<close> returns, \<^verbatim>\<open>registeredDate\<close>,
  \<^verbatim>\<open>lastLogin\<close>, \<^verbatim>\<open>createdAt\<close> and \<^verbatim>\<open>updatedAt\<close> are the ones the call
  computes (\<^verbatim>\<open>lastLogin\<close> is null, the others come from the clock readings of the call:
  the date part of the first, the second and the third), whatever \<open>data\<close> holds; an
  \<^verbatim>\<open>id\<close> in \<open>data\<close> replaces the generated one, which is kept only when \<open>data\<close>
  has no \<^verbatim>\<open>id\<close>.
\<close>

theorem createUser_stamps_override_data_but_id_does_not:
  assumes "fst (createUser e (JObj d) w) = Inr u" and "distinct (map fst d)"
  shows "get_prop u ''registeredDate'' = Inr (Some (JStr (before_T (toISOString (clock e (ticks w))))))
       \<and> get_prop u ''lastLogin'' = Inr (Some JNull)
       \<and> get_prop u ''createdAt'' = Inr (Some (JStr (toISOString (clock e (ticks w + 1)))))
       \<and> get_prop u ''updatedAt'' = Inr (Some (JStr (toISOString (clock e (ticks w + 2)))))
       \<and> get_prop u ''id'' = Inr (Some (case obj_get d ''id'' of Some v \<Rightarrow> v | None \<Rightarrow> JNum (nextId w)))"
proof -
  have u: "u = JObj (newUser e w (JObj d))"
    using assms(1) by (rule createUser_result)
  have "obj_get (newUser e w (JObj d)) ''id''
      = Some (case obj_get d ''id'' of Some v \<Rightarrow> v | None \<Rightarrow> JNum (nextId w))"
    using assms(2)
    by (simp add: newUser_def obj_get_obj_set obj_get_spread_obj obj_get_Cons split: option.splits)
  then show ?thesis
    unfolding u by (simp add: newUser_def obj_get_obj_set)
qed

theorem createUser_stamps_override_data_but_id_does_not_witness:
  "fst (createUser sample_env
          (JObj [(''name'', JStr ''Eva''), (''id'', JNum 99), (''createdAt'', JStr ''then''),
                 (''lastLogin'', JStr ''yesterday'')]) empty_world)
     = Inr (JObj [(''id'', JNum 99), (''name'', JStr ''Eva''),
                  (''createdAt'', JStr ''2023-11-14T22:13:20.001Z''), (''lastLogin'', JNull),
                  (''registeredDate'', JStr ''2023-11-14''),
                  (''updatedAt'', JStr ''2023-11-14T22:13:20.002Z'')])
   \<and> get_prop (JObj [(''id'', JNum 99), (''name'', JStr ''Eva''),
                  (''createdAt'', JStr ''2023-11-14T22:13:20.001Z''), (''lastLogin'', JNull),
                  (''registeredDate'', JStr ''2023-11-14''),
                  (''updatedAt'', JStr ''2023-11-14T22:13:20.002Z'')]) ''id'' = Inr (Some (JNum 99))
   \<and> get_prop (JObj [(''id'', JNum 99), (''name'', JStr ''Eva''),
                  (''createdAt'', JStr ''2023-11-14T22:13:20.001Z''), (''lastLogin'', JNull),
                  (''registeredDate'', JStr ''2023-11-14''),
                  (''updatedAt'', JStr ''2023-11-14T22:13:20.002Z'')]) ''createdAt''
       = Inr (Some (JStr (toISOString (clock sample_env (ticks empty_world + 1)))))"
proof -
  have h1: "fst (createUser sample_env
          (JObj [(''name'', JStr ''Eva''), (''id'', JNum 99), (''createdAt'', JStr ''then''),
                 (''lastLogin'', JStr ''yesterday'')]) empty_world)
     = Inr (JObj [(''id'', JNum 99), (''name'', JStr ''Eva''),
                  (''createdAt'', JStr ''2023-11-14T22:13:20.001Z''), (''lastLogin'', JNull),
                  (''registeredDate'', JStr ''2023-11-14''),
                  (''updatedAt'', JStr ''2023-11-14T22:13:20.002Z'')])"
    by code_simp
  have h2: "distinct (map fst [(''name'', JStr ''Eva''), (''id'', JNum 99),
                 (''createdAt'', JStr ''then''), (''lastLogin'', JStr ''yesterday'')])"
    by simp
  from createUser_stamps_override_data_but_id_does_not [OF h1 h2] h1
  show ?thesis by (simp add: obj_get_def)
qed

section \<open>Storage and the audit log\<close>

lemma json_image_idem [simp]: "json_image (json_image v) = json_image v"
  by (induction v rule: json_image.induct) (auto split: number.splits)

lemma obj_get_json_image:
  "obj_get (map (\<lambda>kv. (fst kv, json_image (snd kv))) ob) k = map_option json_image (obj_get ob k)"
  by (induction ob) (auto simp: obj_get_def)

lemma storage_set_fields [simp]:
  "accepts (snd (storage_set w k v)) = accepts w"
  "nextId (snd (storage_set w k v)) = nextId w"
  "ticks (snd (storage_set w k v)) = ticks w"
  by (simp_all add: storage_set_def)

lemma accepts_key_eq: "accepts w' = accepts w \<Longrightarrow> accepts_key w' k = accepts_key w k"
  by (simp add: accepts_key_def)

lemma accepts_key_storage_set [simp]:
  "accepts_key (snd (storage_set w k v)) key = accepts_key w key"
  by (simp add: accepts_key_def)

lemma accepts_key_update [simp]:
  "accepts_key (w\<lparr>ticks := t\<rparr>) key = accepts_key w key"
  "accepts_key (w\<lparr>nextId := n\<rparr>) key = accepts_key w key"
  by (simp_all add: accepts_key_def)

lemma storage_get_update [simp]:
  "storage_get (w\<lparr>ticks := t\<rparr>) k d = storage_get w k d"
  "storage_get (w\<lparr>nextId := n\<rparr>) k d = storage_get w k d"
  by (simp_all add: storage_get_def)

lemma storage_get_set_same:
  "accepts_key w k \<Longrightarrow> storage_get (snd (storage_set w k v)) k d = json_image v"
  by (simp add: storage_get_def storage_set_def accepts_key_def)

lemma storage_get_set_other:
  "k' \<noteq> k \<Longrightarrow> storage_get (snd (storage_set w k v)) k' d = storage_get w k' d"
  by (simp add: storage_get_def storage_set_def)

lemma storage_get_set_array:
  "storage_get w k (JArr []) = JArr xs \<Longrightarrow>
     \<exists>ys. storage_get (snd (storage_set w k (JArr zs))) k (JArr []) = JArr ys"
  by (simp add: storage_get_def storage_set_def)

lemma keys_neq [simp]: "USER_DATA \<noteq> LOGS_DATA" "LOGS_DATA \<noteq> USER_DATA"
  by (simp_all add: USER_DATA_def LOGS_DATA_def)

lemma with_entry_facts:
  "length (with_entry ls x) \<le> 1000"
  "length (with_entry ls x) = min 1000 (Suc (length ls))"
  "with_entry ls x = drop (Suc (length ls) - 1000) ls @ [x]"
  "length ls < 1000 \<Longrightarrow> with_entry ls x = ls @ [x]"
  by (auto simp: with_entry_def)

lemma logUserAction_result:
  assumes "storage_get w LOGS_DATA (JArr []) = JArr ls" and "clonable d"
  shows "logUserAction e a i d w
           = (Inr (), snd (storage_set (w\<lparr>ticks := ticks w + 2\<rparr>) LOGS_DATA
                             (JArr (with_entry ls (logEntry e (ticks w) a i (cloned d))))))"
  using assms by (simp add: logUserAction_def deepClone_def Let_def with_entry_def)

lemma logUserAction_not_clonable:
  "\<not> clonable d \<Longrightarrow> logUserAction e a i d w = (Inl TypeError, w\<lparr>ticks := ticks w + 2\<rparr>)"
  by (simp add: logUserAction_def deepClone_def Let_def)

lemma logUserAction_Inr:
  assumes "fst (logUserAction e a i d w) = Inr x"
  shows "clonable d \<and> (\<exists>ls. storage_get w LOGS_DATA (JArr []) = JArr ls)"
  using assms
  by (auto simp: logUserAction_def deepClone_def Let_def split: if_splits jsval.splits)

lemma logUserAction_appends:
  assumes "storage_get w LOGS_DATA (JArr []) = JArr ls" and "clonable d"
  shows "fst (logUserAction e a i d w) = Inr ()"
    and "accepts_key w LOGS_DATA \<Longrightarrow>
           storage_get (snd (logUserAction e a i d w)) LOGS_DATA (JArr [])
             = JArr (map json_image (with_entry ls (logEntry e (ticks w) a i (cloned d))))"
    and "storage_get (snd (logUserAction e a i d w)) USER_DATA x = storage_get w USER_DATA x"
    and "accepts (snd (logUserAction e a i d w)) = accepts w"
    and "nextId (snd (logUserAction e a i d w)) = nextId w"
    and "ticks (snd (logUserAction e a i d w)) = ticks w + 2"
    and "\<exists>ls'. storage_get (snd (logUserAction e a i d w)) LOGS_DATA (JArr []) = JArr ls'"
proof -
  note r = logUserAction_result [OF assms, of e a i]
  show "fst (logUserAction e a i d w) = Inr ()"
    by (simp add: r)
  show "storage_get (snd (logUserAction e a i d w)) LOGS_DATA (JArr [])
             = JArr (map json_image (with_entry ls (logEntry e (ticks w) a i (cloned d))))"
    if "accepts_key w LOGS_DATA"
    using that by (simp add: r storage_get_set_same)
  show "storage_get (snd (logUserAction e a i d w)) USER_DATA x = storage_get w USER_DATA x"
    by (simp add: r storage_get_set_other)
  show "accepts (snd (logUserAction e a i d w)) = accepts w"
    by (simp add: r)
  show "nextId (snd (logUserAction e a i d w)) = nextId w"
    by (simp add: r)
  show "ticks (snd (logUserAction e a i d w)) = ticks w + 2"
    by (simp add: r)
  have "storage_get (w\<lparr>ticks := ticks w + 2\<rparr>) LOGS_DATA (JArr []) = JArr ls"
    using assms(1) by simp
  from storage_get_set_array [OF this]
  show "\<exists>ls'. storage_get (snd (logUserAction e a i d w)) LOGS_DATA (JArr []) = JArr ls'"
    by (simp add: r)
qed

lemma logUserAction_refused:
  assumes "\<forall>s v. \<not> accepts w s (storage_prefix @ LOGS_DATA) v"
  shows "storage_get (snd (logUserAction e a i d w)) LOGS_DATA x = storage_get w LOGS_DATA x"
  using assms
  by (auto simp: logUserAction_def deepClone_def Let_def storage_set_def storage_get_def
      split: jsval.splits)

lemma findIndex_Some:
  "findIndex p xs = Inr (Some k) \<Longrightarrow> k < length xs \<and> p (xs ! k) = Inr True \<and> (\<forall>j<k. p (xs ! j) = Inr False)"
proof (induction xs arbitrary: k)
  case Nil
  then show ?case by simp
next
  case (Cons x xs)
  show ?case
  proof (cases "p x")
    case (Inl e)
    with Cons.prems show ?thesis by simp
  next
    case (Inr b)
    show ?thesis
    proof (cases b)
      case True
      with Inr Cons.prems show ?thesis by simp
    next
      case False
      with Inr Cons.prems obtain k' where k': "findIndex p xs = Inr (Some k')" "k = Suc k'"
        by (auto split: sum.splits option.splits)
      from Cons.IH [OF k'(1)] show ?thesis
        using Inr False k'(2) by (auto simp: less_Suc_eq_0_disj)
    qed
  qed
qed

text \<open>
  What the three mutators do to the world when the stored collection and the stored log
  are arrays: the collection is written, then the entry is logged, and the call throws
  when the data of the entry cannot be cloned.
\<close>

lemma createUser_step:
  assumes "getUsers w = JArr us" and "storage_get w LOGS_DATA (JArr []) = JArr ls"
  shows "fst (createUser e d w)
           = (if clonable (JObj (newUser e w d)) then Inr (JObj (newUser e w d)) else Inl TypeError)"
    and "accepts_key w USER_DATA \<Longrightarrow>
           getUsers (snd (createUser e d w)) = JArr (map json_image (us @ [JObj (newUser e w d)]))"
    and "nextId (snd (createUser e d w)) = plus_one (nextId w)"
    and "accepts (snd (createUser e d w)) = accepts w"
    and "\<exists>ls'. storage_get (snd (createUser e d w)) LOGS_DATA (JArr []) = JArr ls'"
    and "accepts_key w LOGS_DATA \<Longrightarrow> clonable (JObj (newUser e w d)) \<Longrightarrow>
           storage_get (snd (createUser e d w)) LOGS_DATA (JArr [])
             = JArr (map json_image (with_entry ls
                 (logEntry e (ticks w + 3) ''USER_CREATED'' (arg_of (obj_get (newUser e w d) ''id''))
                    (cloned (JObj (newUser e w d))))))"
proof -
  let ?u = "newUser e w d"
  let ?w2 = "snd (storage_set (w\<lparr>nextId := plus_one (nextId w), ticks := ticks w + 3\<rparr>) USER_DATA (JArr (us @ [JObj ?u])))"
  let ?i = "arg_of (obj_get ?u ''id'')"
  have l: "storage_get ?w2 LOGS_DATA (JArr []) = JArr ls"
    and n: "nextId ?w2 = plus_one (nextId w)" and t: "ticks ?w2 = ticks w + 3"
    and a: "accepts ?w2 = accepts w"
    using assms(2) by (simp_all add: storage_get_set_other)
  have g: "storage_get ?w2 USER_DATA (JArr []) = JArr (map json_image (us @ [JObj ?u]))"
    if "accepts_key w USER_DATA"
    using that by (simp add: storage_get_set_same)
  have s: "snd (createUser e d w) = snd (logUserAction e ''USER_CREATED'' ?i (JObj ?u) ?w2)"
    by (simp add: createUser_def assms(1) Let_def split: prod.splits sum.splits)
  have f: "fst (createUser e d w)
             = (case fst (logUserAction e ''USER_CREATED'' ?i (JObj ?u) ?w2) of
                  Inl err \<Rightarrow> Inl err | Inr x \<Rightarrow> Inr (JObj ?u))"
    by (simp add: createUser_def assms(1) Let_def split: prod.splits sum.splits)
  show "fst (createUser e d w) = (if clonable (JObj ?u) then Inr (JObj ?u) else Inl TypeError)"
  proof (cases "clonable (JObj ?u)")
    case True
    with logUserAction_appends(1) [OF l True] show ?thesis by (simp add: f)
  next
    case False
    from logUserAction_not_clonable [OF False]
    have "fst (logUserAction e ''USER_CREATED'' ?i (JObj ?u) ?w2) = Inl TypeError"
      by (simp only: fst_conv)
    with False show ?thesis by (simp only: f sum.case if_False)
  qed
  have unch: "storage_get (snd (logUserAction e a i x ?w2)) USER_DATA y = storage_get ?w2 USER_DATA y"
    for a i x y
    by (auto simp: logUserAction_def deepClone_def Let_def storage_get_set_other split: jsval.splits)
  show "getUsers (snd (createUser e d w)) = JArr (map json_image (us @ [JObj ?u]))"
    if "accepts_key w USER_DATA"
    using g [OF that] by (simp only: s getUsers_def unch)
  show "nextId (snd (createUser e d w)) = plus_one (nextId w)"
    using n by (auto simp: s logUserAction_def deepClone_def Let_def split: jsval.splits)
  show "accepts (snd (createUser e d w)) = accepts w"
    using a by (auto simp: s logUserAction_def deepClone_def Let_def split: jsval.splits)
  show "\<exists>ls'. storage_get (snd (createUser e d w)) LOGS_DATA (JArr []) = JArr ls'"
  proof (cases "clonable (JObj ?u)")
    case True
    from logUserAction_appends(7) [OF l True] show ?thesis by (simp add: s)
  next
    case False
    from logUserAction_not_clonable [OF False] l show ?thesis
      by (simp add: s)
  qed
  show "storage_get (snd (createUser e d w)) LOGS_DATA (JArr [])
             = JArr (map json_image (with_entry ls
                 (logEntry e (ticks w + 3) ''USER_CREATED'' ?i (cloned (JObj ?u)))))"
    if "accepts_key w LOGS_DATA" "clonable (JObj ?u)"
  proof -
    have "accepts_key ?w2 LOGS_DATA" using that(1) by simp
    from logUserAction_appends(2) [OF l that(2) this] show ?thesis
      by (simp add: s t)
  qed
qed

lemma createUser_Inr:
  assumes "fst (createUser e d w) = Inr u"
  shows "u = JObj (newUser e w d) \<and> clonable u \<and> (\<exists>us. getUsers w = JArr us)
       \<and> (\<exists>ls. storage_get w LOGS_DATA (JArr []) = JArr ls)"
proof -
  obtain us where us: "getUsers w = JArr us"
    using assms by (cases "getUsers w") (simp_all add: createUser_def Let_def)
  let ?u = "newUser e w d"
  let ?w2 = "snd (storage_set (w\<lparr>nextId := plus_one (nextId w), ticks := ticks w + 3\<rparr>) USER_DATA (JArr (us @ [JObj ?u])))"
  from assms obtain x where
    "fst (logUserAction e ''USER_CREATED'' (arg_of (obj_get ?u ''id'')) (JObj ?u) ?w2) = Inr x"
    and u: "u = JObj ?u"
    by (auto simp: createUser_def us Let_def split: prod.splits sum.splits)
  from logUserAction_Inr [OF this(1)] have "clonable (JObj ?u)"
    and "\<exists>ls. storage_get w LOGS_DATA (JArr []) = JArr ls"
    by (simp_all add: storage_get_set_other)
  with us u show ?thesis by simp
qed

lemma updateUser_found:
  assumes "getUsers w = JArr us" and "findIndex (id_matches i) us = Inr (Some k)"
    and "storage_get w LOGS_DATA (JArr []) = JArr ls"
  shows "fst (updateUser e i upd w)
           = (if clonable (JObj (updatedUser e w (us ! k) upd))
              then Inr (JObj (updatedUser e w (us ! k) upd)) else Inl TypeError)"
    and "accepts_key w USER_DATA \<Longrightarrow>
           getUsers (snd (updateUser e i upd w))
             = JArr (map json_image (us[k := JObj (updatedUser e w (us ! k) upd)]))"
    and "accepts_key w LOGS_DATA \<Longrightarrow> clonable (JObj (updatedUser e w (us ! k) upd)) \<Longrightarrow>
           storage_get (snd (updateUser e i upd w)) LOGS_DATA (JArr [])
             = JArr (map json_image (with_entry ls
                 (logEntry e (ticks w + 1) ''USER_UPDATED'' i (cloned (JObj (updatedUser e w (us ! k) upd))))))"
proof -
  let ?u = "updatedUser e w (us ! k) upd"
  let ?w2 = "snd (storage_set (w\<lparr>ticks := ticks w + 1\<rparr>) USER_DATA (JArr (us[k := JObj ?u])))"
  have l: "storage_get ?w2 LOGS_DATA (JArr []) = JArr ls" and t: "ticks ?w2 = ticks w + 1"
    using assms(3) by (simp_all add: storage_get_set_other)
  have g: "storage_get ?w2 USER_DATA (JArr []) = JArr (map json_image (us[k := JObj ?u]))"
    if "accepts_key w USER_DATA"
    using that by (simp add: storage_get_set_same)
  have s: "snd (updateUser e i upd w) = snd (logUserAction e ''USER_UPDATED'' i (JObj ?u) ?w2)"
    by (simp add: updateUser_def assms(1,2) Let_def split: prod.splits sum.splits)
  have f: "fst (updateUser e i upd w)
             = (case fst (logUserAction e ''USER_UPDATED'' i (JObj ?u) ?w2) of
                  Inl err \<Rightarrow> Inl err | Inr x \<Rightarrow> Inr (JObj ?u))"
    by (simp add: updateUser_def assms(1,2) Let_def split: prod.splits sum.splits)
  show "fst (updateUser e i upd w) = (if clonable (JObj ?u) then Inr (JObj ?u) else Inl TypeError)"
  proof (cases "clonable (JObj ?u)")
    case True
    with logUserAction_appends(1) [OF l True] show ?thesis by (simp add: f)
  next
    case False
    from logUserAction_not_clonable [OF False]
    have "fst (logUserAction e ''USER_UPDATED'' i (JObj ?u) ?w2) = Inl TypeError"
      by (simp only: fst_conv)
    with False show ?thesis by (simp only: f sum.case if_False)
  qed
  have unch: "storage_get (snd (logUserAction e a j x ?w2)) USER_DATA y = storage_get ?w2 USER_DATA y"
    for a j x y
    by (auto simp: logUserAction_def deepClone_def Let_def storage_get_set_other split: jsval.splits)
  show "getUsers (snd (updateUser e i upd w)) = JArr (map json_image (us[k := JObj ?u]))"
    if "accepts_key w USER_DATA"
    using g [OF that] by (simp only: s getUsers_def unch)
  show "storage_get (snd (updateUser e i upd w)) LOGS_DATA (JArr [])
             = JArr (map json_image (with_entry ls
                 (logEntry e (ticks w + 1) ''USER_UPDATED'' i (cloned (JObj ?u)))))"
    if "accepts_key w LOGS_DATA" "clonable (JObj ?u)"
  proof -
    have "accepts_key ?w2 LOGS_DATA" using that(1) by simp
    from logUserAction_appends(2) [OF l that(2) this] show ?thesis
      by (simp add: s t)
  qed
qed


lemma deleteUser_found:
  assumes "getUsers w = JArr us" and "findIndex (id_matches i) us = Inr (Some k)"
    and "storage_get w LOGS_DATA (JArr []) = JArr ls"
  shows "fst (deleteUser e i w) = (if clonable (us ! k) then Inr True else Inl TypeError)"
    and "accepts_key w USER_DATA \<Longrightarrow>
           getUsers (snd (deleteUser e i w)) = JArr (map json_image (take k us @ drop (Suc k) us))"
    and "accepts_key w LOGS_DATA \<Longrightarrow> clonable (us ! k) \<Longrightarrow>
           storage_get (snd (deleteUser e i w)) LOGS_DATA (JArr [])
             = JArr (map json_image (with_entry ls
                 (logEntry e (ticks w) ''USER_DELETED'' i (cloned (us ! k)))))"
proof -
  let ?w2 = "snd (storage_set w USER_DATA (JArr (take k us @ drop (Suc k) us)))"
  have l: "storage_get ?w2 LOGS_DATA (JArr []) = JArr ls" and t: "ticks ?w2 = ticks w"
    using assms(3) by (simp_all add: storage_get_set_other)
  have g: "storage_get ?w2 USER_DATA (JArr []) = JArr (map json_image (take k us @ drop (Suc k) us))"
    if "accepts_key w USER_DATA"
    using that by (simp add: storage_get_set_same)
  have s: "snd (deleteUser e i w) = snd (logUserAction e ''USER_DELETED'' i (us ! k) ?w2)"
    by (simp add: deleteUser_def assms(1,2) Let_def split: prod.splits sum.splits)
  have f: "fst (deleteUser e i w)
             = (case fst (logUserAction e ''USER_DELETED'' i (us ! k) ?w2) of
                  Inl err \<Rightarrow> Inl err | Inr x \<Rightarrow> Inr True)"
    by (simp add: deleteUser_def assms(1,2) Let_def split: prod.splits sum.splits)
  show "fst (deleteUser e i w) = (if clonable (us ! k) then Inr True else Inl TypeError)"
  proof (cases "clonable (us ! k)")
    case True
    with logUserAction_appends(1) [OF l True] show ?thesis by (simp add: f)
  next
    case False
    from logUserAction_not_clonable [OF False]
    have "fst (logUserAction e ''USER_DELETED'' i (us ! k) ?w2) = Inl TypeError"
      by (simp only: fst_conv)
    with False show ?thesis by (simp only: f sum.case if_False)
  qed
  have unch: "storage_get (snd (logUserAction e a j x ?w2)) USER_DATA y = storage_get ?w2 USER_DATA y"
    for a j x y
    by (auto simp: logUserAction_def deepClone_def Let_def storage_get_set_other split: jsval.splits)
  show "getUsers (snd (deleteUser e i w)) = JArr (map json_image (take k us @ drop (Suc k) us))"
    if "accepts_key w USER_DATA"
    using g [OF that] by (simp only: s getUsers_def unch)
  show "storage_get (snd (deleteUser e i w)) LOGS_DATA (JArr [])
             = JArr (map json_image (with_entry ls
                 (logEntry e (ticks w) ''USER_DELETED'' i (cloned (us ! k)))))"
    if "accepts_key w LOGS_DATA" "clonable (us ! k)"
  proof -
    have "accepts_key ?w2 LOGS_DATA" using that(1) by simp
    from logUserAction_appends(2) [OF l that(2) this] show ?thesis
      by (simp add: s t)
  qed
qed

lemma updateUser_Inr_cases:
  assumes "fst (updateUser e i upd w) = Inr r"
  shows "\<exists>us. getUsers w = JArr us \<and>
           (findIndex (id_matches i) us = Inr None \<and> r = JNull
            \<or> (\<exists>k. findIndex (id_matches i) us = Inr (Some k)
                  \<and> r = JObj (updatedUser e w (us ! k) upd) \<and> clonable r))"
proof -
  obtain us where us: "getUsers w = JArr us"
    using assms by (cases "getUsers w") (simp_all add: updateUser_def)
  show ?thesis
  proof (cases "findIndex (id_matches i) us")
    case (Inl err)
    with assms us show ?thesis by (simp add: updateUser_def)
  next
    case (Inr found)
    show ?thesis
    proof (cases found)
      case None
      with assms us Inr show ?thesis by (simp add: updateUser_def)
    next
      case (Some k)
      let ?u = "updatedUser e w (us ! k) upd"
      let ?w2 = "snd (storage_set (w\<lparr>ticks := ticks w + 1\<rparr>) USER_DATA (JArr (us[k := JObj ?u])))"
      from assms obtain x where
        "fst (logUserAction e ''USER_UPDATED'' i (JObj ?u) ?w2) = Inr x" and r: "r = JObj ?u"
        by (auto simp: updateUser_def us Inr Some Let_def split: prod.splits sum.splits)
      from logUserAction_Inr [OF this(1)] have "clonable (JObj ?u)" by simp
      with us Inr Some r show ?thesis by simp
    qed
  qed
qed

lemma deleteUser_Inr_cases:
  assumes "fst (deleteUser e i w) = Inr r"
  shows "\<exists>us. getUsers w = JArr us \<and>
           (findIndex (id_matches i) us = Inr None \<and> r = False
            \<or> (\<exists>k. findIndex (id_matches i) us = Inr (Some k) \<and> r = True \<and> clonable (us ! k)))"
proof -
  obtain us where us: "getUsers w = JArr us"
    using assms by (cases "getUsers w") (simp_all add: deleteUser_def)
  show ?thesis
  proof (cases "findIndex (id_matches i) us")
    case (Inl err)
    with assms us show ?thesis by (simp add: deleteUser_def)
  next
    case (Inr found)
    show ?thesis
    proof (cases found)
      case None
      with assms us Inr show ?thesis by (simp add: deleteUser_def)
    next
      case (Some k)
      let ?w2 = "snd (storage_set w USER_DATA (JArr (take k us @ drop (Suc k) us)))"
      from assms obtain x where
        "fst (logUserAction e ''USER_DELETED'' i (us ! k) ?w2) = Inr x" and r: "r = True"
        by (auto simp: deleteUser_def us Inr Some Let_def split: prod.splits sum.splits)
      from logUserAction_Inr [OF this(1)] have "clonable (us ! k)" by simp
      with us Inr Some r show ?thesis by simp
    qed
  qed
qed

lemma newUser_generated_id:
  "''id'' \<notin> fst ` set (entries_of d) \<Longrightarrow> obj_get (newUser e w d) ''id'' = Some (JNum (nextId w))"
  by (simp add: newUser_def obj_get_obj_set obj_get_spread_other obj_get_Cons)

lemma kept_entries:
  "\<forall>x\<in>set ls. json_image x = x \<Longrightarrow>
     map json_image (with_entry ls x) = drop (Suc (length ls) - 1000) ls @ [json_image x]"
  by (simp add: with_entry_facts(3) map_idI in_set_dropD)

text \<open>
  Claim C7, amended. The medium takes the writes of the log, and the stored log is an
  array of entries in the form that JSON writes (as every entry is that the program has
  written). Then every \<^verbatim>\<open>createUser\<close>, \<^verbatim>\<open>updateUser\<close> (of a user that exists) and
  \<^verbatim>\<open>deleteUser\<close> that returns leaves as stored log the previous one with the new entry
  at its end and with just enough of its oldest entries dropped to hold at most 1000: the
  entries kept are the most recent ones, unchanged and in their order. The new entry is
  stored in the form that JSON writes.
\<close>

theorem audit_log_keeps_the_most_recent_1000:
  assumes "accepts_key w LOGS_DATA" and "storage_get w LOGS_DATA (JArr []) = JArr ls"
    and "\<forall>x\<in>set ls. json_image x = x"
  shows "(fst (createUser e d w) = Inr u \<longrightarrow>
            storage_get (snd (createUser e d w)) LOGS_DATA (JArr [])
              = JArr (drop (Suc (length ls) - 1000) ls
                      @ [json_image (logEntry e (ticks w + 3) ''USER_CREATED''
                                       (arg_of (obj_get (newUser e w d) ''id'')) (cloned u))]))
       \<and> (fst (updateUser e i upd w) = Inr u' \<and> u' \<noteq> JNull \<longrightarrow>
            storage_get (snd (updateUser e i upd w)) LOGS_DATA (JArr [])
              = JArr (drop (Suc (length ls) - 1000) ls
                      @ [json_image (logEntry e (ticks w + 1) ''USER_UPDATED'' i (cloned u'))]))
       \<and> (fst (deleteUser e i w) = Inr True \<longrightarrow>
            (\<exists>deleted. storage_get (snd (deleteUser e i w)) LOGS_DATA (JArr [])
              = JArr (drop (Suc (length ls) - 1000) ls
                      @ [json_image (logEntry e (ticks w) ''USER_DELETED'' i (cloned deleted))])))
       \<and> length (drop (Suc (length ls) - 1000) ls @ [x]) \<le> 1000
       \<and> json_image (json_image x) = json_image x"
proof (intro conjI impI)
  assume c: "fst (createUser e d w) = Inr u"
  from createUser_Inr [OF c] obtain us where
    u: "u = JObj (newUser e w d)" and cl: "clonable (JObj (newUser e w d))"
    and us: "getUsers w = JArr us"
    by auto
  from createUser_step(6) [OF us assms(2) assms(1) cl]
  show "storage_get (snd (createUser e d w)) LOGS_DATA (JArr [])
              = JArr (drop (Suc (length ls) - 1000) ls
                      @ [json_image (logEntry e (ticks w + 3) ''USER_CREATED''
                                       (arg_of (obj_get (newUser e w d) ''id'')) (cloned u))])"
    by (simp add: kept_entries [OF assms(3)] u)
next
  assume h: "fst (updateUser e i upd w) = Inr u' \<and> u' \<noteq> JNull"
  with updateUser_Inr_cases [of e i upd w u'] obtain us k where
    f: "getUsers w = JArr us" "findIndex (id_matches i) us = Inr (Some k)"
       "u' = JObj (updatedUser e w (us ! k) upd)" "clonable u'"
    by auto
  from updateUser_found(3) [OF f(1,2) assms(2) assms(1)] f(3,4)
  show "storage_get (snd (updateUser e i upd w)) LOGS_DATA (JArr [])
              = JArr (drop (Suc (length ls) - 1000) ls
                      @ [json_image (logEntry e (ticks w + 1) ''USER_UPDATED'' i (cloned u'))])"
    by (simp add: kept_entries [OF assms(3)])
next
  assume h: "fst (deleteUser e i w) = Inr True"
  with deleteUser_Inr_cases [of e i w True] obtain us k where
    f: "getUsers w = JArr us" "findIndex (id_matches i) us = Inr (Some k)" "clonable (us ! k)"
    by auto
  from deleteUser_found(3) [OF f(1,2) assms(2) assms(1) f(3)]
  show "\<exists>deleted. storage_get (snd (deleteUser e i w)) LOGS_DATA (JArr [])
              = JArr (drop (Suc (length ls) - 1000) ls
                      @ [json_image (logEntry e (ticks w) ''USER_DELETED'' i (cloned deleted))])"
    by (auto simp: kept_entries [OF assms(3)])
next
  show "length (drop (Suc (length ls) - 1000) ls @ [x]) \<le> 1000"
    by auto
next
  show "json_image (json_image x) = json_image x"
    by simp
qed

theorem audit_log_keeps_the_most_recent_1000_witness:
  "accepts_key full_log_world LOGS_DATA
   \<and> storage_get full_log_world LOGS_DATA (JArr []) = JArr (replicate 1000 JNull)
   \<and> fst (createUser sample_env (JObj [(''name'', JStr ''Eva'')]) full_log_world)
       = Inr (JObj (newUser sample_env full_log_world (JObj [(''name'', JStr ''Eva'')])))
   \<and> storage_get (snd (createUser sample_env (JObj [(''name'', JStr ''Eva'')]) full_log_world))
        LOGS_DATA (JArr [])
       = JArr (replicate 999 JNull
               @ [json_image (logEntry sample_env 3 ''USER_CREATED'' (ArgVal (JNum 8))
                    (cloned (JObj (newUser sample_env full_log_world (JObj [(''name'', JStr ''Eva'')])))))])
   \<and> fst (updateUser sample_env (ArgVal (JNum 3)) (JObj [(''name'', JStr ''Anna'')]) full_log_world)
       = Inr (JObj (updatedUser sample_env full_log_world
                      (JObj [(''id'', JNum 3), (''name'', JStr ''Ana'')]) (JObj [(''name'', JStr ''Anna'')])))
   \<and> storage_get (snd (updateUser sample_env (ArgVal (JNum 3)) (JObj [(''name'', JStr ''Anna'')])
                          full_log_world)) LOGS_DATA (JArr [])
       = JArr (replicate 999 JNull
               @ [json_image (logEntry sample_env 1 ''USER_UPDATED'' (ArgVal (JNum 3))
                    (cloned (JObj (updatedUser sample_env full_log_world
                      (JObj [(''id'', JNum 3), (''name'', JStr ''Ana'')]) (JObj [(''name'', JStr ''Anna'')])))))])
   \<and> fst (deleteUser sample_env (ArgVal (JNum 3)) full_log_world) = Inr True
   \<and> (\<exists>deleted. storage_get (snd (deleteUser sample_env (ArgVal (JNum 3)) full_log_world))
          LOGS_DATA (JArr [])
        = JArr (replicate 999 JNull
                @ [json_image (logEntry sample_env 0 ''USER_DELETED'' (ArgVal (JNum 3)) (cloned deleted))]))"
proof -
  let ?us = "[JObj [(''id'', JNum 3), (''name'', JStr ''Ana'')],
              JObj [(''id'', JNum 7), (''name'', JStr ''Luis'')]]"
  let ?d = "JObj [(''name'', JStr ''Eva'')]"
  let ?upd = "JObj [(''name'', JStr ''Anna'')]"
  have h1: "accepts_key full_log_world LOGS_DATA"
    by (simp add: accepts_key_def full_log_world_def)
  have h2: "storage_get full_log_world LOGS_DATA (JArr []) = JArr (replicate 1000 JNull)"
    by (simp add: storage_get_def full_log_world_def)
  have h3: "\<forall>x\<in>set (replicate 1000 JNull). json_image x = x"
    by simp
  have us: "getUsers full_log_world = JArr ?us"
    by (simp add: getUsers_def storage_get_def full_log_world_def storage_prefix_def
        USER_DATA_def LOGS_DATA_def)
  have t: "ticks full_log_world = 0" and n: "nextId full_log_world = 8"
    by (simp_all add: full_log_world_def)
  have cc: "clonable (JObj (newUser sample_env full_log_world ?d))"
    by code_simp
  have c: "fst (createUser sample_env ?d full_log_world)
             = Inr (JObj (newUser sample_env full_log_world ?d))"
    using createUser_step(1) [OF us h2, of sample_env ?d] cc by simp
  have cid: "arg_of (obj_get (newUser sample_env full_log_world ?d) ''id'') = ArgVal (JNum 8)"
    by (simp add: newUser_generated_id set_own_entries arg_of_def n)
  have f3: "findIndex (id_matches (ArgVal (JNum 3))) ?us = Inr (Some 0)"
    by (simp add: id_matches_def obj_get_def)
  have cu: "clonable (JObj (updatedUser sample_env full_log_world
                      (JObj [(''id'', JNum 3), (''name'', JStr ''Ana'')]) ?upd))"
    by code_simp
  have u: "fst (updateUser sample_env (ArgVal (JNum 3)) ?upd full_log_world)
             = Inr (JObj (updatedUser sample_env full_log_world
                      (JObj [(''id'', JNum 3), (''name'', JStr ''Ana'')]) ?upd))"
    using updateUser_found(1) [OF us f3 h2, of sample_env ?upd] cu by simp
  have d: "fst (deleteUser sample_env (ArgVal (JNum 3)) full_log_world) = Inr True"
    using deleteUser_found(1) [OF us f3 h2, of sample_env] by simp
  from audit_log_keeps_the_most_recent_1000 [OF h1 h2 h3, of sample_env ?d
      "JObj (newUser sample_env full_log_world ?d)" "ArgVal (JNum 3)" ?upd
      "JObj (updatedUser sample_env full_log_world (JObj [(''id'', JNum 3), (''name'', JStr ''Ana'')]) ?upd)"
      JNull]
    h1 h2 c u d
  show ?thesis
    by (simp add: t cid)
qed

lemma deleteUser_refused:
  assumes "\<forall>s v. \<not> accepts w s (storage_prefix @ LOGS_DATA) v"
  shows "storage_get (snd (deleteUser e i w)) LOGS_DATA x = storage_get w LOGS_DATA x"
proof -
  have "storage_get (snd (logUserAction e a j d (snd (storage_set w USER_DATA v)))) LOGS_DATA x
          = storage_get w LOGS_DATA x" for a j d v
    using assms by (simp add: logUserAction_refused storage_get_set_other)
  then show ?thesis
    by (auto simp: deleteUser_def Let_def split: jsval.splits sum.splits option.splits prod.splits)
       (metis snd_conv)+
qed

text \<open>
  The claim as stated fails when the medium refuses the write of the log, as it does when
  its quota is reached: \<^verbatim>\<open>deleteUser\<close> removes the user and returns true, the entry
  is lost, and a stored log of 1500 entries stays at 1500.
\<close>

theorem audit_log_refused_write_counterexample:
  "storage_get refusing_world LOGS_DATA (JArr []) = JArr (replicate 1500 JNull)
   \<and> fst (deleteUser sample_env (ArgVal (JNum 3)) refusing_world) = Inr True
   \<and> getUsers (snd (deleteUser sample_env (ArgVal (JNum 3)) refusing_world))
       = JArr [JObj [(''id'', JNum 7), (''name'', JStr ''Luis'')]]
   \<and> storage_get (snd (deleteUser sample_env (ArgVal (JNum 3)) refusing_world)) LOGS_DATA (JArr [])
       = JArr (replicate 1500 JNull)
   \<and> length (replicate 1500 JNull) = 1500"
proof -
  let ?us = "[JObj [(''id'', JNum 3), (''name'', JStr ''Ana'')],
              JObj [(''id'', JNum 7), (''name'', JStr ''Luis'')]]"
  have l: "storage_get refusing_world LOGS_DATA (JArr []) = JArr (replicate 1500 JNull)"
    by (simp add: storage_get_def refusing_world_def)
  have us: "getUsers refusing_world = JArr ?us"
    by (simp add: getUsers_def storage_get_def refusing_world_def storage_prefix_def
        USER_DATA_def LOGS_DATA_def)
  have f3: "findIndex (id_matches (ArgVal (JNum 3))) ?us = Inr (Some 0)"
    by (simp add: id_matches_def obj_get_def)
  have a: "accepts_key refusing_world USER_DATA"
    by (simp add: accepts_key_def refusing_world_def USER_DATA_def LOGS_DATA_def)
  have r: "\<forall>s v. \<not> accepts refusing_world s (storage_prefix @ LOGS_DATA) v"
    by (simp add: refusing_world_def)
  have d: "fst (deleteUser sample_env (ArgVal (JNum 3)) refusing_world) = Inr True"
    using deleteUser_found(1) [OF us f3 l, of sample_env] by simp
  have g: "getUsers (snd (deleteUser sample_env (ArgVal (JNum 3)) refusing_world))
       = JArr [JObj [(''id'', JNum 7), (''name'', JStr ''Luis'')]]"
    using deleteUser_found(2) [OF us f3 l a, of sample_env] by simp
  from l d g deleteUser_refused [OF r, of sample_env "ArgVal (JNum 3)" "JArr []"]
  show ?thesis by simp
qed

section \<open>Identifiers of created users\<close>

lemma index_prop_id [simp]: "index_prop xs ''id'' = None"
  by (simp add: index_prop_def is_index_def is_digit_def)

lemma id_json_image:
  "has_numeric_id u \<Longrightarrow> has_numeric_id (json_image u) \<and> id_of (json_image u) = id_of u"
  by (cases u)
     (auto simp: has_numeric_id_def id_of_def obj_get_json_image split: option.splits jsval.splits)

lemma ids_json_image:
  "list_all has_numeric_id us \<Longrightarrow>
     list_all has_numeric_id (map json_image us) \<and> map id_of (map json_image us) = map id_of us"
  by (induction us) (auto simp: id_json_image)

lemma one_more_than_max_id_json_image:
  "list_all has_numeric_id us \<Longrightarrow> one_more_than_max_id (map json_image us) = one_more_than_max_id us"
  using ids_json_image [of us] by (simp add: one_more_than_max_id_def)

lemma map_err_ids:
  "list_all has_numeric_id us \<Longrightarrow>
     map_err (\<lambda>u. get_prop u ''id'') us = Inr (map (\<lambda>u. Some (JNum (id_of u))) us)"
  by (induction us)
     (auto simp: has_numeric_id_def id_of_def split: jsval.splits option.splits)

lemma map_err_numbers:
  "map_err number_of (map (\<lambda>u. Some (JNum (id_of u))) us) = Inr (map id_of us)"
  by (induction us) (auto simp: number_of_def)

lemma getNextUserId_numeric:
  assumes "getUsers w = JArr us" and "list_all has_numeric_id us"
  shows "getNextUserId w = Inr (if us = [] then 1 else plus_one (Max (set (map id_of us))))"
  using assms
  by (simp add: getNextUserId_def map_err_ids map_err_numbers)

lemma map_err_ids_Inr:
  "map_err (\<lambda>u. get_prop u ''id'') us = Inr vs \<Longrightarrow> map_err number_of vs = Inr ns
     \<Longrightarrow> list_all has_numeric_id us"
proof (induction us arbitrary: vs ns)
  case Nil
  then show ?case by simp
next
  case (Cons u us)
  from Cons.prems(1) obtain v vs' where
    v: "get_prop u ''id'' = Inr v" "map_err (\<lambda>u. get_prop u ''id'') us = Inr vs'" "vs = v # vs'"
    by (auto split: sum.splits)
  from Cons.prems(2) v(3) obtain n ns' where
    n: "number_of v = Inr n" "map_err number_of vs' = Inr ns'"
    by (auto split: sum.splits)
  from v(1) n(1) have "has_numeric_id u"
    by (cases u)
       (auto simp: has_numeric_id_def number_of_def inherited_def split: option.splits jsval.splits if_splits)
  with Cons.IH [OF v(2) n(2)] show ?case by simp
qed

lemma getNextUserId_array:
  assumes "getUsers w = JArr us" and "getNextUserId w = Inr n"
  shows "list_all has_numeric_id us"
    and "n = (if us = [] then 1 else plus_one (Max (set (map id_of us))))"
proof -
  show num: "list_all has_numeric_id us"
  proof (cases "us = []")
    case True
    then show ?thesis by simp
  next
    case False
    with assms obtain vs ns where
      "map_err (\<lambda>u. get_prop u ''id'') us = Inr vs" "map_err number_of vs = Inr ns"
      by (auto simp: getNextUserId_def split: sum.splits)
    then show ?thesis
      by (rule map_err_ids_Inr)
  qed
  from getNextUserId_numeric [OF assms(1) num] assms(2)
  show "n = (if us = [] then 1 else plus_one (Max (set (map id_of us))))"
    by simp
qed

lemma one_more_than_max_id_snoc:
  assumes "id_of u = one_more_than_max_id us"
  shows "one_more_than_max_id (us @ [u]) = one_more_than_max_id us + 1"
proof (cases "us = []")
  case True
  with assms show ?thesis by (simp add: one_more_than_max_id_def)
next
  case False
  then have "Max (insert (id_of u) (set (map id_of us))) = max (id_of u) (Max (set (map id_of us)))"
    by (intro Max_insert) auto
  with assms False show ?thesis
    by (simp add: one_more_than_max_id_def)
qed

lemma set_assign_all: "set (assign_all a b) \<subseteq> set a \<union> set b"
proof (induction a b rule: assign_all.induct)
  case (1 a)
  then show ?case by simp
next
  case (2 a k v b)
  with set_obj_set [of a k v] show ?case by auto
qed

lemma clonable_entries:
  "clonable (JObj ob) = (\<forall>kv\<in>set ob. fst kv \<noteq> ''hasOwnProperty'' \<and> clonable (snd kv))"
  by force

lemma clonable_obj_set:
  "clonable (JObj ob) \<Longrightarrow> k \<noteq> ''hasOwnProperty'' \<Longrightarrow> clonable v \<Longrightarrow> clonable (JObj (obj_set ob k v))"
  unfolding clonable_entries using set_obj_set [of ob k v] by fastforce

lemma clonable_spread:
  assumes "clonable (JObj a)"
    and "\<forall>kv\<in>set (entries_of b). fst kv \<noteq> ''hasOwnProperty'' \<and> clonable (snd kv)"
  shows "clonable (JObj (spread a b))"
  unfolding clonable_entries spread_def
  using assms set_assign_all [of a "entries_of b"] unfolding clonable_entries by blast

lemma clonable_newUser:
  assumes "\<forall>kv\<in>set (entries_of d). fst kv \<noteq> ''hasOwnProperty'' \<and> clonable (snd kv)"
  shows "clonable (JObj (newUser e w d))"
proof -
  have "clonable (JObj [(''id'', JNum (nextId w))])"
    by simp
  from clonable_spread [OF this assms] show ?thesis
    unfolding newUser_def by (intro clonable_obj_set) simp_all
qed

text \<open>
  The data of a call that the property is about: no property named \<^verbatim>\<open>id\<close>, which
  would replace the generated identifier, and nothing that makes the clone of the audit
  entry throw.
\<close>

lemma createUser_calls_ids:
  assumes "accepts_key w USER_DATA" and "getUsers w = JArr us" and "list_all has_numeric_id us"
    and "nextId w = one_more_than_max_id us"
    and "- (2 ^ 53) \<le> one_more_than_max_id us"
    and "one_more_than_max_id us + int (length ds) \<le> 2 ^ 53"
    and "storage_get w LOGS_DATA (JArr []) = JArr ls"
    and "\<forall>d\<in>set ds. \<forall>kv\<in>set (entries_of d).
           fst kv \<noteq> ''id'' \<and> fst kv \<noteq> ''hasOwnProperty'' \<and> clonable (snd kv)"
  shows "list_all call_ok (createUser_calls e ds w)
       \<and> map (\<lambda>c. returned_id (snd c)) (createUser_calls e ds w)
           = map (\<lambda>j. Some (nextId w + int j)) [0..<length ds]"
  using assms
proof (induction ds arbitrary: w us ls)
  case Nil
  then show ?case by simp
next
  case (Cons d ds)
  let ?u = "JObj (newUser e w d)"
  let ?w' = "snd (createUser e d w)"
  have data: "\<forall>kv\<in>set (entries_of d). fst kv \<noteq> ''id'' \<and> fst kv \<noteq> ''hasOwnProperty'' \<and> clonable (snd kv)"
    using Cons.prems(8) by simp
  then have cl: "clonable ?u"
    by (intro clonable_newUser) blast
  note step = createUser_step [OF Cons.prems(2,7), of e d]
  have "''id'' \<notin> fst ` set (entries_of d)"
    using data by force
  then have idu: "obj_get (newUser e w d) ''id'' = Some (JNum (nextId w))"
    by (simp add: newUser_generated_id)
  then have id_of: "id_of ?u = one_more_than_max_id us" and num: "has_numeric_id ?u"
    using Cons.prems(4) by (simp_all add: id_of_def has_numeric_id_def)
  have ret: "returned_id (fst (createUser e d w)) = Some (nextId w)"
    using step(1) cl idu by (simp add: returned_id_def)
  obtain ls' where ls': "storage_get ?w' LOGS_DATA (JArr []) = JArr ls'"
    using step(5) by blast
  have acc: "accepts_key ?w' USER_DATA"
    using Cons.prems(1) step(4) by (simp add: accepts_key_def)
  have users: "getUsers ?w' = JArr (map json_image (us @ [?u]))"
    using step(2) [OF Cons.prems(1)] .
  have all: "list_all has_numeric_id (us @ [?u])"
    using Cons.prems(3) num by simp
  have next_exact: "plus_one (nextId w) = nextId w + 1"
    using Cons.prems(4,5,6) by (intro plus_one_exact) simp_all
  have more: "one_more_than_max_id (map json_image (us @ [?u])) = one_more_than_max_id us + 1"
    using one_more_than_max_id_json_image [OF all] one_more_than_max_id_snoc [OF id_of] by simp
  have inv: "list_all has_numeric_id (map json_image (us @ [?u]))"
    "nextId ?w' = one_more_than_max_id (map json_image (us @ [?u]))"
    "- (2 ^ 53) \<le> one_more_than_max_id (map json_image (us @ [?u]))"
    "one_more_than_max_id (map json_image (us @ [?u])) + int (length ds) \<le> 2 ^ 53"
    using ids_json_image [OF all] step(3) next_exact more Cons.prems(4,5,6) by simp_all
  have rest: "\<forall>d\<in>set ds. \<forall>kv\<in>set (entries_of d).
           fst kv \<noteq> ''id'' \<and> fst kv \<noteq> ''hasOwnProperty'' \<and> clonable (snd kv)"
    using Cons.prems(8) by simp
  note ih = Cons.IH [OF acc users inv ls' rest]
  have "map (\<lambda>j. Some (nextId w + int j)) [0..<length (d # ds)]
      = Some (nextId w) # map (\<lambda>j. Some (nextId ?w' + int j)) [0..<length ds]"
    by (simp add: step(3) next_exact upt_conv_Cons map_Suc_upt [symmetric] del: upt_Suc)
  then show ?case
    using ih ret Cons.prems(2,4) by (simp add: call_ok_def)
qed

lemma UserStorage_Inr:
  assumes "UserStorage w0 = Inr w" and "getUsers w = JArr us"
  shows "list_all has_numeric_id us"
    and "nextId w = (if us = [] then 1 else plus_one (Max (set (map id_of us))))"
proof -
  from assms(1) obtain n where n: "getNextUserId (initializeStorage w0) = Inr n"
    and w: "w = (initializeStorage w0)\<lparr>nextId := n\<rparr>"
    by (auto simp: UserStorage_def Let_def split: sum.splits)
  have "getUsers (initializeStorage w0) = JArr us"
    using assms(2) by (simp add: w getUsers_def)
  from getNextUserId_array [OF this n]
  show "list_all has_numeric_id us"
    and "nextId w = (if us = [] then 1 else plus_one (Max (set (map id_of us))))"
    by (simp_all add: w)
qed

text \<open>
  Claim C1, amended. The repository is constructed over a stored array of user records
  whose identifiers are integers (its counter is then one more than the greatest of them,
  or 1 for the empty array), the medium takes the writes of the collection and the stored
  log is an array. The data of the calls carry no \<^verbatim>\<open>id\<close>, and nothing that makes the
  clone of the audit entry throw (a property named \<^verbatim>\<open>hasOwnProperty\<close>, there or in
  an object inside). The identifiers stay where the successor of a number is exact: the
  first to return is not below \<open>-2^53\<close> and the last is below \<open>2^53\<close>. Then each call
  of the sequence returns a user whose identifier is one more than the greatest identifier
  in the collection before that call (1 for the empty collection), and the identifiers
  returned are consecutive, hence strictly increasing.
\<close>

theorem createUser_ids_without_supplied_id:
  assumes "UserStorage w0 = Inr w" and "accepts_key w USER_DATA" and "getUsers w = JArr us"
    and "storage_get w LOGS_DATA (JArr []) = JArr ls"
    and "\<forall>d\<in>set ds. \<forall>kv\<in>set (entries_of d).
           fst kv \<noteq> ''id'' \<and> fst kv \<noteq> ''hasOwnProperty'' \<and> clonable (snd kv)"
    and "- (2 ^ 53) \<le> one_more_than_max_id us"
    and "one_more_than_max_id us + int (length ds) \<le> 2 ^ 53"
  shows "list_all call_ok (createUser_calls e ds w)
       \<and> map (\<lambda>c. returned_id (snd c)) (createUser_calls e ds w)
           = map (\<lambda>j. Some (one_more_than_max_id us + int j)) [0..<length ds]
       \<and> (\<forall>a b. a < b \<and> b < length ds \<longrightarrow>
            (\<exists>x y. returned_id (snd (createUser_calls e ds w ! a)) = Some x
                 \<and> returned_id (snd (createUser_calls e ds w ! b)) = Some y \<and> x < y))"
proof -
  note c = UserStorage_Inr [OF assms(1,3)]
  define m where "m = Max (set (map id_of us))"
  have "plus_one m = m + 1" if "us \<noteq> []"
  proof -
    have "one_more_than_max_id us = m + 1"
      using that by (simp add: one_more_than_max_id_def m_def)
    with assms(6,7) have "- (2 ^ 53) \<le> m + 1" and "m + 1 \<le> 2 ^ 53"
      by linarith+
    then show ?thesis by (rule plus_one_exact)
  qed
  with c(2) have nx: "nextId w = one_more_than_max_id us"
    by (simp add: one_more_than_max_id_def m_def)
  note ids = createUser_calls_ids [OF assms(2,3) c(1) nx assms(6,7,4,5), of e]
  then have m: "map (\<lambda>c. returned_id (snd c)) (createUser_calls e ds w)
           = map (\<lambda>j. Some (one_more_than_max_id us + int j)) [0..<length ds]"
    by (simp add: nx)
  then have len: "length (createUser_calls e ds w) = length ds"
    by (metis length_map length_upt diff_zero)
  have "\<exists>x y. returned_id (snd (createUser_calls e ds w ! a)) = Some x
                 \<and> returned_id (snd (createUser_calls e ds w ! b)) = Some y \<and> x < y"
    if "a < b" "b < length ds" for a b
  proof -
    have "returned_id (snd (createUser_calls e ds w ! j)) = Some (one_more_than_max_id us + int j)"
      if "j < length ds" for j
      using that len nth_map [of j "createUser_calls e ds w" "\<lambda>c. returned_id (snd c)"] m
      by simp
    from this [of a] this [of b] that show ?thesis by simp
  qed
  with ids m show ?thesis by blast
qed

theorem createUser_ids_without_supplied_id_witness:
  "UserStorage (stored_world\<lparr>nextId := 0\<rparr>) = Inr stored_world
   \<and> accepts_key stored_world USER_DATA
   \<and> storage_get stored_world LOGS_DATA (JArr []) = JArr []
   \<and> one_more_than_max_id
        [JObj [(''id'', JNum 3), (''name'', JStr ''Ana''), (''email'', JStr ''ana@demo.com''),
               (''status'', JStr ''active''),
               (''createdAt'', JStr ''2023-01-01T00:00:00.000Z''),
               (''updatedAt'', JStr ''2023-01-01T00:00:00.000Z'')],
         JObj [(''id'', JNum 7), (''name'', JStr ''Luis''), (''email'', JStr ''luis@demo.com''),
               (''status'', JStr ''inactive'')]] = 8
   \<and> map (\<lambda>c. returned_id (snd c))
        (createUser_calls sample_env [JObj [(''name'', JStr ''Eva'')], JObj [(''name'', JStr ''Teo'')]]
           stored_world) = [Some 8, Some 9]"
proof -
  let ?us = "[JObj [(''id'', JNum 3), (''name'', JStr ''Ana''), (''email'', JStr ''ana@demo.com''),
                             (''status'', JStr ''active''),
                             (''createdAt'', JStr ''2023-01-01T00:00:00.000Z''),
                             (''updatedAt'', JStr ''2023-01-01T00:00:00.000Z'')],
                       JObj [(''id'', JNum 7), (''name'', JStr ''Luis''), (''email'', JStr ''luis@demo.com''),
                             (''status'', JStr ''inactive'')]]"
  have p: "plus_one 7 = 8"
    by code_simp
  have h1: "UserStorage (stored_world\<lparr>nextId := 0\<rparr>) = Inr stored_world"
    by (simp add: UserStorage_def initializeStorage_def getNextUserId_def getUsers_def
        storage_get_def stored_world_def obj_get_def number_of_def p)
  have h2: "accepts_key stored_world USER_DATA"
    by (simp add: accepts_key_def stored_world_def)
  have h3: "getUsers stored_world = JArr ?us"
    by (simp add: getUsers_def storage_get_def stored_world_def)
  have h4: "storage_get stored_world LOGS_DATA (JArr []) = JArr []"
    by (simp add: storage_get_def stored_world_def storage_prefix_def USER_DATA_def LOGS_DATA_def)
  have h5: "\<forall>d\<in>set [JObj [(''name'', JStr ''Eva'')], JObj [(''name'', JStr ''Teo'')]].
              \<forall>kv\<in>set (entries_of d).
                fst kv \<noteq> ''id'' \<and> fst kv \<noteq> ''hasOwnProperty'' \<and> clonable (snd kv)"
    by (simp add: set_own_entries)
  have m: "one_more_than_max_id ?us = 8"
    by (simp add: one_more_than_max_id_def id_of_def obj_get_def)
  have h6: "- (2 ^ 53) \<le> one_more_than_max_id ?us"
    and h7: "one_more_than_max_id ?us
               + int (length [JObj [(''name'', JStr ''Eva'')], JObj [(''name'', JStr ''Teo'')]]) \<le> 2 ^ 53"
    by (simp_all add: m)
  from createUser_ids_without_supplied_id [OF h1 h2 h3 h4 h5 h6 h7, of sample_env] h1 h2 h4 m
  show ?thesis
    by (simp add: upt_rec)
qed

text \<open>
  The claim as stated fails when the data carry an \<^verbatim>\<open>id\<close>: on the empty collection a
  call with \<^verbatim>\<open>id: 5\<close> returns 5 and not 1, and the next call returns 2, which is
  neither greater than 5 nor one more than the greatest stored identifier (6).
\<close>

theorem createUser_supplied_id_counterexample:
  "getNextUserId empty_world = Inr (nextId empty_world)
   \<and> createUser_calls sample_env
        [JObj [(''id'', JNum 5), (''name'', JStr ''Eva'')], JObj [(''name'', JStr ''Teo'')]] empty_world
     = [(JArr [],
         Inr (JObj [(''id'', JNum 5), (''name'', JStr ''Eva''), (''registeredDate'', JStr ''2023-11-14''),
                    (''lastLogin'', JNull), (''createdAt'', JStr ''2023-11-14T22:13:20.001Z''),
                    (''updatedAt'', JStr ''2023-11-14T22:13:20.002Z'')])),
        (JArr [JObj [(''id'', JNum 5), (''name'', JStr ''Eva''), (''registeredDate'', JStr ''2023-11-14''),
                    (''lastLogin'', JNull), (''createdAt'', JStr ''2023-11-14T22:13:20.001Z''),
                    (''updatedAt'', JStr ''2023-11-14T22:13:20.002Z'')]],
         Inr (JObj [(''id'', JNum 2), (''name'', JStr ''Teo''), (''registeredDate'', JStr ''2023-11-14''),
                    (''lastLogin'', JNull), (''createdAt'', JStr ''2023-11-14T22:13:20.006Z''),
                    (''updatedAt'', JStr ''2023-11-14T22:13:20.007Z'')]))]
   \<and> one_more_than_max_id [] = 1
   \<and> one_more_than_max_id [JObj [(''id'', JNum 5), (''name'', JStr ''Eva''), (''registeredDate'', JStr ''2023-11-14''),
                    (''lastLogin'', JNull), (''createdAt'', JStr ''2023-11-14T22:13:20.001Z''),
                    (''updatedAt'', JStr ''2023-11-14T22:13:20.002Z'')]] = 6"
  by code_simp

text \<open>
  Two more ways in which the claim as stated fails, outside of the conditions above. From
  the identifier \<open>2^53\<close> on the successor is not exact: the repository constructed over
  a user with that identifier returns \<open>2^53\<close> again, twice. And for data with a property
  named \<^verbatim>\<open>hasOwnProperty\<close> the call throws, after it has stored the user.
\<close>

lemma createUser_at_2_to_53:
  "getNextUserId big_id_world = Inr (nextId big_id_world)
   \<and> nextId big_id_world = 2 ^ 53
   \<and> map (\<lambda>c. returned_id (snd c))
        (createUser_calls sample_env [JObj [(''name'', JStr ''Eva'')], JObj [(''name'', JStr ''Teo'')]]
           big_id_world) = [Some 9007199254740992, Some 9007199254740992]"
  by code_simp

lemma createUser_hasOwnProperty_throws:
  "fst (createUser sample_env (JObj [(''name'', JStr ''Eva''), (''hasOwnProperty'', JNum 1)]) empty_world)
     = Inl TypeError
   \<and> getUsers (snd (createUser sample_env
                      (JObj [(''name'', JStr ''Eva''), (''hasOwnProperty'', JNum 1)]) empty_world))
     = JArr [JObj [(''id'', JNum 1), (''name'', JStr ''Eva''), (''hasOwnProperty'', JNum 1),
                   (''registeredDate'', JStr ''2023-11-14''), (''lastLogin'', JNull),
                   (''createdAt'', JStr ''2023-11-14T22:13:20.001Z''),
                   (''updatedAt'', JStr ''2023-11-14T22:13:20.002Z'')]]"
  by code_simp

section \<open>Updating a user\<close>






text \<open>
  Outside of the conditions of the property: an update that names
  \<^verbatim>\<open>hasOwnProperty\<close> is persisted, and then the call throws.
\<close>

lemma updateUser_hasOwnProperty_throws:
  "fst (updateUser sample_env (ArgVal (JNum 3)) (JObj [(''hasOwnProperty'', JNum 1)]) stamped_world)
     = Inl TypeError
   \<and> getUsers (snd (updateUser sample_env (ArgVal (JNum 3)) (JObj [(''hasOwnProperty'', JNum 1)])
                      stamped_world))
     = JArr [JObj [(''id'', JNum 3), (''name'', JStr ''Ana''),
                   (''createdAt'', JStr ''2023-01-01T00:00:00.000Z''),
                   (''updatedAt'', JStr ''2023-11-14T22:13:20.000Z''), (''hasOwnProperty'', JNum 1)]]"
  by code_simp

section \<open>Requests without a session, and registration\<close>

text \<open>
  Claim C9. While \<^verbatim>\<open>isLoggedIn()\<close> is not truthy, the handler of the users, of the
  reports and of the metrics endpoints each fail with the 401 error
  \<^verbatim>\<open>Unauthorized\<close> and leave the whole world (user collection, audit log, session,
  counter, clock readings) as it was; so does \<^verbatim>\<open>processRequest\<close> for every request
  that it routes to one of them.
\<close>

theorem protected_endpoints_require_login:
  assumes "\<not> truthy_opt (isLoggedIn w)"
  shows "handleUsersRequest e method endpoint data w = (Inl (APIError ''Unauthorized'' 401), w)
       \<and> handleReportsRequest e method endpoint data w = (Inl (APIError ''Unauthorized'' 401), w)
       \<and> handleMetricsRequest e method endpoint data w = (Inl (APIError ''Unauthorized'' 401), w)
       \<and> (\<not> str_includes endpoint ''/auth/''
            \<and> (str_includes endpoint ''/users'' \<or> str_includes endpoint ''/reports''
                \<or> str_includes endpoint ''/metrics'') \<longrightarrow>
          processRequest e method endpoint data w = (Inl (APIError ''Unauthorized'' 401), w))"
  using assms
  by (simp add: handleUsersRequest_def handleReportsRequest_def handleMetricsRequest_def
      processRequest_def)

theorem protected_endpoints_require_login_witness:
  "\<not> truthy_opt (isLoggedIn empty_world)
   \<and> \<not> str_includes ''/api/users/7'' ''/auth/''
   \<and> str_includes ''/api/users/7'' ''/users''
   \<and> processRequest sample_env ''DELETE'' ''/api/users/7'' JNull empty_world
       = (Inl (APIError ''Unauthorized'' 401), empty_world)
   \<and> handleMetricsRequest sample_env ''GET'' METRICS_USERS JNull empty_world
       = (Inl (APIError ''Unauthorized'' 401), empty_world)"
proof -
  have h: "\<not> truthy_opt (isLoggedIn empty_world)"
    by (simp add: isLoggedIn_def storage_get_def empty_world_def storage_prefix_def
        SESSION_DATA_def USER_DATA_def)
  have a: "\<not> str_includes ''/api/users/7'' ''/auth/''" and u: "str_includes ''/api/users/7'' ''/users''"
    by simp_all
  from protected_endpoints_require_login [OF h, of sample_env "''DELETE''" "''/api/users/7''" JNull]
    protected_endpoints_require_login [OF h, of sample_env "''GET''" METRICS_USERS JNull] h a u
  show ?thesis by blast
qed

text \<open>
  Claim C2. \<^verbatim>\<open>register\<close> with an email that no stored user has creates the user and
  answers with it, but writes no session: afterwards there is no current user and
  \<^verbatim>\<open>isLoggedIn()\<close> is null, so that the next request to a users endpoint fails with
  \<^verbatim>\<open>Unauthorized\<close>. (\<^verbatim>\<open>login\<close> does call \<^verbatim>\<open>setCurrentUser\<close>.)
\<close>

theorem register_creates_no_session:
  "fst (API_register sample_env
          (JObj [(''name'', JStr ''Eva''), (''email'', JStr ''eva@demo.com''), (''password'', JStr ''Secret1'')])
          stored_world)
     = Inr (envelope (Some SUCCESS_USER_CREATED)
         (Some (JObj [(''user'',
            JObj [(''id'', JNum 8), (''name'', JStr ''Eva''), (''email'', JStr ''eva@demo.com''),
                  (''password'', JStr ''Secret1''), (''status'', JStr ''active''),
                  (''registeredDate'', JStr ''2023-11-14''), (''lastLogin'', JNull),
                  (''createdAt'', JStr ''2023-11-14T22:13:20.001Z''),
                  (''updatedAt'', JStr ''2023-11-14T22:13:20.002Z'')])])))
   \<and> getCurrentUser (snd (API_register sample_env
          (JObj [(''name'', JStr ''Eva''), (''email'', JStr ''eva@demo.com''), (''password'', JStr ''Secret1'')])
          stored_world)) = Some JNull
   \<and> isLoggedIn (snd (API_register sample_env
          (JObj [(''name'', JStr ''Eva''), (''email'', JStr ''eva@demo.com''), (''password'', JStr ''Secret1'')])
          stored_world)) = Some JNull
   \<and> fst (processRequest sample_env ''GET'' ''/api/users'' JNull (snd (API_register sample_env
          (JObj [(''name'', JStr ''Eva''), (''email'', JStr ''eva@demo.com''), (''password'', JStr ''Secret1'')])
          stored_world))) = Inl (APIError ''Unauthorized'' 401)"
  by code_simp

lemma register_with_a_stored_email:
  assumes "get_prop d ''email'' = Inr email" and "getUserByEmail w email = Inr u" and "truthy u"
  shows "API_register e d w = (Inl (APIError ERROR_USER_EXISTS 409), w)"
  using assms by (simp add: API_register_def)

lemma register_leaves_session_keys:
  "items (snd (API_register e d w)) (storage_prefix @ CURRENT_USER) = items w (storage_prefix @ CURRENT_USER)
   \<and> items (snd (API_register e d w)) (storage_prefix @ SESSION_DATA) = items w (storage_prefix @ SESSION_DATA)"
  by (auto simp: API_register_def createUser_def logUserAction_def storage_set_def Let_def
      storage_prefix_def CURRENT_USER_def SESSION_DATA_def USER_DATA_def LOGS_DATA_def
      split: sum.splits jsval.splits prod.splits option.splits if_splits)

section \<open>Expiry of the session\<close>

text \<open>
  Claim C4, amended. \<^verbatim>\<open>isSessionExpired(timeoutMinutes)\<close> is true when there is no
  session record. When there is one, its \<^verbatim>\<open>lastActivity\<close> is made a date (the call
  throws when that throws); the result is false when the date is invalid, and otherwise it
  tells whether the minutes from \<^verbatim>\<open>lastActivity\<close> to the clock reading, a quotient
  rounded to binary64, exceed the number that the timeout stands for. For a timeout that is
  a whole number of minutes below \<open>2^37\<close> in magnitude, 30 when the call gives none,
  the rounding changes nothing: the result is true exactly when the milliseconds exceed
  60000 times the timeout, and false at exactly the timeout.
\<close>

theorem isSessionExpired_exactly_beyond_timeout:
  "(\<not> truthy (storage_get w CURRENT_USER JNull) \<longrightarrow>
      fst (isSessionExpired e timeoutMinutes w) = Inr True)
   \<and> (truthy (storage_get w CURRENT_USER JNull) \<and> timeout_number timeoutMinutes = Inr x \<longrightarrow>
        (case to_time e (prop_of (storage_get w CURRENT_USER JNull) ''lastActivity'') of
           Inl err \<Rightarrow> fst (isSessionExpired e timeoutMinutes w) = Inl err
         | Inr None \<Rightarrow> fst (isSessionExpired e timeoutMinutes w) = Inr False
         | Inr (Some lastActivity) \<Rightarrow>
             fst (isSessionExpired e timeoutMinutes w)
               = Inr (exceeds (diffMinutes (clock e (ticks w)) lastActivity) x)))
   \<and> (truthy (storage_get w CURRENT_USER JNull) \<and> \<bar>T\<bar> < 2 ^ 37
        \<and> (timeoutMinutes = ArgVal (JNum T) \<or> timeoutMinutes = ArgUndefined \<and> T = 30) \<longrightarrow>
        (case to_time e (prop_of (storage_get w CURRENT_USER JNull) ''lastActivity'') of
           Inl err \<Rightarrow> fst (isSessionExpired e timeoutMinutes w) = Inl err
         | Inr None \<Rightarrow> fst (isSessionExpired e timeoutMinutes w) = Inr False
         | Inr (Some lastActivity) \<Rightarrow>
             fst (isSessionExpired e timeoutMinutes w)
               = Inr (60000 * T < clock e (ticks w) - lastActivity)))"
proof (intro conjI impI)
  assume "\<not> truthy (storage_get w CURRENT_USER JNull)"
  then show "fst (isSessionExpired e timeoutMinutes w) = Inr True"
    by (simp add: isSessionExpired_def)
next
  assume "truthy (storage_get w CURRENT_USER JNull) \<and> timeout_number timeoutMinutes = Inr x"
  then show "case to_time e (prop_of (storage_get w CURRENT_USER JNull) ''lastActivity'') of
           Inl err \<Rightarrow> fst (isSessionExpired e timeoutMinutes w) = Inl err
         | Inr None \<Rightarrow> fst (isSessionExpired e timeoutMinutes w) = Inr False
         | Inr (Some lastActivity) \<Rightarrow>
             fst (isSessionExpired e timeoutMinutes w)
               = Inr (exceeds (diffMinutes (clock e (ticks w)) lastActivity) x)"
    by (simp add: isSessionExpired_def Let_def split: sum.splits option.splits)
next
  assume h: "truthy (storage_get w CURRENT_USER JNull) \<and> \<bar>T\<bar> < 2 ^ 37
        \<and> (timeoutMinutes = ArgVal (JNum T) \<or> timeoutMinutes = ArgUndefined \<and> T = 30)"
  then have n: "timeout_number timeoutMinutes = Inr (Finite (of_int T))"
    by auto
  have "exceeds (diffMinutes now t) (Finite (of_int T)) \<longleftrightarrow> 60000 * T < now - t" for now t
    using h diffMinutes_whole_timeout [of T now t] by simp
  with h n show "case to_time e (prop_of (storage_get w CURRENT_USER JNull) ''lastActivity'') of
           Inl err \<Rightarrow> fst (isSessionExpired e timeoutMinutes w) = Inl err
         | Inr None \<Rightarrow> fst (isSessionExpired e timeoutMinutes w) = Inr False
         | Inr (Some lastActivity) \<Rightarrow>
             fst (isSessionExpired e timeoutMinutes w)
               = Inr (60000 * T < clock e (ticks w) - lastActivity)"
    by (simp add: isSessionExpired_def Let_def split: sum.splits option.splits)
qed

theorem isSessionExpired_exactly_beyond_timeout_witness:
  "fst (isSessionExpired later_env ArgUndefined session_world) = Inr False
   \<and> fst (isSessionExpired later_env ArgUndefined (session_world\<lparr>ticks := 1\<rparr>)) = Inr True
   \<and> fst (isSessionExpired later_env (ArgVal (JNum 15)) empty_world) = Inr True
   \<and> fst (isSessionExpired later_env (ArgVal (JReal PositiveInfinity)) session_world) = Inr False"
proof -
  have s: "truthy (storage_get session_world CURRENT_USER JNull)"
    "storage_get (session_world\<lparr>ticks := 1\<rparr>) CURRENT_USER JNull = storage_get session_world CURRENT_USER JNull"
    by (simp_all add: storage_get_def session_world_def)
  have t: "to_time later_env (prop_of (storage_get session_world CURRENT_USER JNull) ''lastActivity'')
             = Inr (Some 1700000000000)"
    by code_simp
  have n: "\<not> truthy (storage_get empty_world CURRENT_USER JNull)"
    by (simp add: storage_get_def empty_world_def storage_prefix_def CURRENT_USER_def USER_DATA_def)
  have c: "clock later_env (ticks session_world) = 1700001800000"
    "clock later_env (ticks (session_world\<lparr>ticks := 1\<rparr>)) = 1700001800001"
    by (simp_all add: later_env_def session_world_def)
  from isSessionExpired_exactly_beyond_timeout [of session_world later_env ArgUndefined NotANumber 30]
    isSessionExpired_exactly_beyond_timeout [of "session_world\<lparr>ticks := 1\<rparr>" later_env ArgUndefined NotANumber 30]
    isSessionExpired_exactly_beyond_timeout [of empty_world later_env "ArgVal (JNum 15)" "Finite 15" 15]
    isSessionExpired_exactly_beyond_timeout [of session_world later_env "ArgVal (JReal PositiveInfinity)" PositiveInfinity 0]
    s t n c
  show ?thesis by simp
qed

text \<open>
  The claim as stated fails where the rounding matters. \<open>2^38 * 60000 + 1\<close>
  milliseconds after the last activity, the minutes exceed a timeout of \<open>2^38\<close>, but the
  difference is rounded to \<open>2^38 * 60000\<close> and the session is not expired. And 18
  seconds after the last activity, the minutes are three tenths and exceed the
  binary64 number nearest to 0.3, which is smaller; but the quotient is rounded to that
  very number, and the session is not expired for that timeout.
\<close>

theorem isSessionExpired_rounding_counterexample:
  "to_time far_env (prop_of (storage_get old_session_world CURRENT_USER JNull) ''lastActivity'')
     = Inr (Some (- 8292674416640001))
   \<and> clock far_env (ticks old_session_world) - (- 8292674416640001) = 2 ^ 38 * 60000 + 1
   \<and> (274877906944::int) = 2 ^ 38
   \<and> (274877906944::rat) < (2 ^ 38 * 60000 + 1) / 60000
   \<and> fst (isSessionExpired far_env (ArgVal (JNum 274877906944)) old_session_world) = Inr False
   \<and> to_time seconds_later_env (prop_of (storage_get session_world CURRENT_USER JNull) ''lastActivity'')
     = Inr (Some 1700000000000)
   \<and> clock seconds_later_env (ticks session_world) - 1700000000000 = 18000
   \<and> round_double (3 / 10) = 5404319552844595 / 18014398509481984
   \<and> (5404319552844595 / 18014398509481984 :: rat) < 18000 / 60000
   \<and> fst (isSessionExpired seconds_later_env
             (ArgVal (JReal (Finite (5404319552844595 / 18014398509481984)))) session_world)
     = Inr False"
  by code_simp

section \<open>Backup and restore\<close>

lemma backup_entries_agree:
  assumes "\<forall>(k, v)\<in>set data. items w (storage_prefix @ k) = Some v \<and> (k \<noteq> BACKUP_DATA \<longrightarrow> json_image v = v)"
    and "\<forall>key\<in>set keys. key \<noteq> BACKUP_DATA \<longrightarrow>
           json_image (storage_get w key JNull) = storage_get w key JNull"
  shows "\<forall>(k, v)\<in>set (backup_entries w keys data).
           items w (storage_prefix @ k) = Some v \<and> (k \<noteq> BACKUP_DATA \<longrightarrow> json_image v = v)"
  using assms
proof (induction keys arbitrary: data)
  case Nil
  then show ?case by simp
next
  case (Cons key keys)
  have rest: "\<forall>key\<in>set keys. key \<noteq> BACKUP_DATA \<longrightarrow>
           json_image (storage_get w key JNull) = storage_get w key JNull"
    using Cons.prems(2) by simp
  show ?case
  proof (cases "storage_get w key JNull = JNull")
    case True
    with Cons.IH [OF Cons.prems(1) rest] show ?thesis by (simp add: Let_def)
  next
    case False
    then have "items w (storage_prefix @ key) = Some (storage_get w key JNull)"
      by (auto simp: storage_get_def split: option.splits)
    moreover have "key \<noteq> BACKUP_DATA \<longrightarrow> json_image (storage_get w key JNull) = storage_get w key JNull"
      using Cons.prems(2) by simp
    ultimately have "\<forall>(k, v)\<in>set (obj_set data key (storage_get w key JNull)).
           items w (storage_prefix @ k) = Some v \<and> (k \<noteq> BACKUP_DATA \<longrightarrow> json_image v = v)"
      using Cons.prems(1) set_obj_set [of data key "storage_get w key JNull"] by auto
    from Cons.IH [OF this rest] False show ?thesis by (simp add: Let_def)
  qed
qed

lemma storage_set_present:
  "items w (storage_prefix @ k) = Some v \<Longrightarrow> json_image v = v \<Longrightarrow> snd (storage_set w k v) = w"
  by (simp add: storage_set_def fun_upd_idem)

lemma restore_entries_present:
  "\<forall>(k, v)\<in>set kvs. k \<noteq> BACKUP_DATA \<longrightarrow> items w (storage_prefix @ k) = Some v \<and> json_image v = v
     \<Longrightarrow> restore_entries kvs w = w"
  by (induction kvs) (auto simp: storage_set_present)

lemma createBackup_items:
  "k \<noteq> BACKUP_DATA \<Longrightarrow>
     items (snd (createBackup e w)) (storage_prefix @ k) = items w (storage_prefix @ k)"
  by (simp add: createBackup_def Let_def storage_set_def)

text \<open>
  Claim C5, amended. When the value stored under each key of the program other than the
  backup key is one that JSON writes and reads back unchanged (it holds no infinity and
  no negative zero, which a write turns into \<^verbatim>\<open>null\<close> and \<^verbatim>\<open>0\<close>),
  \<^verbatim>\<open>restoreBackup(createBackup())\<close> succeeds and leaves under every key other than the
  backup key the decoded value it had when \<^verbatim>\<open>createBackup\<close> was called, whether or not
  the medium takes the writes.
\<close>

theorem restoreBackup_of_createBackup_keeps_values:
  assumes "\<forall>key\<in>set STORAGE_KEYS. key \<noteq> BACKUP_DATA \<longrightarrow>
             json_image (storage_get w key JNull) = storage_get w key JNull"
  shows "fst (restoreBackup (fst (createBackup e w)) (snd (createBackup e w))) = True
   \<and> (\<forall>key d. key \<noteq> BACKUP_DATA \<longrightarrow>
         storage_get (snd (restoreBackup (fst (createBackup e w)) (snd (createBackup e w)))) key d
           = storage_get w key d)"
proof -
  let ?D = "backup_entries w STORAGE_KEYS []"
  let ?doc = "fst (createBackup e w)"
  let ?w1 = "snd (createBackup e w)"
  have doc: "?doc = JObj [(''version'', JStr ''1.0.0''),
                          (''timestamp'', JStr (toISOString (clock e (ticks w)))),
                          (''data'', JObj ?D)]"
    by (simp add: createBackup_def Let_def)
  have data: "prop_of ?doc ''data'' = Some (JObj ?D)"
    by (simp add: doc prop_of_def obj_get_def)
  have "\<forall>(k, v)\<in>set ?D. items w (storage_prefix @ k) = Some v \<and> (k \<noteq> BACKUP_DATA \<longrightarrow> json_image v = v)"
    by (rule backup_entries_agree) (use assms in simp_all)
  then have "\<forall>(k, v)\<in>set (own_entries ?D).
               k \<noteq> BACKUP_DATA \<longrightarrow> items ?w1 (storage_prefix @ k) = Some v \<and> json_image v = v"
    by (auto simp: set_own_entries createBackup_items)
  then have "restore_entries (own_entries ?D) ?w1 = ?w1"
    by (rule restore_entries_present)
  then have r: "restoreBackup ?doc ?w1 = (True, ?w1)"
    using data by (simp add: restoreBackup_def doc Let_def)
  have "storage_get ?w1 key d = storage_get w key d" if "key \<noteq> BACKUP_DATA" for key d
    using that by (simp add: storage_get_def createBackup_items)
  with r show ?thesis by simp
qed

theorem restoreBackup_of_createBackup_keeps_values_witness:
  "USER_DATA \<noteq> BACKUP_DATA \<and> LOGS_DATA \<noteq> BACKUP_DATA
   \<and> fst (restoreBackup (fst (createBackup sample_env stored_world)) (snd (createBackup sample_env stored_world)))
   \<and> storage_get (snd (restoreBackup (fst (createBackup sample_env stored_world))
                          (snd (createBackup sample_env stored_world)))) USER_DATA JNull
       = storage_get stored_world USER_DATA JNull
   \<and> storage_get (snd (restoreBackup (fst (createBackup sample_env stored_world))
                          (snd (createBackup sample_env stored_world)))) LOGS_DATA JNull
       = JNull"
proof -
  have k: "USER_DATA \<noteq> BACKUP_DATA" "LOGS_DATA \<noteq> BACKUP_DATA"
    by (simp_all add: USER_DATA_def BACKUP_DATA_def LOGS_DATA_def)
  have l: "storage_get stored_world LOGS_DATA JNull = JNull"
    by (simp add: storage_get_def stored_world_def storage_prefix_def USER_DATA_def LOGS_DATA_def)
  have h: "\<forall>key\<in>set STORAGE_KEYS. key \<noteq> BACKUP_DATA \<longrightarrow>
             json_image (storage_get stored_world key JNull) = storage_get stored_world key JNull"
    by code_simp
  from restoreBackup_of_createBackup_keeps_values [OF h, of sample_env] k l
  show ?thesis by simp
qed

text \<open>
  The claim as stated fails for a stored item that decodes to an infinity, as the text
  \<^verbatim>\<open>1e999\<close> does: \<^verbatim>\<open>createBackup\<close> keeps the number, \<^verbatim>\<open>restoreBackup\<close> writes
  it back as \<^verbatim>\<open>null\<close>, and the decoded value of the user collection has changed.
\<close>

theorem restoreBackup_infinity_counterexample:
  "storage_get infinity_world USER_DATA JNull
     = JArr [JObj [(''id'', JNum 1), (''name'', JStr ''Ana''), (''score'', JReal PositiveInfinity)]]
   \<and> fst (restoreBackup (fst (createBackup sample_env infinity_world))
                        (snd (createBackup sample_env infinity_world)))
   \<and> storage_get (snd (restoreBackup (fst (createBackup sample_env infinity_world))
                          (snd (createBackup sample_env infinity_world)))) USER_DATA JNull
     = JArr [JObj [(''id'', JNum 1), (''name'', JStr ''Ana''), (''score'', JNull)]]"
  by code_simp

section \<open>The CSV export\<close>










lemma newlines_append [simp]: "newlines (a @ b) = newlines a + newlines b"
  by (simp add: newlines_def)









text \<open>
  Outside of the conditions of the property. For a field named \<^verbatim>\<open>constructor\<close> that
  a later record has not, the language prints the function that the record inherits, whose
  text is the host's: the model gives no result there. And a value that is an object with
  a property named \<^verbatim>\<open>toString\<close> makes the export throw.
\<close>

lemma csv_export_outside_the_conditions:
  "fst (exportData sample_env (Some (JStr ''csv'')) inherited_name_world) = Inl OutsideModel
   \<and> fst (exportData sample_env (Some (JStr ''csv'')) unprintable_world) = Inl TypeError"
  by code_simp

section \<open>Recent registrations\<close>

lemma to_time_printable:
  "(case v of Some x \<Rightarrow> printable x | None \<Rightarrow> True) \<Longrightarrow> \<exists>t. to_time e v = Inr t"
proof (cases v)
  case None
  then show ?thesis by simp
next
  case (Some x)
  assume "case v of Some x \<Rightarrow> printable x | None \<Rightarrow> True"
  with Some have "printable x" by simp
  then show ?thesis
    unfolding Some by (cases x) (simp_all add: js_string_def)
qed

lemma registered_after_monthAgo_record:
  assumes "record_with_readable_date u"
  shows "registered_after_monthAgo e now u
           = Inr (case (to_time e (prop_of u ''registeredDate''), setMonth_back e now) of
                    (Inr (Some regDate), Some monthAgo) \<Rightarrow> regDate > monthAgo
                  | _ \<Rightarrow> False)"
proof -
  from assms obtain ob where u: "u = JObj ob"
    and p: "case obj_get ob ''registeredDate'' of Some v \<Rightarrow> printable v | None \<Rightarrow> True"
    by (auto simp: record_with_readable_date_def split: jsval.splits)
  have n: "''registeredDate'' \<notin> set Object_prototype"
    by (simp add: Object_prototype_def)
  then have g: "get_prop u ''registeredDate'' = Inr (obj_get ob ''registeredDate'')"
    by (simp add: u inherited_def split: option.splits)
  from to_time_printable [OF p] obtain t where t: "to_time e (obj_get ob ''registeredDate'') = Inr t"
    by blast
  show ?thesis
    by (simp add: registered_after_monthAgo_def prop_of_def g t split: option.splits)
qed

lemma later_than_a_month_ago_Suc:
  "later_than_a_month_ago e k (u # us) (Suc j) = later_than_a_month_ago e (Suc k) us j"
  by (simp add: later_than_a_month_ago_def)

lemma recentRegistrations_count:
  "\<forall>u\<in>set us. record_with_readable_date u \<Longrightarrow>
     recentRegistrations e k us
       = (Inr (int (length (filter (later_than_a_month_ago e k us) [0..<length us]))),
          k + length us)"
proof (induction us arbitrary: k)
  case Nil
  then show ?case by simp
next
  case (Cons u us)
  have upt: "[0..<length (u # us)] = 0 # map Suc [0..<length us]"
    by (simp add: upt_conv_Cons map_Suc_upt del: upt_Suc)
  have first: "registered_after_monthAgo e (clock e k) u
                 = Inr (later_than_a_month_ago e k (u # us) 0)"
    using Cons.prems
    by (simp add: registered_after_monthAgo_record later_than_a_month_ago_def)
  have rest: "recentRegistrations e (Suc k) us
       = (Inr (int (length (filter (later_than_a_month_ago e (Suc k) us) [0..<length us]))),
          Suc k + length us)"
    using Cons.prems by (intro Cons.IH) simp
  show ?case
    unfolding upt
    by (simp add: first rest filter_map comp_def later_than_a_month_ago_Suc)
qed

lemma count_where_records:
  assumes "\<forall>u\<in>set us. \<exists>ob. u = JObj ob" and "p \<notin> set Object_prototype"
  shows "\<exists>n. count_where (prop_is p lit) us = Inr n"
proof -
  have "\<forall>u\<in>set us. prop_is p lit u = Inr (strict_eq (prop_of u p) (ArgVal (JStr lit)))"
    using assms by (auto simp: prop_is_def prop_of_def inherited_def split: option.splits)
  then have "map_err (prop_is p lit) us
               = Inr (map (\<lambda>u. strict_eq (prop_of u p) (ArgVal (JStr lit))) us)"
    by (rule map_err_Inr)
  then show ?thesis
    by (simp add: count_where_def)
qed

lemma getUserStats_records:
  assumes "getUsers w = JArr us" and "\<forall>u\<in>set us. record_with_readable_date u"
  shows "\<exists>stats. fst (getUserStats e w) = Inr stats
           \<and> prop_of stats ''recentRegistrations''
               = Some (JNum (int (length (filter (later_than_a_month_ago e (ticks w) us)
                                             [0..<length us]))))"
proof -
  have "\<exists>ob. u = JObj ob" if "record_with_readable_date u" for u
    using that by (cases u) (simp_all add: record_with_readable_date_def)
  with assms(2) have obs: "\<forall>u\<in>set us. \<exists>ob. u = JObj ob"
    by blast
  obtain a where a: "count_where (prop_is ''status'' ''active'') us = Inr a"
    using count_where_records [OF obs, of "''status''" "''active''"]
    by (auto simp: Object_prototype_def)
  obtain b where b: "count_where (prop_is ''status'' ''inactive'') us = Inr b"
    using count_where_records [OF obs, of "''status''" "''inactive''"]
    by (auto simp: Object_prototype_def)
  obtain c where c: "count_where (prop_is ''role'' ''admin'') us = Inr c"
    using count_where_records [OF obs, of "''role''" "''admin''"]
    by (auto simp: Object_prototype_def)
  obtain d where d: "count_where (prop_is ''role'' ''user'') us = Inr d"
    using count_where_records [OF obs, of "''role''" "''user''"]
    by (auto simp: Object_prototype_def)
  have n: "''recentRegistrations'' \<notin> set Object_prototype"
    by (simp add: Object_prototype_def)
  show ?thesis
    using n
    by (simp add: getUserStats_def assms(1) a b c d recentRegistrations_count [OF assms(2)]
        prop_of_def obj_get_def)
qed

text \<open>
  Claim C8, amended. For a collection of user records whose \<^verbatim>\<open>registeredDate\<close>, where
  present, has a text, \<^verbatim>\<open>getUserStats\<close> returns, and its \<^verbatim>\<open>recentRegistrations\<close>
  counts exactly the users whose \<^verbatim>\<open>registeredDate\<close>, read as a date, is strictly later
  than the instant one calendar month before the clock reading taken for that user: the
  same day of the month and time of day in the previous month, in the local time of the
  host, with the offset from UTC in force at the reading to go to local time and the one in
  force at the result to come back (\<^verbatim>\<open>setMonth(getMonth() - 1)\<close>). A date in the future
  is counted; a value that is no date is not, and none is when the instant one month back
  is out of the range of dates.
\<close>

theorem recentRegistrations_counts_later_than_a_month_ago:
  assumes "getUsers w = JArr us" and "\<forall>u\<in>set us. record_with_readable_date u"
  shows "\<exists>stats. fst (getUserStats e w) = Inr stats
           \<and> prop_of stats ''recentRegistrations''
               = Some (JNum (int (length (filter
                   (\<lambda>j. case (to_time e (prop_of (us ! j) ''registeredDate''),
                               setMonth_back e (clock e (ticks w + j))) of
                           (Inr (Some regDate), Some monthAgo) \<Rightarrow> regDate > monthAgo
                         | _ \<Rightarrow> False)
                   [0..<length us]))))"
proof -
  have "later_than_a_month_ago e (ticks w) us
          = (\<lambda>j. case (to_time e (prop_of (us ! j) ''registeredDate''),
                        setMonth_back e (clock e (ticks w + j))) of
                    (Inr (Some regDate), Some monthAgo) \<Rightarrow> regDate > monthAgo
                  | _ \<Rightarrow> False)"
    by (rule ext) (simp add: later_than_a_month_ago_def)
  with getUserStats_records [OF assms, of e] show ?thesis
    by simp
qed

theorem recentRegistrations_counts_later_than_a_month_ago_witness:
  "getUsers future_world
     = JArr [JObj [(''id'', JNum 1), (''name'', JStr ''Ana''), (''status'', JStr ''active''),
                   (''role'', JStr ''user''), (''registeredDate'', JStr ''2023-12-24'')]]
   \<and> (\<exists>stats. fst (getUserStats new_york_env future_world) = Inr stats
          \<and> prop_of stats ''recentRegistrations'' = Some (JNum 1))
   \<and> getUsers march_world
     = JArr [JObj [(''id'', JNum 1), (''name'', JStr ''Ana''), (''status'', JStr ''active''),
                   (''role'', JStr ''user''), (''registeredDate'', JStr ''2023-03-03'')]]
   \<and> (\<exists>stats. fst (getUserStats new_york_env march_world) = Inr stats
          \<and> prop_of stats ''recentRegistrations'' = Some (JNum 0))"
proof -
  let ?future = "[JObj [(''id'', JNum 1), (''name'', JStr ''Ana''), (''status'', JStr ''active''),
                   (''role'', JStr ''user''), (''registeredDate'', JStr ''2023-12-24'')]]"
  let ?march = "[JObj [(''id'', JNum 1), (''name'', JStr ''Ana''), (''status'', JStr ''active''),
                   (''role'', JStr ''user''), (''registeredDate'', JStr ''2023-03-03'')]]"
  have f1: "getUsers future_world = JArr ?future"
    by (simp add: getUsers_def storage_get_def future_world_def)
  have f2: "\<forall>u\<in>set ?future. record_with_readable_date u"
    by code_simp
  have f3: "int (length (filter
                   (\<lambda>j. case (to_time new_york_env (prop_of (?future ! j) ''registeredDate''),
                               setMonth_back new_york_env (clock new_york_env (ticks future_world + j))) of
                           (Inr (Some regDate), Some monthAgo) \<Rightarrow> regDate > monthAgo
                         | _ \<Rightarrow> False)
                   [0..<length ?future])) = 1"
    by code_simp
  have m1: "getUsers march_world = JArr ?march"
    by (simp add: getUsers_def storage_get_def march_world_def)
  have m2: "\<forall>u\<in>set ?march. record_with_readable_date u"
    by code_simp
  have m3: "int (length (filter
                   (\<lambda>j. case (to_time new_york_env (prop_of (?march ! j) ''registeredDate''),
                               setMonth_back new_york_env (clock new_york_env (ticks march_world + j))) of
                           (Inr (Some regDate), Some monthAgo) \<Rightarrow> regDate > monthAgo
                         | _ \<Rightarrow> False)
                   [0..<length ?march])) = 0"
    by code_simp
  from recentRegistrations_counts_later_than_a_month_ago [OF f1 f2, of new_york_env]
  have a: "\<exists>stats. fst (getUserStats new_york_env future_world) = Inr stats
          \<and> prop_of stats ''recentRegistrations'' = Some (JNum 1)"
    unfolding f3 .
  from recentRegistrations_counts_later_than_a_month_ago [OF m1 m2, of new_york_env]
  have b: "\<exists>stats. fst (getUserStats new_york_env march_world) = Inr stats
          \<and> prop_of stats ''recentRegistrations'' = Some (JNum 0)"
    unfolding m3 .
  from f1 a m1 b show ?thesis
    by blast
qed

text \<open>
  The claim as stated fails: on 2023-03-31 at noon (UTC, on a host in UTC) one month back
  is 2023-03-03 at noon, so a user registered on 2023-03-03, within the trailing 30 days,
  is not counted; and a user whose date is 2023-12-24, in the future, is counted.
\<close>

theorem recentRegistrations_counterexample:
  "clock march_env 0 = 1680264000000
   \<and> toISOString (clock march_env 0) = ''2023-03-31T12:00:00.000Z''
   \<and> setMonth_back march_env (clock march_env 0) = Some 1677844800000
   \<and> toISOString 1677844800000 = ''2023-03-03T12:00:00.000Z''
   \<and> fst (getUserStats march_env march_world)
       = Inr (JObj [(''total'', JNum 1), (''active'', JNum 1), (''inactive'', JNum 0),
                    (''admins'', JNum 0), (''regularUsers'', JNum 1), (''recentRegistrations'', JNum 0)])
   \<and> registered_within_trailing_30_days march_env (clock march_env 0)
        [JObj [(''id'', JNum 1), (''name'', JStr ''Ana''), (''status'', JStr ''active''),
               (''role'', JStr ''user''), (''registeredDate'', JStr ''2023-03-03'')]] = 1
   \<and> fst (getUserStats march_env future_world)
       = Inr (JObj [(''total'', JNum 1), (''active'', JNum 1), (''inactive'', JNum 0),
                    (''admins'', JNum 0), (''regularUsers'', JNum 1), (''recentRegistrations'', JNum 1)])
   \<and> registered_within_trailing_30_days march_env (clock march_env 0)
        [JObj [(''id'', JNum 1), (''name'', JStr ''Ana''), (''status'', JStr ''active''),
               (''role'', JStr ''user''), (''registeredDate'', JStr ''2023-12-24'')]] = 0"
  by code_simp

text \<open>
  The offset of the host matters. On a host in New York the same instant is 08:00 of
  2023-03-31 under daylight time; one month back is 08:00 of 2023-03-03 under standard
  time, which is 13:00 UTC, an hour later than on a host in UTC.
\<close>

lemma setMonth_back_across_daylight_time:
  "setMonth_back new_york_env 1680264000000 = Some 1677848400000
   \<and> toISOString 1677848400000 = ''2023-03-03T13:00:00.000Z''
   \<and> setMonth_back march_env 1680264000000 = Some 1677844800000"
  by code_simp

end
